(* ===== verification/Prelude.thy ===== *)
theory Prelude
  imports Main "HOL-Library.Word" "HOL-Library.Monad_Syntax"
begin

text \<open>
  Shared vocabulary of the development: the fixed-width C integer types, the bit-field
  idioms of the sources (\<open>BITMASK\<close>, shifts, single-bit tests), the predicate \<open>fits\<close>
  saying that a 32-bit word is confined to its low bits, and the lemmas that carry the
  bound proofs and the move from words to natural numbers.

  A C function that may hit \<open>assert\<close> (the process aborts) or that may loop for ever is
  modelled as an \<open>option\<close>-valued function: \<open>None\<close> means that the call does not
  return.
\<close>

unbundle bit_operations_syntax

named_theorems fits_intros \<open>closure of the bit-width predicate under the C operators\<close>
named_theorems unat_word_simps \<open>reading word operations as natural number operations\<close>

subsection \<open>C integer types and bit-field idioms\<close>

type_synonym u8 = "8 word"
type_synonym u16 = "16 word"
type_synonym u32 = "32 word"
type_synonym u64 = "64 word"

text \<open>\<open>BITMASK(x)\<close> is \<open>((1<<(x))-1)\<close>; \<open>shl\<close> and \<open>shr\<close> are C's shifts of
  unsigned operands by a constant.\<close>

abbreviation BITMASK :: "nat \<Rightarrow> u32" where
  "BITMASK x \<equiv> mask x"

abbreviation shl :: "'a::len word \<Rightarrow> nat \<Rightarrow> 'a word" where
  "shl v n \<equiv> push_bit n v"

abbreviation shr :: "'a::len word \<Rightarrow> nat \<Rightarrow> 'a word" where
  "shr v n \<equiv> drop_bit n v"

text \<open>C's comparison results: \<open>(x == y)\<close> is the integer 1 or 0.\<close>

abbreviation cbool :: "bool \<Rightarrow> 'a::len word" where
  "cbool b \<equiv> of_bool b"

definition assert :: "bool \<Rightarrow> unit option" where
  "assert b = (if b then Some () else None)"

lemma assert_eq_Some [simp]: "assert b = Some u \<longleftrightarrow> b"
  by (simp add: assert_def)

lemma assert_True [simp]: "assert True = Some ()"
  by (simp add: assert_def)

lemma assert_False [simp]: "assert False = None"
  by (simp add: assert_def)

lemma assert_bind_eq_Some [simp]:
  "(assert b \<bind> f) = Some y \<longleftrightarrow> b \<and> f () = Some y"
  by (simp add: assert_def)

text \<open>The bit masks the sources use, as numerals.\<close>

lemma mask_u32_values [simp]:
  "BITMASK 2 = 0x3" "BITMASK 3 = 0x7" "BITMASK 4 = 0xf" "BITMASK 5 = 0x1f"
  "BITMASK 6 = 0x3f" "BITMASK 7 = 0x7f" "BITMASK 8 = 0xff" "BITMASK 9 = 0x1ff"
  "BITMASK 10 = 0x3ff" "BITMASK 12 = 0xfff" "BITMASK 16 = 0xffff" "BITMASK 24 = 0xffffff"
  by (simp_all add: mask_numeral)

subsection \<open>Reading words as natural numbers\<close>

lemma unat_drop_bit [unat_word_simps]: "unat (drop_bit n w) = unat w div 2 ^ n"
  unfolding unat_drop_bit_eq by (simp add: drop_bit_eq_div)

lemma unat_and_mask [unat_word_simps]: "unat (w AND mask n) = unat w mod 2 ^ n"
  unfolding take_bit_eq_mask [symmetric] unsigned_take_bit_eq by (simp add: take_bit_eq_mod)

lemma unat_push_bit [unat_word_simps]:
  "unat (push_bit n (w :: 'a::len word)) = unat w * 2 ^ n mod 2 ^ LENGTH('a)"
  unfolding unsigned_push_bit_eq by (simp add: take_bit_eq_mod push_bit_eq_mult)

lemma unat_and_1 [unat_word_simps]: "unat (w AND 1) = unat w mod 2"
  using unat_and_mask [of w 1] by (simp add: mask_Suc_0)

lemma unat_and_numeral_masks [unat_word_simps]:
  "unat ((w::u32) AND 0xff) = unat w mod 2 ^ 8"
  "unat ((w::u32) AND 0xffffff) = unat w mod 2 ^ 24"
  "unat ((w::u32) AND 0xfff) = unat w mod 2 ^ 12"
  using unat_and_mask [of w 8] unat_and_mask [of w 24] unat_and_mask [of w 12] by simp_all

lemma unat_add_small: "unat a + unat b < 2 ^ 32 \<Longrightarrow> unat (a + b :: u32) = unat a + unat b"
  by (subst unat_add_lem [symmetric]) simp

lemma unat_mult_small: "unat a * unat b < 2 ^ 32 \<Longrightarrow> unat (a * b :: u32) = unat a * unat b"
  by (subst unat_mult_lem [symmetric]) simp

lemma unat_add3_small:
  assumes "unat a + unat b + unat c < 2 ^ 32"
  shows "unat (a + b + c :: u32) = unat a + unat b + unat c"
proof -
  have i: "unat (a + b) = unat a + unat b" using assms by (intro unat_add_small) simp
  have "unat (a + b + c) = unat (a + b) + unat c" using assms i by (intro unat_add_small) simp
  then show ?thesis unfolding i .
qed

lemma unat_of_nat_small: "n < 2 ^ 32 \<Longrightarrow> unat (of_nat n :: u32) = n"
  by (simp add: unsigned_of_nat take_bit_nat_eq_self_iff)

text \<open>The sources test bit \<open>n\<close> of a register as \<open>x & (1<<n)\<close>.\<close>

lemma test_bit_shl: "(x::u32) AND shl 1 n \<noteq> 0 \<longleftrightarrow> bit x n"
  using bit_iff_and_push_bit_not_eq_0 [of x n] by simp

lemma cast_bit_field: "ucast (shr (w::'a::len word) n AND 1) = (of_bool (bit w n) :: 'b::len word)"
  by (rule bit_word_eqI) (auto simp: bit_simps bit_1_iff)

lemma and_1_bit: "shr (w::'a::len word) n AND 1 = of_bool (bit w n)"
  by (rule bit_word_eqI) (auto simp: bit_simps bit_1_iff)

lemma of_bool_word_ops:
  "(of_bool a :: 'a::len word) XOR of_bool b = of_bool (a \<noteq> b)"
  "(of_bool a :: 'a::len word) AND of_bool b = of_bool (a \<and> b)"
  "(of_bool a :: 'a::len word) OR of_bool b = of_bool (a \<or> b)"
  by (cases a; cases b; simp)+

lemma bit_iff_unat: "bit (w::'a::len word) n \<longleftrightarrow> odd (unat w div 2 ^ n)"
proof -
  have "bit w n \<longleftrightarrow> bit (unat w) n" by (simp add: bit_unsigned_iff)
  then show ?thesis by (simp add: bit_iff_odd)
qed

lemma unat_cast: "unat (ucast (w :: 'a::len word) :: 'b::len word) = unat w mod 2 ^ LENGTH('b)"
  by (simp add: unsigned_ucast_eq take_bit_eq_mod)

lemma or_disjoint_add: "(x::'a::len word) AND y = 0 \<Longrightarrow> x OR y = x + y"
  using word_plus_and_or [of x y] by simp

lemma unat_less_exp: "unat (w :: u32) < 2 ^ 32"
  using unsigned_less [of w, where ?'a = nat] by simp

subsection \<open>Signed 16-bit integers\<close>

text \<open>An \<open>int16_t\<close> variable holds an integer between \<open>-2^15\<close> and \<open>2^15 - 1\<close>; a value that
  is stored in it is reduced by \<open>s16\<close>.\<close>

definition s16 :: "int \<Rightarrow> int" where
  "s16 x = (x + 2 ^ 15) mod 2 ^ 16 - 2 ^ 15"

lemma s16_range: "- (2 ^ 15) \<le> s16 x" "s16 x < 2 ^ 15"
  by (simp_all add: s16_def)

lemma s16_id [simp]: "- (2 ^ 15) \<le> x \<Longrightarrow> x < 2 ^ 15 \<Longrightarrow> s16 x = x"
  by (simp add: s16_def)

lemma s16_le: "- (2 ^ 15) \<le> x \<Longrightarrow> s16 x \<le> x"
  using zmod_le_nonneg_dividend [of "x + 2 ^ 15" "2 ^ 16"] by (simp add: s16_def)

lemma s16_ge: "x < 2 ^ 15 \<Longrightarrow> x \<le> s16 x"
proof -
  assume "x < 2 ^ 15"
  then have "(x + 2 ^ 15) div 2 ^ 16 \<le> 0" using zdiv_mono1 [of "x + 2 ^ 15" "2 ^ 16 - 1" "2 ^ 16"] by simp
  moreover have "s16 x = x - 2 ^ 16 * ((x + 2 ^ 15) div 2 ^ 16)"
    using minus_mult_div_eq_mod [of "x + 2 ^ 15" "2 ^ 16"] by (simp add: s16_def)
  ultimately show ?thesis by simp
qed

lemma s16_mod: "s16 x mod 2 ^ 16 = x mod 2 ^ 16"
  by (simp add: s16_def mod_diff_left_eq)

subsection \<open>Words confined to their low bits\<close>

definition fits :: "nat \<Rightarrow> u32 \<Rightarrow> bool" where
  "fits k v \<longleftrightarrow> take_bit k v = v"

lemma fits_iff_bit: "fits k v \<longleftrightarrow> (\<forall>n. bit v n \<longrightarrow> n < k)"
proof
  assume "fits k v"
  then have eq: "take_bit k v = v" by (simp add: fits_def)
  show "\<forall>n. bit v n \<longrightarrow> n < k"
  proof (intro allI impI)
    fix n assume "bit v n"
    with eq have "bit (take_bit k v) n" by simp
    then show "n < k" by (simp add: bit_take_bit_iff)
  qed
next
  assume "\<forall>n. bit v n \<longrightarrow> n < k"
  then show "fits k v"
    by (auto simp: fits_def bit_take_bit_iff intro!: bit_word_eqI)
qed

lemma fits_iff_unat: "fits k v \<longleftrightarrow> unat v < 2 ^ k"
proof -
  have "take_bit k v = v \<longleftrightarrow> unat (take_bit k v) = unat v"
    by (rule word_unat_eq_iff)
  also have "\<dots> \<longleftrightarrow> unat v mod 2 ^ k = unat v"
    unfolding unsigned_take_bit_eq by (simp add: take_bit_eq_mod)
  also have "\<dots> \<longleftrightarrow> unat v < 2 ^ k"
    by (metis mod_less mod_less_divisor zero_less_numeral zero_less_power)
  finally show ?thesis by (simp add: fits_def)
qed

lemma fits_0 [simp, fits_intros]: "fits k 0"
  by (simp add: fits_iff_bit)

lemma fits_1 [simp, fits_intros]: "fits (Suc k) 1"
  by (auto simp: fits_iff_bit bit_1_iff)

lemma fits_numeral_iff: "fits k (numeral n) \<longleftrightarrow> take_bit k (numeral n :: u32) = numeral n"
  by (simp add: fits_def)

lemma fits_mono: "fits j v \<Longrightarrow> j \<le> k \<Longrightarrow> fits k v"
  by (auto simp: fits_iff_bit)

lemma fits_32: "32 \<le> k \<Longrightarrow> fits k v"
  by (auto simp: fits_iff_bit dest: bit_imp_le_length)

lemma fits_and1 [fits_intros]: "fits k v \<Longrightarrow> fits k (v AND w)"
  by (auto simp: fits_iff_bit bit_and_iff)

lemma fits_and2: "fits k w \<Longrightarrow> fits k (v AND w)"
  by (auto simp: fits_iff_bit bit_and_iff)

lemma fits_or [fits_intros]: "fits k v \<Longrightarrow> fits k w \<Longrightarrow> fits k (v OR w)"
  by (auto simp: fits_iff_bit bit_or_iff)

lemma fits_xor [fits_intros]: "fits k v \<Longrightarrow> fits k w \<Longrightarrow> fits k (v XOR w)"
  by (auto simp: fits_iff_bit bit_xor_iff)

lemma fits_shr [fits_intros]: "fits k v \<Longrightarrow> fits k (shr v n)"
  by (auto simp: fits_iff_bit bit_drop_bit_eq)

lemma fits_shl: "fits j v \<Longrightarrow> j + n \<le> k \<Longrightarrow> fits k (shl v n)"
  by (auto simp: fits_iff_bit bit_push_bit_iff)

lemma fits_if [fits_intros]:
  "(b \<Longrightarrow> fits k v) \<Longrightarrow> (\<not> b \<Longrightarrow> fits k w) \<Longrightarrow> fits k (if b then v else w)"
  by simp

lemma fits_ucast16 [fits_intros]: "16 \<le> k \<Longrightarrow> fits k (ucast (v :: u16))"
  by (auto simp: fits_iff_bit bit_simps dest: bit_imp_le_length)

lemma fits_of_bool [fits_intros]: "0 < k \<Longrightarrow> fits k (of_bool b)"
  by (cases k) auto

text \<open>The masks that end most register writes.\<close>

lemma fits_and_mask [fits_intros]:
  "8 \<le> k \<Longrightarrow> fits k (v AND 0xff)"
  "16 \<le> k \<Longrightarrow> fits k (v AND 0xffff)"
  "24 \<le> k \<Longrightarrow> fits k (v AND 0xffffff)"
  "24 \<le> k \<Longrightarrow> fits k (v AND 0xfffffe)"
  "6 \<le> k \<Longrightarrow> fits k (v AND 0x3f)"
  "1 \<le> k \<Longrightarrow> fits k (v AND 1)"
proof -
  have *: "fits j m \<Longrightarrow> j \<le> k \<Longrightarrow> fits k (v AND m)" for j m
    by (rule fits_and2) (rule fits_mono)
  show "8 \<le> k \<Longrightarrow> fits k (v AND 0xff)" by (rule * [of 8]) (simp_all add: fits_numeral_iff)
  show "16 \<le> k \<Longrightarrow> fits k (v AND 0xffff)" by (rule * [of 16]) (simp_all add: fits_numeral_iff)
  show "24 \<le> k \<Longrightarrow> fits k (v AND 0xffffff)" by (rule * [of 24]) (simp_all add: fits_numeral_iff)
  show "24 \<le> k \<Longrightarrow> fits k (v AND 0xfffffe)" by (rule * [of 24]) (simp_all add: fits_numeral_iff)
  show "6 \<le> k \<Longrightarrow> fits k (v AND 0x3f)" by (rule * [of 6]) (simp_all add: fits_numeral_iff)
  show "1 \<le> k \<Longrightarrow> fits k (v AND 1)" by (rule * [of 1]) (simp_all add: fits_def)
qed

text \<open>Clearing, setting and testing bits of a 16-bit register that is kept in a 32-bit word.\<close>

lemma bit_and_clear:
  assumes "fits 16 m"
  shows "bit ((v::u32) AND (BITMASK 16 - m)) n \<longleftrightarrow> bit v n \<and> n < 16 \<and> \<not> bit m n"
proof -
  have "bit m k \<Longrightarrow> k < 16" for k using assms by (simp add: fits_iff_bit)
  then have d: "m AND (BITMASK 16 AND NOT m) = 0" "m OR (BITMASK 16 AND NOT m) = BITMASK 16"
    by (auto intro!: bit_word_eqI simp: bit_simps simp del: mask_u32_values)
  from or_disjoint_add [OF d(1)] have "BITMASK 16 - m = BITMASK 16 AND NOT m"
    unfolding d(2) by (metis add_diff_cancel_left')
  then show ?thesis by (auto simp: bit_simps bit_imp_le_length simp del: mask_u32_values)
qed

lemma bit_single: "bit (if b then shl (1::u32) j else 0) k \<longleftrightarrow> b \<and> k = j \<and> j < 32"
  by (auto simp: bit_simps)

lemma bit_and_single: "bit ((v::u32) AND shl 1 j) k \<longleftrightarrow> bit v k \<and> k = j \<and> j < 32"
  by (auto simp: bit_simps)

subsection \<open>Option-valued programs\<close>

lemmas bind_Some_iff = bind_eq_Some_conv

end
