(* ===== verification/Dsp_State.thy ===== *)
theory Dsp_State
  imports Prelude
begin

text \<open>
  State of the DSP56300 emulator of \<open>src/hw/xbox/dsp\<close>: the structures
  \<open>dsp_core_t\<close> (\<open>dsp_cpu.h\<close>), \<open>DSPDMAState\<close> (\<open>dsp_dma.h\<close>) and
  \<open>DSPState\<close> (\<open>dsp.c\<close>), the register numbers, and the register file accessors.

  A fixed-size C array is a function of its index; every access in the sources is
  guarded by an \<open>assert\<close> or by a mask of the index (six-bit register numbers, four-bit
  stack indices), and the models keep these guards. \<open>DSPState\<close> extends the core record:
  the callbacks of the core recover the enclosing structure by \<open>container_of\<close>, which is
  the view of the extended record. The disassembly buffers of the core are only used when
  \<open>TRACE_DSP_DISASM\<close> is set, which it is not, and are left out.
\<close>

subsection \<open>Register numbers, status bits, memory map\<close>

abbreviation (input) DSP_REG_NULL :: u32 where "DSP_REG_NULL \<equiv> 0x00"
abbreviation (input) DSP_REG_X0 :: u32 where "DSP_REG_X0 \<equiv> 0x04"
abbreviation (input) DSP_REG_X1 :: u32 where "DSP_REG_X1 \<equiv> 0x05"
abbreviation (input) DSP_REG_Y0 :: u32 where "DSP_REG_Y0 \<equiv> 0x06"
abbreviation (input) DSP_REG_Y1 :: u32 where "DSP_REG_Y1 \<equiv> 0x07"
abbreviation (input) DSP_REG_A0 :: u32 where "DSP_REG_A0 \<equiv> 0x08"
abbreviation (input) DSP_REG_B0 :: u32 where "DSP_REG_B0 \<equiv> 0x09"
abbreviation (input) DSP_REG_A2 :: u32 where "DSP_REG_A2 \<equiv> 0x0a"
abbreviation (input) DSP_REG_B2 :: u32 where "DSP_REG_B2 \<equiv> 0x0b"
abbreviation (input) DSP_REG_A1 :: u32 where "DSP_REG_A1 \<equiv> 0x0c"
abbreviation (input) DSP_REG_B1 :: u32 where "DSP_REG_B1 \<equiv> 0x0d"
abbreviation (input) DSP_REG_A :: u32 where "DSP_REG_A \<equiv> 0x0e"
abbreviation (input) DSP_REG_B :: u32 where "DSP_REG_B \<equiv> 0x0f"
abbreviation (input) DSP_REG_R0 :: u32 where "DSP_REG_R0 \<equiv> 0x10"
abbreviation (input) DSP_REG_N0 :: u32 where "DSP_REG_N0 \<equiv> 0x18"
abbreviation (input) DSP_REG_M0 :: u32 where "DSP_REG_M0 \<equiv> 0x20"
abbreviation (input) DSP_REG_LCSAVE :: u32 where "DSP_REG_LCSAVE \<equiv> 0x30"
abbreviation (input) DSP_REG_SR :: u32 where "DSP_REG_SR \<equiv> 0x39"
abbreviation (input) DSP_REG_OMR :: u32 where "DSP_REG_OMR \<equiv> 0x3a"
abbreviation (input) DSP_REG_SP :: u32 where "DSP_REG_SP \<equiv> 0x3b"
abbreviation (input) DSP_REG_SSH :: u32 where "DSP_REG_SSH \<equiv> 0x3c"
abbreviation (input) DSP_REG_SSL :: u32 where "DSP_REG_SSL \<equiv> 0x3d"
abbreviation (input) DSP_REG_LA :: u32 where "DSP_REG_LA \<equiv> 0x3e"
abbreviation (input) DSP_REG_LC :: u32 where "DSP_REG_LC \<equiv> 0x3f"

abbreviation (input) DSP_SR_C :: nat where "DSP_SR_C \<equiv> 0x00"
abbreviation (input) DSP_SR_V :: nat where "DSP_SR_V \<equiv> 0x01"
abbreviation (input) DSP_SR_Z :: nat where "DSP_SR_Z \<equiv> 0x02"
abbreviation (input) DSP_SR_N :: nat where "DSP_SR_N \<equiv> 0x03"
abbreviation (input) DSP_SR_U :: nat where "DSP_SR_U \<equiv> 0x04"
abbreviation (input) DSP_SR_E :: nat where "DSP_SR_E \<equiv> 0x05"
abbreviation (input) DSP_SR_L :: nat where "DSP_SR_L \<equiv> 0x06"
abbreviation (input) DSP_SR_I0 :: nat where "DSP_SR_I0 \<equiv> 0x08"
abbreviation (input) DSP_SR_I1 :: nat where "DSP_SR_I1 \<equiv> 0x09"
abbreviation (input) DSP_SR_S0 :: nat where "DSP_SR_S0 \<equiv> 0x0a"
abbreviation (input) DSP_SR_S1 :: nat where "DSP_SR_S1 \<equiv> 0x0b"
abbreviation (input) DSP_SR_T :: nat where "DSP_SR_T \<equiv> 0x0d"
abbreviation (input) DSP_SR_LF :: nat where "DSP_SR_LF \<equiv> 0x0f"

abbreviation (input) DSP_SP_SE :: nat where "DSP_SP_SE \<equiv> 0x04"
abbreviation (input) DSP_SP_UF :: nat where "DSP_SP_UF \<equiv> 0x05"

abbreviation (input) DSP_SPACE_X :: u32 where "DSP_SPACE_X \<equiv> 0x00"
abbreviation (input) DSP_SPACE_Y :: u32 where "DSP_SPACE_Y \<equiv> 0x01"
abbreviation (input) DSP_SPACE_P :: u32 where "DSP_SPACE_P \<equiv> 0x02"

abbreviation (input) DSP_XRAM_SIZE :: u32 where "DSP_XRAM_SIZE \<equiv> 4096"
abbreviation (input) DSP_YRAM_SIZE :: u32 where "DSP_YRAM_SIZE \<equiv> 2048"
abbreviation (input) DSP_PRAM_SIZE :: u32 where "DSP_PRAM_SIZE \<equiv> 4096"
abbreviation (input) DSP_MIXBUFFER_BASE :: u32 where "DSP_MIXBUFFER_BASE \<equiv> 0x001400"
abbreviation (input) DSP_MIXBUFFER_SIZE :: u32 where "DSP_MIXBUFFER_SIZE \<equiv> 1024"
abbreviation (input) DSP_PERIPH_BASE :: u32 where "DSP_PERIPH_BASE \<equiv> 0xFFFF80"

abbreviation (input) DSP_INTERRUPT_NONE :: u16 where "DSP_INTERRUPT_NONE \<equiv> 0x0"
abbreviation (input) DSP_INTERRUPT_DISABLED :: u16 where "DSP_INTERRUPT_DISABLED \<equiv> 0x1"
abbreviation (input) DSP_INTERRUPT_LONG :: u16 where "DSP_INTERRUPT_LONG \<equiv> 0x2"

abbreviation (input) DSP_INTER_ILLEGAL :: u32 where "DSP_INTER_ILLEGAL \<equiv> 0x1"
abbreviation (input) DSP_INTER_STACK_ERROR :: u32 where "DSP_INTER_STACK_ERROR \<equiv> 0x2"
abbreviation (input) DSP_INTER_TRACE :: u32 where "DSP_INTER_TRACE \<equiv> 0x3"

subsection \<open>The core, the DMA engine and the enclosing structure\<close>

record dsp_core =
  instr_cycle :: u16
  pc :: u32
  registers :: "u32 \<Rightarrow> u32"
  stack :: "u32 \<Rightarrow> u32 \<Rightarrow> u32"
  xram :: "u32 \<Rightarrow> u32"
  yram :: "u32 \<Rightarrow> u32"
  pram :: "u32 \<Rightarrow> u32"
  mixbuffer :: "u32 \<Rightarrow> u32"
  periph :: "u32 \<Rightarrow> u32"
  loop_rep :: u32
  pc_on_rep :: u32
  interrupt_state :: u16
  interrupt_instr_fetch :: u16
  interrupt_save_pc :: u16
  interrupt_counter :: u16
  interrupt_ipl_to_raise :: u16
  interrupt_pipeline_count :: u16
  interrupt_ipl :: "u32 \<Rightarrow> int"
  interrupt_is_pending :: "u32 \<Rightarrow> u16"
  num_inst :: u32
  cur_inst_len :: u32
  cur_inst :: u32
  executing_for_disasm :: bool
  exception_debugging :: bool

text \<open>The scratch and FIFO accessors are function pointers installed by the owner of the DSP
  together with an opaque pointer; \<open>'o\<close> is the state behind that pointer. An accessor gets
  the opaque state, the transfer buffer, the address or FIFO index, the length and the
  direction, and returns the new opaque state and buffer.\<close>

type_synonym 'o rw_func = "'o \<Rightarrow> u8 list \<Rightarrow> u32 \<Rightarrow> nat \<Rightarrow> bool \<Rightarrow> ('o \<times> u8 list) option"

record 'o DSPDMAState =
  rw_opaque :: 'o
  scratch_rw :: "'o rw_func"
  fifo_rw :: "'o rw_func"
  configuration :: u32
  control :: u32
  start_block :: u32
  next_block :: u32
  dma_error :: bool
  eol :: bool

record 'o DSPState = dsp_core +
  dma :: "'o DSPDMAState"
  save_cycles :: int
  interrupts :: u32

subsection \<open>Register file\<close>

definition reg :: "u32 \<Rightarrow> 'a dsp_core_scheme \<Rightarrow> u32" where
  "reg r s = registers s r"

definition set_reg :: "u32 \<Rightarrow> u32 \<Rightarrow> 'a dsp_core_scheme \<Rightarrow> 'a dsp_core_scheme" where
  "set_reg r v s = s\<lparr>registers := (registers s)(r := v)\<rparr>"

text \<open>\<open>registers_mask\<close>: the width in bits of each register number.\<close>

definition registers_mask :: "u32 \<Rightarrow> nat" where
  "registers_mask r =
     (if r < 4 then 0
      else if r < 10 then 24
      else if r < 12 then 8
      else if r < 16 then 24
      else if r < 40 then 16
      else if r < 57 then 0
      else if r = 57 then 16
      else if r = 58 then 8
      else if r = 59 then 6
      else if r < 64 then 16
      else 0)"

lemma reg_set_reg [simp]: "reg r (set_reg q v s) = (if r = q then v else reg r s)"
  by (simp add: reg_def set_reg_def)

lemma set_reg_same [simp]: "set_reg r v (set_reg r w s) = set_reg r v s"
  by (simp add: set_reg_def)

text \<open>A register write changes nothing but the register file.\<close>

lemma set_reg_frame [simp]:
  "instr_cycle (set_reg r v s) = instr_cycle s"
  "pc (set_reg r v s) = pc s"
  "stack (set_reg r v s) = stack s"
  "xram (set_reg r v s) = xram s"
  "yram (set_reg r v s) = yram s"
  "pram (set_reg r v s) = pram s"
  "mixbuffer (set_reg r v s) = mixbuffer s"
  "periph (set_reg r v s) = periph s"
  "loop_rep (set_reg r v s) = loop_rep s"
  "pc_on_rep (set_reg r v s) = pc_on_rep s"
  "interrupt_state (set_reg r v s) = interrupt_state s"
  "interrupt_instr_fetch (set_reg r v s) = interrupt_instr_fetch s"
  "interrupt_save_pc (set_reg r v s) = interrupt_save_pc s"
  "interrupt_counter (set_reg r v s) = interrupt_counter s"
  "interrupt_ipl_to_raise (set_reg r v s) = interrupt_ipl_to_raise s"
  "interrupt_pipeline_count (set_reg r v s) = interrupt_pipeline_count s"
  "interrupt_ipl (set_reg r v s) = interrupt_ipl s"
  "interrupt_is_pending (set_reg r v s) = interrupt_is_pending s"
  "cur_inst_len (set_reg r v s) = cur_inst_len s"
  "cur_inst (set_reg r v s) = cur_inst s"
  "executing_for_disasm (set_reg r v s) = executing_for_disasm s"
  "exception_debugging (set_reg r v s) = exception_debugging s"
  "dsp_core.more (set_reg r v s) = dsp_core.more s"
  by (simp_all add: set_reg_def)

text \<open>Writes to the other fields leave the register file alone.\<close>

lemma reg_frame [simp]:
  "reg r (s\<lparr>instr_cycle := c\<rparr>) = reg r s"
  "reg r (s\<lparr>pc := p\<rparr>) = reg r s"
  "reg r (s\<lparr>stack := st\<rparr>) = reg r s"
  "reg r (s\<lparr>xram := m\<rparr>) = reg r s"
  "reg r (s\<lparr>yram := m\<rparr>) = reg r s"
  "reg r (s\<lparr>pram := m\<rparr>) = reg r s"
  "reg r (s\<lparr>mixbuffer := m\<rparr>) = reg r s"
  "reg r (s\<lparr>loop_rep := l\<rparr>) = reg r s"
  "reg r (s\<lparr>pc_on_rep := l\<rparr>) = reg r s"
  "reg r (s\<lparr>interrupt_state := h\<rparr>) = reg r s"
  "reg r (s\<lparr>interrupt_instr_fetch := h\<rparr>) = reg r s"
  "reg r (s\<lparr>interrupt_save_pc := h\<rparr>) = reg r s"
  "reg r (s\<lparr>interrupt_counter := h\<rparr>) = reg r s"
  "reg r (s\<lparr>interrupt_ipl_to_raise := h\<rparr>) = reg r s"
  "reg r (s\<lparr>interrupt_pipeline_count := h\<rparr>) = reg r s"
  "reg r (s\<lparr>interrupt_is_pending := q\<rparr>) = reg r s"
  "reg r (s\<lparr>cur_inst_len := l\<rparr>) = reg r s"
  "reg r (s\<lparr>cur_inst := l\<rparr>) = reg r s"
  by (simp_all add: reg_def)

lemma set_reg_frame_dsp [simp]:
  "dma (set_reg r v s) = dma s"
  "save_cycles (set_reg r v s) = save_cycles s"
  "interrupts (set_reg r v s) = interrupts s"
  by (simp_all add: set_reg_def)

lemma reg_frame_dsp [simp]:
  "reg r (s\<lparr>dma := d\<rparr>) = reg r s"
  "reg r (s\<lparr>save_cycles := n\<rparr>) = reg r s"
  "reg r (s\<lparr>interrupts := i\<rparr>) = reg r s"
  by (simp_all add: reg_def)

subsection \<open>Reset and initialisation\<close>

text \<open>\<open>dsp56k_reset_cpu\<close> also fills the table of opcode matches on its first call; that table
  is the constant \<open>nonparallel_matches\<close> of the decoder theory.\<close>

definition dsp56k_reset_cpu :: "'a dsp_core_scheme \<Rightarrow> 'a dsp_core_scheme" where
  "dsp56k_reset_cpu s = s\<lparr>
     periph := (\<lambda>_. 0),
     stack := (\<lambda>_ _. 0),
     registers := (\<lambda>r. if r = DSP_REG_OMR then 0x02
                       else if DSP_REG_M0 \<le> r \<and> r < DSP_REG_M0 + 8 then 0x00ffff else 0),
     pc := 0x0000,
     interrupt_is_pending := (\<lambda>_. 0),
     interrupt_state := DSP_INTERRUPT_NONE,
     interrupt_instr_fetch := -1,
     interrupt_save_pc := -1,
     interrupt_counter := 0,
     interrupt_pipeline_count := 0,
     interrupt_ipl := (\<lambda>i. if i < 5 then 3 else if i < 12 then -1 else interrupt_ipl s i),
     loop_rep := 0,
     executing_for_disasm := False,
     num_inst := 0,
     exception_debugging := True\<rparr>"

definition dsp_reset :: "'o DSPState \<Rightarrow> 'o DSPState" where
  "dsp_reset s = (dsp56k_reset_cpu s)\<lparr>save_cycles := 0\<rparr>"

definition dsp_init :: "'o \<Rightarrow> 'o rw_func \<Rightarrow> 'o rw_func \<Rightarrow> 'o DSPState" where
  "dsp_init opaque scratch fifo = dsp_reset
     \<lparr>instr_cycle = 0, pc = 0, registers = (\<lambda>_. 0), stack = (\<lambda>_ _. 0),
      xram = (\<lambda>_. 0), yram = (\<lambda>_. 0), pram = (\<lambda>_. 0), mixbuffer = (\<lambda>_. 0), periph = (\<lambda>_. 0),
      loop_rep = 0, pc_on_rep = 0,
      interrupt_state = 0, interrupt_instr_fetch = 0, interrupt_save_pc = 0, interrupt_counter = 0,
      interrupt_ipl_to_raise = 0, interrupt_pipeline_count = 0,
      interrupt_ipl = (\<lambda>_. 0), interrupt_is_pending = (\<lambda>_. 0),
      num_inst = 0, cur_inst_len = 0, cur_inst = 0, executing_for_disasm = False,
      exception_debugging = False,
      dma = \<lparr>rw_opaque = opaque, scratch_rw = scratch, fifo_rw = fifo, configuration = 0, control = 0,
             start_block = 0, next_block = 0, dma_error = False, eol = False\<rparr>,
      save_cycles = 0, interrupts = 0\<rparr>"

lemmas dsp_init_defs = dsp_init_def dsp_reset_def dsp56k_reset_cpu_def

end
