(* ===== verification/Dsp_Arith.thy ===== *)
theory Dsp_Arith
  imports Dsp_State
begin

text \<open>
  The 56-bit accumulator arithmetic of \<open>src/hw/xbox/dsp/dsp_cpu.c\<close>. An accumulator is an
  array of three words: element 0 holds bits 55..48, element 1 bits 47..24, element 2 bits
  23..0. The routines return the condition bits they compute as a 16-bit status word.

  The lemmas read the limbs as one 56-bit number, unsigned (\<open>val56\<close>) or in two's
  complement (\<open>sval56\<close>), and show that the limb-wise routines are the 56-bit operations,
  with their carry and overflow bits.
\<close>

type_synonym acc3 = "u32 \<times> u32 \<times> u32"

subsection \<open>The routines\<close>

definition dsp_add56 :: "acc3 \<Rightarrow> acc3 \<Rightarrow> u16 \<times> acc3" where
  "dsp_add56 source dest =
     (case source of (s0, s1, s2) \<Rightarrow> case dest of (d0, d1, d2) \<Rightarrow>
      let flg_s = ucast (shr s0 7 AND 1) :: u16;
          flg_d = ucast (shr d0 7 AND 1) :: u16;
          d2 = d2 + s2;
          d1 = d1 + (s1 + (shr d2 24 AND 1));
          d0 = d0 + (s0 + (shr d1 24 AND 1));
          carry = ucast (shr d0 8 AND 1) :: u16;
          d2 = d2 AND BITMASK 24;
          d1 = d1 AND BITMASK 24;
          d0 = d0 AND BITMASK 8;
          flg_r = ucast (shr d0 7 AND 1) :: u16;
          overflow = (flg_s XOR flg_r) AND (flg_d XOR flg_r)
      in (shl overflow DSP_SR_L OR shl overflow DSP_SR_V OR shl carry DSP_SR_C, (d0, d1, d2)))"

definition dsp_sub56 :: "acc3 \<Rightarrow> acc3 \<Rightarrow> u16 \<times> acc3" where
  "dsp_sub56 source dest =
     (case source of (s0, s1, s2) \<Rightarrow> case dest of (d0, d1, d2) \<Rightarrow>
      let dest_save = ucast d0 :: u16;
          d2 = d2 - s2;
          d1 = d1 - (s1 + (shr d2 24 AND 1));
          d0 = d0 - (s0 + (shr d1 24 AND 1));
          carry = ucast (shr d0 8 AND 1) :: u16;
          d2 = d2 AND BITMASK 24;
          d1 = d1 AND BITMASK 24;
          d0 = d0 AND BITMASK 8;
          flg_s = ucast (shr s0 7 AND 1) :: u16;
          flg_d = shr dest_save 7 AND 1;
          flg_r = ucast (shr d0 7 AND 1) :: u16;
          overflow = (flg_s XOR flg_d) AND (flg_r XOR flg_d)
      in (shl overflow DSP_SR_L OR shl overflow DSP_SR_V OR shl carry DSP_SR_C, (d0, d1, d2)))"

definition dsp_abs56 :: "acc3 \<Rightarrow> u16 \<times> acc3" where
  "dsp_abs56 dest =
     (case dest of (d0, d1, d2) \<Rightarrow>
      if d0 AND shl 1 7 \<noteq> 0 then dsp_sub56 dest (0, 0, 0) else (0, dest))"

text \<open>The three limbs as the 64-bit temporary the shifts work on, and back.\<close>

definition pack56 :: "acc3 \<Rightarrow> u64" where
  "pack56 d = (case d of (d0, d1, d2) \<Rightarrow> ucast d2 OR shl (ucast d1) 24 OR shl (ucast d0) 48)"

definition unpack56 :: "u64 \<Rightarrow> acc3" where
  "unpack56 v = (ucast (shr v 48 AND mask 8), ucast (shr v 24 AND mask 24), ucast (v AND mask 24))"

definition dsp_asl56 :: "acc3 \<Rightarrow> nat \<Rightarrow> u16 \<times> acc3" where
  "dsp_asl56 dest n =
     (let dest_v = pack56 dest;
          carry = ucast (shr dest_v (56 - n) AND 1) :: u16;
          dest_s = shl dest_v n;
          overflow = cbool (shr dest_v (56 - n) \<noteq> 0) :: u16;
          v = cbool ((shr dest_v 55 AND 1) \<noteq> (shr dest_s 55 AND 1)) :: u16
      in (shl overflow DSP_SR_L OR shl v DSP_SR_V OR shl carry DSP_SR_C, unpack56 dest_s))"

definition dsp_asr56 :: "acc3 \<Rightarrow> nat \<Rightarrow> u16 \<times> acc3" where
  "dsp_asr56 dest n =
     (let dest_v = pack56 dest;
          carry = ucast (shr dest_v (n - 1) AND 1) :: u16;
          dest_v = shr dest_v n
      in (shl carry DSP_SR_C, unpack56 dest_v))"

abbreviation (input) SIGN_PLUS :: u8 where "SIGN_PLUS \<equiv> 0"
abbreviation (input) SIGN_MINUS :: u8 where "SIGN_MINUS \<equiv> 1"

definition dsp_mul56 :: "u32 \<Rightarrow> u32 \<Rightarrow> u8 \<Rightarrow> acc3" where
  "dsp_mul56 source1 source2 signe =
     (let neg1 = source1 AND shl 1 23 \<noteq> 0;
          signe = (if neg1 then signe XOR 1 else signe);
          source1 = (if neg1 then shl 1 24 - source1 else source1);
          neg2 = source2 AND shl 1 23 \<noteq> 0;
          signe = (if neg2 then signe XOR 1 else signe);
          source2 = (if neg2 then shl 1 24 - source2 else source2);
          part0 = (source1 AND BITMASK 12) * (source2 AND BITMASK 12);
          part1 = (shr source1 12 AND BITMASK 12) * (source2 AND BITMASK 12);
          part2 = (source1 AND BITMASK 12) * (shr source2 12 AND BITMASK 12);
          part3 = (shr source1 12 AND BITMASK 12) * (shr source2 12 AND BITMASK 12);
          d2 = part0;
          d2 = d2 + shl (part1 AND BITMASK 12) 12;
          d2 = d2 + shl (part2 AND BITMASK 12) 12;
          d1 = shr part1 12 AND BITMASK 12;
          d1 = d1 + (shr part2 12 AND BITMASK 12);
          d1 = d1 + part3;
          d0 = 0;
          c2 = shr d2 24 AND BITMASK 8;
          d1 = (if c2 \<noteq> 0 then d1 + c2 else d1);
          d2 = (if c2 \<noteq> 0 then d2 AND BITMASK 24 else d2);
          c1 = shr d1 24 AND BITMASK 8;
          d0 = (if c1 \<noteq> 0 then d0 + c1 else d0);
          d1 = (if c1 \<noteq> 0 then d1 AND BITMASK 24 else d1);
          dest = snd (dsp_asl56 (d0, d1, d2) 1)
      in (if signe \<noteq> 0 then snd (dsp_sub56 dest (0, 0, 0)) else dest))"

definition dsp_rnd56 :: "'a dsp_core_scheme \<Rightarrow> acc3 \<Rightarrow> acc3" where
  "dsp_rnd56 s dest =
     (if reg DSP_REG_SR s AND shl 1 DSP_SR_S0 \<noteq> 0 then
        case snd (dsp_add56 (0, 1, 0) dest) of (d0, d1, d2) \<Rightarrow>
        let d1 = (if d2 = 0 \<and> d1 AND 1 = 0 then d1 AND (0xffffff - 0x3) else d1);
            d1 = d1 AND 0xfffffe
        in (d0, d1, 0)
      else if reg DSP_REG_SR s AND shl 1 DSP_SR_S1 \<noteq> 0 then
        case snd (dsp_add56 (0, 0, shl 1 22) dest) of (d0, d1, d2) \<Rightarrow>
        let d2 = (if d2 AND 0x7fffff = 0 then 0 else d2);
            d2 = d2 AND 0x800000
        in (d0, d1, d2)
      else
        case snd (dsp_add56 (0, 0, shl 1 23) dest) of (d0, d1, d2) \<Rightarrow>
        let d1 = (if d2 = 0 then d1 AND 0xfffffe else d1)
        in (d0, d1, 0))"

text \<open>\<open>dsp_signextend\<close> is only called for 7- and 9-bit fields, so its assertion
  \<open>shift > 0\<close> holds at every call.\<close>

definition dsp_signextend :: "nat \<Rightarrow> u32 \<Rightarrow> u32" where
  "dsp_signextend bits v = (let shift = 32 - bits in signed_drop_bit shift (shl v shift))"

subsection \<open>Reading an accumulator as a 56-bit number\<close>

definition val56 :: "acc3 \<Rightarrow> nat" where
  "val56 d = (case d of (d0, d1, d2) \<Rightarrow> unat d0 * 2 ^ 48 + unat d1 * 2 ^ 24 + unat d2)"

definition wf3 :: "acc3 \<Rightarrow> bool" where
  "wf3 d = (case d of (d0, d1, d2) \<Rightarrow> fits 8 d0 \<and> fits 24 d1 \<and> fits 24 d2)"

definition signed56 :: "nat \<Rightarrow> int" where
  "signed56 v = (if v < 2 ^ 55 then int v else int v - 2 ^ 56)"

definition sval56 :: "acc3 \<Rightarrow> int" where
  "sval56 d = signed56 (val56 d)"

lemma wf3_val56_less: "wf3 d \<Longrightarrow> val56 d < 2 ^ 56"
  by (cases d) (simp add: wf3_def val56_def fits_iff_unat)

lemma wf3_sval56_range:
  assumes "wf3 d"
  shows "- (2 ^ 55) \<le> sval56 d" "sval56 d < 2 ^ 55"
  using wf3_val56_less [OF assms] by (simp_all add: sval56_def signed56_def)

subsection \<open>Status words\<close>

text \<open>The limit, overflow and carry bits as one status word.\<close>

definition ccr_bits :: "bool \<Rightarrow> bool \<Rightarrow> bool \<Rightarrow> u16" where
  "ccr_bits l v c = (if l then 0x40 else 0) OR (if v then 2 else 0) OR (if c then 1 else 0)"

lemma ccr_bits_shl: "shl (of_bool l :: u16) 6 OR shl (of_bool v) 1 OR shl (of_bool c) 0 = ccr_bits l v c"
  by (cases l; cases v; cases c; simp add: ccr_bits_def)

lemma bit_ccr_bits [simp]:
  "bit (ccr_bits l v c) 0 = c" "bit (ccr_bits l v c) 1 = v" "bit (ccr_bits l v c) (Suc 0) = v" "bit (ccr_bits l v c) 6 = l"
  by (cases l; cases v; cases c; simp add: ccr_bits_def)+

subsection \<open>Addition and subtraction\<close>

lemma sign_bit_iff:
  assumes "wf3 (d0, d1, d2)"
  shows "bit d0 7 \<longleftrightarrow> 2 ^ 55 \<le> val56 (d0, d1, d2)"
proof -
  have b: "unat d0 < 2 ^ 8" "unat d1 < 2 ^ 24" "unat d2 < 2 ^ 24"
    using assms by (simp_all add: wf3_def fits_iff_unat)
  have "bit d0 7 \<longleftrightarrow> odd (unat d0 div 128)" by (simp add: bit_iff_unat)
  also have "\<dots> \<longleftrightarrow> 128 \<le> unat d0"
  proof -
    have "unat d0 div 128 < 2" using b by simp
    then have "unat d0 div 128 = 0 \<or> unat d0 div 128 = 1" by auto
    then show ?thesis by (auto simp: div_eq_0_iff)
  qed
  finally show ?thesis using b by (auto simp: val56_def)
qed

lemma limb_split: "(x::nat) = x mod 2 ^ k + 2 ^ k * (x div 2 ^ k)"
  by simp

lemma limb_carry: "(x::nat) < 2 * 2 ^ k \<Longrightarrow> x div 2 ^ k mod 2 = x div 2 ^ k"
  by (simp add: less_mult_imp_div_less)

lemma limb_sum:
  fixes m0 m1 m2 qx qy qz :: nat
  assumes "m2 + 2 ^ 24 * qz = d2 + s2" "m1 + 2 ^ 24 * qy = d1 + (s1 + qz)"
    "m0 + 2 ^ 8 * qx = d0 + (s0 + qy)"
  shows "m0 * 2 ^ 48 + m1 * 2 ^ 24 + m2 + 2 ^ 56 * qx =
    s0 * 2 ^ 48 + s1 * 2 ^ 24 + s2 + (d0 * 2 ^ 48 + d1 * 2 ^ 24 + d2)"
  using assms by simp

lemma dsp_add56_limbs:
  assumes "wf3 (s0, s1, s2)" "wf3 (d0, d1, d2)" "dsp_add56 (s0, s1, s2) (d0, d1, d2) = (sr, r0, r1, r2)"
  obtains c0 where
    "wf3 (r0, r1, r2)"
    "val56 (r0, r1, r2) + 2 ^ 56 * c0 = val56 (s0, s1, s2) + val56 (d0, d1, d2)"
    "sr = ccr_bits ((bit s0 7 \<noteq> bit r0 7) \<and> (bit d0 7 \<noteq> bit r0 7))
                   ((bit s0 7 \<noteq> bit r0 7) \<and> (bit d0 7 \<noteq> bit r0 7)) (odd c0)"
    "c0 < 2"
proof -
  define e2 where "e2 = d2 + s2"
  define e1 where "e1 = d1 + (s1 + (shr e2 24 AND 1))"
  define e0 where "e0 = d0 + (s0 + (shr e1 24 AND 1))"
  have b: "unat d0 < 2 ^ 8" "unat d1 < 2 ^ 24" "unat d2 < 2 ^ 24"
    "unat s0 < 2 ^ 8" "unat s1 < 2 ^ 24" "unat s2 < 2 ^ 24"
    using assms(1,2) by (simp_all add: wf3_def fits_iff_unat)
  have e2: "unat e2 = unat d2 + unat s2"
    unfolding e2_def by (rule unat_add_small) (use b in simp)
  have k2: "unat (shr e2 24 AND 1) = unat e2 div 2 ^ 24"
    unfolding unat_and_1 unat_drop_bit by (rule limb_carry) (use b e2 in simp)
  have q2: "unat e2 div 2 ^ 24 < 2" using b e2 by simp
  have i1: "unat (s1 + (shr e2 24 AND 1)) = unat s1 + unat e2 div 2 ^ 24"
    unfolding k2 [symmetric] by (rule unat_add_small) (use b q2 k2 in simp)
  have e1: "unat e1 = unat d1 + (unat s1 + unat e2 div 2 ^ 24)"
    unfolding e1_def i1 [symmetric] by (rule unat_add_small) (use b q2 i1 in simp)
  have k1: "unat (shr e1 24 AND 1) = unat e1 div 2 ^ 24"
    unfolding unat_and_1 unat_drop_bit by (rule limb_carry) (use b e1 q2 in simp)
  have q1: "unat e1 div 2 ^ 24 < 2" using b e1 q2 by simp
  have i0: "unat (s0 + (shr e1 24 AND 1)) = unat s0 + unat e1 div 2 ^ 24"
    unfolding k1 [symmetric] by (rule unat_add_small) (use b q1 k1 in simp)
  have e0: "unat e0 = unat d0 + (unat s0 + unat e1 div 2 ^ 24)"
    unfolding e0_def i0 [symmetric] by (rule unat_add_small) (use b q1 i0 in simp)
  have q0: "unat e0 div 2 ^ 8 < 2" using b e0 q1 by simp
  have r: "r0 = e0 AND 0xff" "r1 = e1 AND 0xffffff" "r2 = e2 AND 0xffffff"
    and sr: "sr = ccr_bits ((bit s0 7 \<noteq> bit r0 7) \<and> (bit d0 7 \<noteq> bit r0 7))
                   ((bit s0 7 \<noteq> bit r0 7) \<and> (bit d0 7 \<noteq> bit r0 7)) (bit e0 8)"
    using assms(3)
    by (auto simp: dsp_add56_def Let_def e0_def e1_def e2_def cast_bit_field of_bool_word_ops
        ccr_bits_shl [symmetric])
  have u: "unat r0 = unat e0 mod 2 ^ 8" "unat r1 = unat e1 mod 2 ^ 24" "unat r2 = unat e2 mod 2 ^ 24"
    by (simp_all add: r unat_and_numeral_masks)
  show thesis
  proof (rule that [of "unat e0 div 2 ^ 8"])
    show "wf3 (r0, r1, r2)" by (simp add: wf3_def fits_iff_unat u)
    show "val56 (r0, r1, r2) + 2 ^ 56 * (unat e0 div 2 ^ 8) = val56 (s0, s1, s2) + val56 (d0, d1, d2)"
      unfolding val56_def prod.case u
      by (rule limb_sum [where qy = "unat e1 div 2 ^ 24" and qz = "unat e2 div 2 ^ 24"])
        (simp_all only: e0 [symmetric] e1 [symmetric] e2 [symmetric] mod_mult_div_eq)
    show "sr = ccr_bits ((bit s0 7 \<noteq> bit r0 7) \<and> (bit d0 7 \<noteq> bit r0 7))
                   ((bit s0 7 \<noteq> bit r0 7) \<and> (bit d0 7 \<noteq> bit r0 7)) (odd (unat e0 div 2 ^ 8))"
      using sr by (simp add: bit_iff_unat [of e0])
    show "unat e0 div 2 ^ 8 < 2" by (rule q0)
  qed
qed

lemma wrap_borrow:
  fixes a b K L :: nat
  assumes "a < K" "b \<le> K" "a < b" "0 < K" "even L" "2 \<le> L"
  shows "(a + L * K - b) div K mod 2 = 1" "(a + L * K - b) mod K + b = a + K"
proof -
  have eq: "a + L * K - b = (L - 1) * K + (a + K - b)"
    using assms by (simp add: algebra_simps diff_mult_distrib)
  have lt: "a + K - b < K" using assms by simp
  have "(a + L * K - b) div K = L - 1" unfolding eq using lt by simp
  moreover have "(L - 1) mod 2 = 1" using assms(5,6) by presburger
  ultimately show "(a + L * K - b) div K mod 2 = 1" by simp
  have "(a + L * K - b) mod K = a + K - b" unfolding eq using lt by simp
  then show "(a + L * K - b) mod K + b = a + K" using assms by simp
qed

lemma limb_borrow:
  fixes d s :: u32
  assumes "unat d < 2 ^ k" "unat s \<le> 2 ^ k" "k < 32"
  shows "unat (d - s) div 2 ^ k mod 2 = of_bool (unat d < unat s)"
    and "unat (d - s) mod 2 ^ k + unat s = unat d + 2 ^ k * of_bool (unat d < unat s)"
proof -
  have p: "(2::nat) ^ 32 = 2 ^ (32 - k) * 2 ^ k" using assms(3) by (simp flip: power_add)
  have ev: "even ((2::nat) ^ (32 - k))" using assms(3) by simp
  then have ge: "(2::nat) \<le> 2 ^ (32 - k)" using assms(3)
    by (metis dvd_imp_le zero_less_numeral zero_less_power)
  show "unat (d - s) div 2 ^ k mod 2 = of_bool (unat d < unat s)"
  proof (cases "unat d < unat s")
    case True
    then have "unat (d - s) = unat d + 2 ^ (32 - k) * 2 ^ k - unat s"
      using p by (simp add: unat_sub_if')
    then show ?thesis using wrap_borrow(1) [OF assms(1,2) True _ ev ge] True by simp
  next
    case False
    then have "unat (d - s) < 2 ^ k" using assms by (simp add: unat_sub_if')
    then show ?thesis using False by simp
  qed
  show "unat (d - s) mod 2 ^ k + unat s = unat d + 2 ^ k * of_bool (unat d < unat s)"
  proof (cases "unat d < unat s")
    case True
    then have "unat (d - s) = unat d + 2 ^ (32 - k) * 2 ^ k - unat s"
      using p by (simp add: unat_sub_if')
    then show ?thesis using wrap_borrow(2) [OF assms(1,2) True _ ev ge] True by simp
  next
    case False
    then have "unat (d - s) = unat d - unat s" by (simp add: unat_sub_if')
    then show ?thesis using assms False by simp
  qed
qed

lemma limb_diff:
  fixes ma mb mc qx qy qz :: nat
  assumes "mc + sc = dc + 2 ^ 24 * qz" "mb + (sb + qz) = db + 2 ^ 24 * qy"
    "ma + (sa + qy) = da + 2 ^ 8 * qx"
  shows "ma * 2 ^ 48 + mb * 2 ^ 24 + mc + (sa * 2 ^ 48 + sb * 2 ^ 24 + sc) =
    da * 2 ^ 48 + db * 2 ^ 24 + dc + 2 ^ 56 * qx"
  using assms by simp

lemma dsp_sub56_limbs:
  assumes "wf3 (s0, s1, s2)" "wf3 (d0, d1, d2)" "dsp_sub56 (s0, s1, s2) (d0, d1, d2) = (sr, r0, r1, r2)"
  obtains c0 where
    "wf3 (r0, r1, r2)"
    "val56 (r0, r1, r2) + val56 (s0, s1, s2) = val56 (d0, d1, d2) + 2 ^ 56 * c0"
    "sr = ccr_bits ((bit s0 7 \<noteq> bit d0 7) \<and> (bit r0 7 \<noteq> bit d0 7))
                   ((bit s0 7 \<noteq> bit d0 7) \<and> (bit r0 7 \<noteq> bit d0 7)) (odd c0)"
    "c0 < 2"
proof -
  define e2 where "e2 = d2 - s2"
  define t1 where "t1 = s1 + (shr e2 24 AND 1)"
  define e1 where "e1 = d1 - t1"
  define t0 where "t0 = s0 + (shr e1 24 AND 1)"
  define e0 where "e0 = d0 - t0"
  have b: "unat d0 < 2 ^ 8" "unat d1 < 2 ^ 24" "unat d2 < 2 ^ 24"
    "unat s0 < 2 ^ 8" "unat s1 < 2 ^ 24" "unat s2 < 2 ^ 24"
    using assms(1,2) by (simp_all add: wf3_def fits_iff_unat)
  have l2: "unat (shr e2 24 AND 1) = of_bool (unat d2 < unat s2)"
    "unat e2 mod 2 ^ 24 + unat s2 = unat d2 + 2 ^ 24 * of_bool (unat d2 < unat s2)"
    unfolding unat_and_1 unat_drop_bit e2_def by (rule limb_borrow; use b in simp)+
  have t1: "unat t1 = unat s1 + of_bool (unat d2 < unat s2)"
    unfolding t1_def l2(1) [symmetric] by (rule unat_add_small) (use b l2(1) in simp)
  have l1: "unat (shr e1 24 AND 1) = of_bool (unat d1 < unat t1)"
    "unat e1 mod 2 ^ 24 + unat t1 = unat d1 + 2 ^ 24 * of_bool (unat d1 < unat t1)"
    unfolding unat_and_1 unat_drop_bit e1_def by (rule limb_borrow; use b t1 in simp)+
  have t0: "unat t0 = unat s0 + of_bool (unat d1 < unat t1)"
    unfolding t0_def l1(1) [symmetric] by (rule unat_add_small) (use b l1(1) in simp)
  have l0: "unat e0 div 2 ^ 8 mod 2 = of_bool (unat d0 < unat t0)"
    "unat e0 mod 2 ^ 8 + unat t0 = unat d0 + 2 ^ 8 * of_bool (unat d0 < unat t0)"
    unfolding e0_def by (rule limb_borrow; use b t0 in simp)+
  have d7: "bit (ucast d0 :: u16) 7 = bit d0 7" by (simp add: bit_simps)
  have r: "r0 = e0 AND 0xff" "r1 = e1 AND 0xffffff" "r2 = e2 AND 0xffffff"
    and sr: "sr = ccr_bits ((bit s0 7 \<noteq> bit d0 7) \<and> (bit r0 7 \<noteq> bit d0 7))
                   ((bit s0 7 \<noteq> bit d0 7) \<and> (bit r0 7 \<noteq> bit d0 7)) (bit e0 8)"
    using assms(3)
    by (auto simp: dsp_sub56_def Let_def e0_def e1_def e2_def t0_def t1_def cast_bit_field and_1_bit
        of_bool_word_ops d7 ccr_bits_shl [symmetric])
  have u: "unat r0 = unat e0 mod 2 ^ 8" "unat r1 = unat e1 mod 2 ^ 24" "unat r2 = unat e2 mod 2 ^ 24"
    by (simp_all add: r unat_and_numeral_masks)
  show thesis
  proof (rule that [of "of_bool (unat d0 < unat t0)"])
    show "wf3 (r0, r1, r2)" by (simp add: wf3_def fits_iff_unat u)
    show "val56 (r0, r1, r2) + val56 (s0, s1, s2) =
        val56 (d0, d1, d2) + 2 ^ 56 * of_bool (unat d0 < unat t0)"
      unfolding val56_def prod.case u
      by (rule limb_diff [where qy = "of_bool (unat d1 < unat t1)" and qz = "of_bool (unat d2 < unat s2)"])
        (simp_all only: t0 [symmetric] t1 [symmetric] l0 l1 l2)
    show "sr = ccr_bits ((bit s0 7 \<noteq> bit d0 7) \<and> (bit r0 7 \<noteq> bit d0 7))
                   ((bit s0 7 \<noteq> bit d0 7) \<and> (bit r0 7 \<noteq> bit d0 7))
                   (odd (of_bool (unat d0 < unat t0) :: nat))"
      using sr l0(1) by (simp add: bit_iff_unat [of e0] odd_iff_mod_2_eq_one)
    show "of_bool (unat d0 < unat t0) < (2::nat)" by simp
  qed
qed

lemma two_cases: "(c::nat) < 2 \<Longrightarrow> c = 0 \<or> c = 1"
  by auto

lemma dsp_add56_spec:
  assumes s: "wf3 s" and d: "wf3 d"
  shows "wf3 (snd (dsp_add56 s d))"
    and "val56 (snd (dsp_add56 s d)) = (val56 d + val56 s) mod 2 ^ 56"
    and "fst (dsp_add56 s d) =
      ccr_bits (sval56 d + sval56 s < - (2 ^ 55) \<or> 2 ^ 55 \<le> sval56 d + sval56 s)
               (sval56 d + sval56 s < - (2 ^ 55) \<or> 2 ^ 55 \<le> sval56 d + sval56 s)
               (2 ^ 56 \<le> val56 d + val56 s)"
proof -
  obtain s0 s1 s2 d0 d1 d2 where eq: "s = (s0, s1, s2)" "d = (d0, d1, d2)"
    by (metis prod_cases3)
  obtain sr r0 r1 r2 where res: "dsp_add56 s d = (sr, r0, r1, r2)"
    by (metis prod_cases4)
  obtain c0 where r: "wf3 (r0, r1, r2)" and sum: "val56 (r0, r1, r2) + 2 ^ 56 * c0 = val56 s + val56 d"
    and sr: "sr = ccr_bits ((bit s0 7 \<noteq> bit r0 7) \<and> (bit d0 7 \<noteq> bit r0 7))
                   ((bit s0 7 \<noteq> bit r0 7) \<and> (bit d0 7 \<noteq> bit r0 7)) (odd c0)"
    and c0: "c0 < 2"
    using dsp_add56_limbs s d res unfolding eq by metis
  note lt = wf3_val56_less [OF s] wf3_val56_less [OF d] wf3_val56_less [OF r]
  show "wf3 (snd (dsp_add56 s d))" by (simp add: res r)
  have "val56 (r0, r1, r2) = (val56 (r0, r1, r2) + 2 ^ 56 * c0) mod 2 ^ 56"
    using lt(3) by simp
  also have "\<dots> = (val56 d + val56 s) mod 2 ^ 56"
    unfolding sum by (simp only: add.commute)
  finally show "val56 (snd (dsp_add56 s d)) = (val56 d + val56 s) mod 2 ^ 56"
    by (simp add: res)
  have carry: "odd c0 \<longleftrightarrow> 2 ^ 56 \<le> val56 d + val56 s"
    using two_cases [OF c0] sum lt by auto
  have ov: "(bit s0 7 \<noteq> bit r0 7) \<and> (bit d0 7 \<noteq> bit r0 7) \<longleftrightarrow>
      sval56 d + sval56 s < - (2 ^ 55) \<or> 2 ^ 55 \<le> sval56 d + sval56 s"
    using sign_bit_iff [OF r] sign_bit_iff [OF s [unfolded eq]] sign_bit_iff [OF d [unfolded eq]]
      two_cases [OF c0] sum lt
    unfolding sval56_def signed56_def eq by auto
  show "fst (dsp_add56 s d) =
      ccr_bits (sval56 d + sval56 s < - (2 ^ 55) \<or> 2 ^ 55 \<le> sval56 d + sval56 s)
               (sval56 d + sval56 s < - (2 ^ 55) \<or> 2 ^ 55 \<le> sval56 d + sval56 s)
               (2 ^ 56 \<le> val56 d + val56 s)"
    by (simp only: res fst_conv sr ov carry)
qed

lemma dsp_sub56_spec:
  assumes s: "wf3 s" and d: "wf3 d"
  shows "wf3 (snd (dsp_sub56 s d))"
    and "val56 (snd (dsp_sub56 s d)) = (val56 d + 2 ^ 56 - val56 s) mod 2 ^ 56"
    and "fst (dsp_sub56 s d) =
      ccr_bits (sval56 d - sval56 s < - (2 ^ 55) \<or> 2 ^ 55 \<le> sval56 d - sval56 s)
               (sval56 d - sval56 s < - (2 ^ 55) \<or> 2 ^ 55 \<le> sval56 d - sval56 s)
               (val56 d < val56 s)"
proof -
  obtain s0 s1 s2 d0 d1 d2 where eq: "s = (s0, s1, s2)" "d = (d0, d1, d2)"
    by (metis prod_cases3)
  obtain sr r0 r1 r2 where res: "dsp_sub56 s d = (sr, r0, r1, r2)"
    by (metis prod_cases4)
  obtain c0 where r: "wf3 (r0, r1, r2)" and sum: "val56 (r0, r1, r2) + val56 s = val56 d + 2 ^ 56 * c0"
    and sr: "sr = ccr_bits ((bit s0 7 \<noteq> bit d0 7) \<and> (bit r0 7 \<noteq> bit d0 7))
                   ((bit s0 7 \<noteq> bit d0 7) \<and> (bit r0 7 \<noteq> bit d0 7)) (odd c0)"
    and c0: "c0 < 2"
    using dsp_sub56_limbs s d res unfolding eq by metis
  note lt = wf3_val56_less [OF s] wf3_val56_less [OF d] wf3_val56_less [OF r]
  show "wf3 (snd (dsp_sub56 s d))" by (simp add: res r)
  have "val56 (r0, r1, r2) = (val56 d + 2 ^ 56 - val56 s) mod 2 ^ 56"
    using two_cases [OF c0] sum lt by (auto simp: mod_if)
  then show "val56 (snd (dsp_sub56 s d)) = (val56 d + 2 ^ 56 - val56 s) mod 2 ^ 56"
    by (simp add: res)
  have carry: "odd c0 \<longleftrightarrow> val56 d < val56 s"
    using two_cases [OF c0] sum lt by auto
  have ov: "(bit s0 7 \<noteq> bit d0 7) \<and> (bit r0 7 \<noteq> bit d0 7) \<longleftrightarrow>
      sval56 d - sval56 s < - (2 ^ 55) \<or> 2 ^ 55 \<le> sval56 d - sval56 s"
    using sign_bit_iff [OF r] sign_bit_iff [OF s [unfolded eq]] sign_bit_iff [OF d [unfolded eq]]
      two_cases [OF c0] sum lt
    unfolding sval56_def signed56_def eq by auto
  show "fst (dsp_sub56 s d) =
      ccr_bits (sval56 d - sval56 s < - (2 ^ 55) \<or> 2 ^ 55 \<le> sval56 d - sval56 s)
               (sval56 d - sval56 s < - (2 ^ 55) \<or> 2 ^ 55 \<le> sval56 d - sval56 s)
               (val56 d < val56 s)"
    by (simp only: res fst_conv sr ov carry)
qed

subsection \<open>Shifts and absolute value\<close>

lemma unat_pack56:
  assumes "wf3 d"
  shows "unat (pack56 d) = val56 d"
proof -
  obtain d0 d1 d2 where d: "d = (d0, d1, d2)" by (metis prod_cases3)
  have f: "fits 8 d0" "fits 24 d1" "fits 24 d2" using assms by (simp_all add: d wf3_def)
  have b: "unat d0 < 2 ^ 8" "unat d1 < 2 ^ 24" "unat d2 < 2 ^ 24"
    using f by (simp_all add: fits_iff_unat)
  have h: "\<And>n. bit d1 n \<Longrightarrow> n < 24" "\<And>n. bit d2 n \<Longrightarrow> n < 24"
    using f by (simp_all add: fits_iff_bit)
  let ?l = "ucast d2 :: u64" and ?m = "shl (ucast d1) 24 :: u64" and ?h = "shl (ucast d0) 48 :: u64"
  have u: "unat ?l = unat d2" "unat ?m = unat d1 * 2 ^ 24" "unat ?h = unat d0 * 2 ^ 48"
    using b by (simp_all add: unat_push_bit unat_cast)
  have "?m AND ?h = 0"
  proof (rule bit_word_eqI)
    fix n show "bit (?m AND ?h) n = bit 0 n"
      using h(1) [of "n - 24"] by (auto simp: bit_simps)
  qed
  then have mh: "?m OR ?h = ?m + ?h" by (rule or_disjoint_add)
  have umh: "unat (?m + ?h) = unat ?m + unat ?h"
    by (subst unat_add_lem [symmetric]) (use b u in simp)
  have "?l AND (?m OR ?h) = 0"
  proof (rule bit_word_eqI)
    fix n show "bit (?l AND (?m OR ?h)) n = bit 0 n"
      using h(2) [of n] by (auto simp: bit_simps)
  qed
  then have "pack56 d = ?l + (?m + ?h)"
    unfolding pack56_def d prod.case mh [symmetric] by (rule or_disjoint_add)
  moreover have "unat (?l + (?m + ?h)) = unat ?l + unat (?m + ?h)"
    by (subst unat_add_lem [symmetric]) (use b u umh in simp)
  ultimately show ?thesis by (simp add: u umh d val56_def)
qed

lemma limbs_of_56: "(v::nat) div 2 ^ 48 mod 2 ^ 8 * 2 ^ 48 + v div 2 ^ 24 mod 2 ^ 24 * 2 ^ 24 + v mod 2 ^ 24 = v mod 2 ^ 56"
proof -
  have "v mod 2 ^ 56 = v mod (2 ^ 48 * 2 ^ 8)" by simp
  also have "\<dots> = 2 ^ 48 * (v div 2 ^ 48 mod 2 ^ 8) + v mod 2 ^ 48" by (rule mod_mult2_eq)
  also have "v mod 2 ^ 48 = v mod (2 ^ 24 * 2 ^ 24)" by simp
  also have "\<dots> = 2 ^ 24 * (v div 2 ^ 24 mod 2 ^ 24) + v mod 2 ^ 24" by (rule mod_mult2_eq)
  finally show ?thesis by (simp add: algebra_simps)
qed

lemma unpack56_spec: "wf3 (unpack56 v)" "val56 (unpack56 v) = unat v mod 2 ^ 56"
proof -
  have u: "unat (ucast (shr v 48 AND mask 8) :: u32) = unat v div 2 ^ 48 mod 2 ^ 8"
    "unat (ucast (shr v 24 AND mask 24) :: u32) = unat v div 2 ^ 24 mod 2 ^ 24"
    "unat (ucast (v AND mask 24) :: u32) = unat v mod 2 ^ 24"
    by (simp_all only: unat_cast unat_and_mask unat_drop_bit)
      (simp_all add: mod_mod_cancel mod_less)
  show "wf3 (unpack56 v)" by (simp add: unpack56_def wf3_def fits_iff_unat u)
  show "val56 (unpack56 v) = unat v mod 2 ^ 56"
    by (simp only: unpack56_def val56_def prod.case u limbs_of_56)
qed

lemma dsp_asl56_spec:
  assumes "wf3 d"
  shows "wf3 (snd (dsp_asl56 d n))"
    and "val56 (snd (dsp_asl56 d n)) = val56 d * 2 ^ n mod 2 ^ 56"
proof -
  have r: "snd (dsp_asl56 d n) = unpack56 (shl (pack56 d) n)"
    by (simp add: dsp_asl56_def Let_def)
  show "wf3 (snd (dsp_asl56 d n))" unfolding r by (rule unpack56_spec)
  have "(val56 d * 2 ^ n mod 2 ^ 64) mod 2 ^ 56 = val56 d * 2 ^ n mod 2 ^ (56::nat)"
    by (rule mod_mod_cancel) (simp add: le_imp_power_dvd)
  then show "val56 (snd (dsp_asl56 d n)) = val56 d * 2 ^ n mod 2 ^ 56"
    unfolding r unpack56_spec(2) unat_push_bit unat_pack56 [OF assms] by simp
qed

lemma dsp_asr56_spec:
  assumes "wf3 d"
  shows "wf3 (snd (dsp_asr56 d n))"
    and "val56 (snd (dsp_asr56 d n)) = val56 d div 2 ^ n"
proof -
  have r: "snd (dsp_asr56 d n) = unpack56 (shr (pack56 d) n)"
    by (simp add: dsp_asr56_def Let_def)
  show "wf3 (snd (dsp_asr56 d n))" unfolding r by (rule unpack56_spec)
  have "val56 d div 2 ^ n < 2 ^ 56"
    using wf3_val56_less [OF assms] div_le_dividend [of "val56 d" "2 ^ n"] by linarith
  then show "val56 (snd (dsp_asr56 d n)) = val56 d div 2 ^ n"
    unfolding r unpack56_spec(2) unat_drop_bit unat_pack56 [OF assms] by simp
qed

lemma wf3_zero [simp]: "wf3 (0, 0, 0)" "val56 (0, 0, 0) = 0"
  by (simp_all add: wf3_def val56_def)

lemma dsp_abs56_spec:
  assumes d: "wf3 d"
  shows "wf3 (snd (dsp_abs56 d))"
    and "sval56 (snd (dsp_abs56 d)) = (if sval56 d = - (2 ^ 55) then - (2 ^ 55) else \<bar>sval56 d\<bar>)"
proof -
  obtain d0 d1 d2 where eq: "d = (d0, d1, d2)" by (metis prod_cases3)
  have t: "d0 AND 0x80 \<noteq> 0 \<longleftrightarrow> bit d0 7"
    using and_exp_eq_0_iff_not_bit [of d0 7] by simp
  have neg: "bit d0 7 \<longleftrightarrow> 2 ^ 55 \<le> val56 d"
    using sign_bit_iff [OF d [unfolded eq]] by (simp add: eq)
  have abs: "snd (dsp_abs56 d) = (if bit d0 7 then snd (dsp_sub56 d (0, 0, 0)) else d)"
    by (simp add: dsp_abs56_def eq t)
  have v: "val56 (snd (dsp_sub56 d (0, 0, 0))) = (2 ^ 56 - val56 d) mod 2 ^ 56"
    using dsp_sub56_spec(2) [OF d wf3_zero(1)] by simp
  show "wf3 (snd (dsp_abs56 d))"
    unfolding abs using dsp_sub56_spec(1) [OF d wf3_zero(1)] d by simp
  show "sval56 (snd (dsp_abs56 d)) = (if sval56 d = - (2 ^ 55) then - (2 ^ 55) else \<bar>sval56 d\<bar>)"
    using neg v wf3_val56_less [OF d] unfolding abs
    by (auto simp: sval56_def signed56_def mod_if)
qed

end
