(* ===== verification/Dsp_Mul.thy ===== *)
theory Dsp_Mul
  imports Dsp_Arith
begin

text \<open>
  Functional correctness of the two remaining 56-bit routines of \<open>dsp_cpu.c\<close>: the
  multiplier \<open>dsp_mul56\<close>, which forms the product of two 24-bit fractions from 12-bit
  digits, is shown to be the exact signed product, doubled; the rounding unit \<open>dsp_rnd56\<close>
  is shown to be rounding to nearest with ties to even, at the position the scaling mode of
  the status register selects.
\<close>

subsection \<open>The multiplier\<close>

text \<open>The two columns of the schoolbook product and the carry propagation, named for the
  proofs; \<open>dsp_mul56_alt\<close> shows that the routine is built from them.\<close>

definition mul_lo :: "u32 \<Rightarrow> u32 \<Rightarrow> u32" where
  "mul_lo a b = (a AND BITMASK 12) * (b AND BITMASK 12)
     + shl (((shr a 12 AND BITMASK 12) * (b AND BITMASK 12)) AND BITMASK 12) 12
     + shl (((a AND BITMASK 12) * (shr b 12 AND BITMASK 12)) AND BITMASK 12) 12"

definition mul_hi :: "u32 \<Rightarrow> u32 \<Rightarrow> u32" where
  "mul_hi a b = (shr ((shr a 12 AND BITMASK 12) * (b AND BITMASK 12)) 12 AND BITMASK 12)
     + (shr ((a AND BITMASK 12) * (shr b 12 AND BITMASK 12)) 12 AND BITMASK 12)
     + (shr a 12 AND BITMASK 12) * (shr b 12 AND BITMASK 12)"

definition carry3 :: "u32 \<Rightarrow> u32 \<Rightarrow> acc3" where
  "carry3 d1 d2 =
     (let c2 = shr d2 24 AND BITMASK 8;
          d1 = (if c2 \<noteq> 0 then d1 + c2 else d1);
          d2 = (if c2 \<noteq> 0 then d2 AND BITMASK 24 else d2);
          c1 = shr d1 24 AND BITMASK 8
      in (c1, (if c1 \<noteq> 0 then d1 AND BITMASK 24 else d1), d2))"

lemma dsp_mul56_alt:
  "dsp_mul56 x y signe =
     (let nx = bit x 23; ny = bit y 23;
          dest = snd (dsp_asl56 (carry3 (mul_hi (if nx then 2 ^ 24 - x else x) (if ny then 2 ^ 24 - y else y))
                   (mul_lo (if nx then 2 ^ 24 - x else x) (if ny then 2 ^ 24 - y else y))) 1)
      in if signe XOR of_bool (nx \<noteq> ny) \<noteq> 0 then snd (dsp_sub56 dest (0, 0, 0)) else dest)"
proof -
  have b: "x AND shl 1 23 \<noteq> 0 \<longleftrightarrow> bit x 23" for x :: u32
    using bit_iff_and_push_bit_not_eq_0 [of x 23] by simp
  have p: "shl 1 24 = (2 ^ 24 :: u32)" by (simp add: push_bit_eq_mult)
  have g: "(if c1 \<noteq> 0 then 0 + c1 else 0) = c1" for c1 :: u32 by simp
  have "(signe XOR 1) XOR 1 = signe" by (simp add: xor.assoc)
  then show ?thesis
    unfolding dsp_mul56_def Let_def b p g carry3_def mul_hi_def mul_lo_def
    by (cases "bit x 23"; cases "bit y 23") (simp_all only: if_True if_False of_bool_eq
        simp_thms xor.right_neutral add.assoc)
qed

lemma shifted_split: "(x::nat) mod 2 ^ k * 2 ^ j + x div 2 ^ k * 2 ^ (k + j) = x * 2 ^ j"
proof -
  have "x mod 2 ^ k * 2 ^ j + x div 2 ^ k * 2 ^ (k + j) = (x div 2 ^ k * 2 ^ k + x mod 2 ^ k) * 2 ^ j"
    unfolding add_mult_distrib power_add by simp
  then show ?thesis unfolding div_mult_mod_eq .
qed

lemma digit_product:
  fixes a b :: nat
  shows "(a mod 4096) * (b mod 4096) + (a div 4096) * (b mod 4096) mod 4096 * 4096
      + (a mod 4096) * (b div 4096) mod 4096 * 4096
      + ((a div 4096) * (b mod 4096) div 4096 + (a mod 4096) * (b div 4096) div 4096
         + (a div 4096) * (b div 4096)) * 2 ^ 24 = a * b"
proof -
  define al ah bl bh where d: "al = a mod 4096" "ah = a div 4096" "bl = b mod 4096" "bh = b div 4096"
  have s: "p mod 4096 * 4096 + p div 4096 * 2 ^ 24 = p * (4096::nat)" for p
    using shifted_split [of p 12 12] by simp
  have "al * bl + ah * bl mod 4096 * 4096 + al * bh mod 4096 * 4096
      + (ah * bl div 4096 + al * bh div 4096 + ah * bh) * 2 ^ 24 =
    al * bl + (ah * bl mod 4096 * 4096 + ah * bl div 4096 * 2 ^ 24)
     + (al * bh mod 4096 * 4096 + al * bh div 4096 * 2 ^ 24) + ah * bh * 2 ^ 24"
    by (simp add: algebra_simps)
  also have "\<dots> = al * bl + ah * bl * 4096 + al * bh * 4096 + ah * bh * 2 ^ 24" unfolding s ..
  also have "\<dots> = (ah * 4096 + al) * (bh * 4096 + bl)" by (simp add: algebra_simps)
  finally show ?thesis unfolding d div_mult_mod_eq .
qed

lemma small_product:
  assumes "(x::nat) < 4096" "y < 4096" shows "x * y < 2 ^ 24"
proof -
  have "x * y \<le> 4095 * 4095" using assms by (intro mult_le_mono) auto
  then show ?thesis by simp
qed

lemma unat_digits:
  "unat (a AND BITMASK 12) = unat a mod 4096"
  "unat (shr a 12 AND BITMASK 12) = unat a div 4096 mod 4096"
  "unat (shl (a AND BITMASK 12) 12) = unat a mod 4096 * 4096"
proof -
  show m: "unat (w AND BITMASK 12) = unat w mod 4096" for w :: u32 by (simp add: unat_and_numeral_masks)
  show "unat (shr a 12 AND BITMASK 12) = unat a div 4096 mod 4096"
    unfolding m unat_drop_bit by simp
  have "unat a mod 4096 * 4096 < 2 ^ 24" using small_product [of "unat a mod 4096" 4095] by simp
  then show "unat (shl (a AND BITMASK 12) 12) = unat a mod 4096 * 4096"
    unfolding unat_push_bit m by simp
qed

lemma unat_digit_product:
  assumes "unat a < 4096" "unat b < 4096"
  shows "unat (a * b :: u32) = unat a * unat b" "unat a * unat b < 2 ^ 24"
proof -
  show l: "unat a * unat b < 2 ^ 24" using assms by (rule small_product)
  show "unat (a * b :: u32) = unat a * unat b" by (rule unat_mult_small) (use l in simp)
qed

lemma mul_hi_lo:
  assumes a: "unat a < 2 ^ 24" and b: "unat b < 2 ^ 24"
  shows "unat (mul_lo a b) + unat (mul_hi a b) * 2 ^ 24 = unat a * unat b"
    and "unat (mul_lo a b) < 3 * 2 ^ 24" and "unat (mul_hi a b) < 2 * 2 ^ 24"
proof -
  let ?al = "a AND BITMASK 12" and ?ah = "shr a 12 AND BITMASK 12"
  let ?bl = "b AND BITMASK 12" and ?bh = "shr b 12 AND BITMASK 12"
  have ua: "unat ?al = unat a mod 4096" "unat ?ah = unat a div 4096"
    "unat ?bl = unat b mod 4096" "unat ?bh = unat b div 4096"
    unfolding unat_digits using a b by (simp_all add: unat_drop_bit)
  have lt: "unat ?al < 4096" "unat ?ah < 4096" "unat ?bl < 4096" "unat ?bh < 4096"
    unfolding ua using a b by simp_all
  note pr = unat_digit_product [OF lt(1) lt(3)] unat_digit_product [OF lt(2) lt(3)]
    unat_digit_product [OF lt(1) lt(4)] unat_digit_product [OF lt(2) lt(4)]
  have m: "q mod 4096 * 4096 < (2 ^ 24 :: nat)" for q
    using small_product [of "q mod 4096" 4095] by simp
  have h: "q div 4096 mod 4096 = q div (4096::nat)" "q div 4096 < 2 ^ 12" if "q < 2 ^ 24" for q
    using that by simp_all
  have lo: "unat (mul_lo a b) = unat ?al * unat ?bl + unat ?ah * unat ?bl mod 4096 * 4096
      + unat ?al * unat ?bh mod 4096 * 4096"
    unfolding mul_lo_def pr(1,3,5,7) [symmetric] unat_digits(3) [symmetric]
    by (rule unat_add3_small)
      (use pr m [of "unat (?ah * ?bl)"] m [of "unat (?al * ?bh)"] in \<open>simp add: unat_digits(3) del: mask_u32_values push_bit_and\<close>)
  have e: "unat (shr (?ah * ?bl) 12 AND BITMASK 12) = unat ?ah * unat ?bl div 4096"
    "unat (shr (?al * ?bh) 12 AND BITMASK 12) = unat ?al * unat ?bh div 4096"
    unfolding unat_digits(2) [of "?ah * ?bl"] unat_digits(2) [of "?al * ?bh"] pr(3) pr(5)
    by (rule h(1) [OF pr(4)], rule h(1) [OF pr(6)])
  have hi: "unat (mul_hi a b) = unat ?ah * unat ?bl div 4096 + unat ?al * unat ?bh div 4096 + unat ?ah * unat ?bh"
    unfolding mul_hi_def pr(7) [symmetric] e [symmetric]
    by (rule unat_add3_small) (use pr h(2) [OF pr(4)] h(2) [OF pr(6)] in \<open>simp only: e, simp\<close>)
  show "unat (mul_lo a b) + unat (mul_hi a b) * 2 ^ 24 = unat a * unat b"
    unfolding lo hi ua by (rule digit_product)
  show "unat (mul_lo a b) < 3 * 2 ^ 24"
    unfolding lo using pr m [of "unat ?ah * unat ?bl"] m [of "unat ?al * unat ?bh"] by simp
  show "unat (mul_hi a b) < 2 * 2 ^ 24" unfolding hi using pr by simp
qed

lemma carry3_spec:
  assumes d2: "unat d2 < 3 * 2 ^ 24" and d1: "unat d1 < 2 * 2 ^ 24"
  shows "wf3 (carry3 d1 d2)" "val56 (carry3 d1 d2) = unat d2 + unat d1 * 2 ^ 24"
proof -
  define c2 where "c2 = shr d2 24 AND 0xff"
  have uc2: "unat c2 = unat d2 div 2 ^ 24"
    unfolding c2_def using d2 by (simp add: unat_and_numeral_masks unat_drop_bit)
  define e1 where "e1 = d1 + c2"
  have ue1: "unat e1 = unat d1 + unat d2 div 2 ^ 24"
    unfolding e1_def uc2 [symmetric] by (rule unat_add_small) (use d1 d2 uc2 in simp)
  define c1 where "c1 = shr e1 24 AND 0xff"
  have uc1: "unat c1 = unat e1 div 2 ^ 24"
    unfolding c1_def using d1 d2 ue1 by (simp add: unat_and_numeral_masks unat_drop_bit)
  have carry: "unat (if c \<noteq> 0 then d AND 0xffffff else d) = unat d mod 2 ^ 24"
    if "unat c = unat d div 2 ^ 24" for c d :: u32
    using that by (auto simp: unat_and_numeral_masks unat_eq_zero div_eq_0_iff)
  have res: "carry3 d1 d2 = (c1, (if c1 \<noteq> 0 then e1 AND 0xffffff else e1),
      (if c2 \<noteq> 0 then d2 AND 0xffffff else d2))"
    by (simp add: carry3_def Let_def c1_def e1_def c2_def)
  show "wf3 (carry3 d1 d2)"
    unfolding res wf3_def prod.case fits_iff_unat carry [OF uc1] carry [OF uc2]
    using uc1 ue1 d1 d2 by simp
  have "val56 (carry3 d1 d2) = unat e1 div 2 ^ 24 * 2 ^ 48 + unat e1 mod 2 ^ 24 * 2 ^ 24 + unat d2 mod 2 ^ 24"
    unfolding res val56_def prod.case carry [OF uc1] carry [OF uc2] uc1 ..
  also have "\<dots> = unat e1 * 2 ^ 24 + unat d2 mod 2 ^ 24"
    using shifted_split [of "unat e1" 24 24] by (simp only: add.commute numeral_plus_numeral arith_simps)
  also have "\<dots> = unat d1 * 2 ^ 24 + (unat d2 div 2 ^ 24 * 2 ^ 24 + unat d2 mod 2 ^ 24)"
    unfolding ue1 by (simp only: add_mult_distrib add.assoc)
  also have "\<dots> = unat d2 + unat d1 * 2 ^ 24" unfolding div_mult_mod_eq by (rule add.commute)
  finally show "val56 (carry3 d1 d2) = unat d2 + unat d1 * 2 ^ 24" .
qed

definition signed24 :: "u32 \<Rightarrow> int" where
  "signed24 v = (if bit v 23 then int (unat v) - 2 ^ 24 else int (unat v))"

lemma magnitude24:
  assumes "fits 24 x"
  shows "int (unat (if bit x 23 then 2 ^ 24 - x else x)) = \<bar>signed24 x\<bar>"
    and "\<bar>signed24 x\<bar> \<le> 2 ^ 23"
    and "bit x 23 \<longleftrightarrow> signed24 x < 0"
proof -
  have l: "unat x < 2 ^ 24" using assms by (simp add: fits_iff_unat)
  have b: "bit x 23 \<longleftrightarrow> 2 ^ 23 \<le> unat x"
    using l unfolding bit_iff_unat by (auto simp: odd_iff_mod_2_eq_one)
  have "x \<le> 2 ^ 24" using l by (simp add: word_le_nat_alt)
  then have "unat (2 ^ 24 - x) = 2 ^ 24 - unat x" by (subst unat_sub) simp_all
  then show "int (unat (if bit x 23 then 2 ^ 24 - x else x)) = \<bar>signed24 x\<bar>"
    using l by (auto simp: signed24_def simp del: of_nat_unat)
  show "\<bar>signed24 x\<bar> \<le> 2 ^ 23" "bit x 23 \<longleftrightarrow> signed24 x < 0"
    using l b by (auto simp: signed24_def simp del: of_nat_unat)
qed

lemma negate56:
  assumes "wf3 d" and "val56 d < 2 ^ 55"
  shows "wf3 (snd (dsp_sub56 d (0, 0, 0)))"
    and "sval56 (snd (dsp_sub56 d (0, 0, 0))) = - sval56 d"
proof -
  show "wf3 (snd (dsp_sub56 d (0, 0, 0)))" by (rule dsp_sub56_spec(1) [OF assms(1) wf3_zero(1)])
  have "val56 (snd (dsp_sub56 d (0, 0, 0))) = (2 ^ 56 - val56 d) mod 2 ^ 56"
    using dsp_sub56_spec(2) [OF assms(1) wf3_zero(1)] by simp
  then show "sval56 (snd (dsp_sub56 d (0, 0, 0))) = - sval56 d"
    using assms(2) by (auto simp: sval56_def signed56_def mod_if)
qed

lemma dsp_mul56_spec:
  assumes x: "fits 24 x" and y: "fits 24 y" and s: "signe \<in> {SIGN_PLUS, SIGN_MINUS}"
  shows "wf3 (dsp_mul56 x y signe)"
    and "sval56 (dsp_mul56 x y signe) =
      (if signe = SIGN_PLUS then 2 * signed24 x * signed24 y else - (2 * signed24 x * signed24 y))"
proof -
  let ?a = "if bit x 23 then 2 ^ 24 - x else x" and ?b = "if bit y 23 then 2 ^ 24 - y else y"
  let ?c = "carry3 (mul_hi ?a ?b) (mul_lo ?a ?b)"
  let ?d = "snd (dsp_asl56 ?c 1)"
  have ub: "unat ?a \<le> 2 ^ 23" "unat ?b \<le> 2 ^ 23"
    using magnitude24(2) [OF x] magnitude24(2) [OF y]
    unfolding magnitude24(1) [OF x, symmetric] magnitude24(1) [OF y, symmetric]
    by (simp_all only: of_nat_le_numeral_power_cancel_iff)
  then have lt: "unat ?a < 2 ^ 24" "unat ?b < 2 ^ 24" by simp_all
  note hl = mul_hi_lo [OF lt]
  have c: "wf3 ?c" "val56 ?c = unat ?a * unat ?b"
    using carry3_spec [OF hl(2,3)] hl(1) by simp_all
  have m: "unat ?a * unat ?b \<le> 2 ^ 46" using mult_le_mono [OF ub] by simp
  have d: "wf3 ?d" "val56 ?d = 2 * (unat ?a * unat ?b)"
    using dsp_asl56_spec [OF c(1), of 1] m unfolding c(2) by simp_all
  let ?n = "snd (dsp_sub56 ?d (0, 0, 0))"
  have "val56 ?d < 2 ^ 55" using d(2) m by simp
  then have n: "wf3 ?n" and sn: "sval56 ?n = - sval56 ?d" by (rule negate56 [OF d(1)])+
  have sd: "sval56 ?d = 2 * \<bar>signed24 x\<bar> * \<bar>signed24 y\<bar>"
    using d(2) m magnitude24(1) [OF x] magnitude24(1) [OF y]
    by (simp add: sval56_def signed56_def)
  have neg: "(signe XOR of_bool (bit x 23 \<noteq> bit y 23) \<noteq> 0)
      \<longleftrightarrow> (signe = SIGN_PLUS) = ((signed24 x < 0) \<noteq> (signed24 y < 0))"
    using s magnitude24(3) [OF x] magnitude24(3) [OF y] by auto
  show "wf3 (dsp_mul56 x y signe)" unfolding dsp_mul56_alt Let_def using d n by simp
  show "sval56 (dsp_mul56 x y signe) =
      (if signe = SIGN_PLUS then 2 * signed24 x * signed24 y else - (2 * signed24 x * signed24 y))"
    unfolding dsp_mul56_alt Let_def neg using sd sn by (simp add: abs_if)
qed

subsection \<open>Convergent rounding\<close>

text \<open>Rounding to a multiple of \<open>2 ^ k\<close>: to the nearest one, and a tie to the multiple
  with an even quotient.\<close>

definition round_even :: "nat \<Rightarrow> nat \<Rightarrow> nat" where
  "round_even k v =
     (let q = (v + 2 ^ (k - 1)) div 2 ^ k
      in (if (v + 2 ^ (k - 1)) mod 2 ^ k = 0 then q div 2 * 2 else q) * 2 ^ k)"

definition rnd_pos :: "'a dsp_core_scheme \<Rightarrow> nat" where
  "rnd_pos s = (if bit (reg DSP_REG_SR s) DSP_SR_S0 then 25
     else if bit (reg DSP_REG_SR s) DSP_SR_S1 then 23 else 24)"

definition floor2 :: "nat \<Rightarrow> nat \<Rightarrow> nat" where
  "floor2 k v = v div 2 ^ k * 2 ^ k"

lemma floor2_mod: "k \<le> n \<Longrightarrow> floor2 k (v mod 2 ^ n) = floor2 k v mod 2 ^ n"
proof -
  assume "k \<le> n"
  then have e: "2 ^ n = 2 ^ k * (2 ^ (n - k) :: nat)" by (simp flip: power_add)
  have "v mod (2 ^ k * 2 ^ (n - k)) div 2 ^ k = v div 2 ^ k mod 2 ^ (n - k)"
    by (simp add: mod_mult2_eq)
  then show ?thesis by (simp only: floor2_def e mult_mod_left mult.commute [of "2 ^ k"])
qed

lemma floor2_limb: "k \<le> 24 \<Longrightarrow> floor2 k (h * 2 ^ 24 + l) = h * 2 ^ 24 + floor2 k l"
proof -
  assume "k \<le> 24"
  then have e: "2 ^ 24 = 2 ^ k * (2 ^ (24 - k) :: nat)" by (simp only: flip: power_add) simp
  have "(h * 2 ^ 24 + l) div 2 ^ k = h * 2 ^ (24 - k) + l div 2 ^ k"
    unfolding e by (simp add: mult.left_commute [of h])
  then show ?thesis by (simp only: floor2_def e add_mult_distrib mult.assoc mult.commute [of "2 ^ k"])
qed

lemma unat_and_high:
  assumes "fits 24 d" and "k \<le> 24"
  shows "unat (d AND shl (mask (24 - k)) k) = floor2 k (unat d)"
proof -
  have "d AND shl (mask (24 - k)) k = shl (shr d k) k"
    using assms by (intro bit_word_eqI) (auto simp: bit_simps fits_iff_bit)
  moreover have "floor2 k (unat d) < 2 ^ 32"
    using unat_less_exp [of d] by (simp add: floor2_def le_less_trans [OF div_times_less_eq_dividend])
  ultimately show ?thesis by (simp add: unat_push_bit unat_drop_bit floor2_def)
qed

lemma unat_and_high_values:
  assumes "fits 24 d"
  shows "unat (d AND 0xfffffe) = floor2 1 (unat d)" "unat (d AND 0xfffffc) = floor2 2 (unat d)"
    "unat (d AND 0x800000) = floor2 23 (unat d)"
  using unat_and_high [OF assms, of 1] unat_and_high [OF assms, of 2] unat_and_high [OF assms, of 23]
  by (simp_all add: mask_numeral push_bit_eq_mult)

lemma round_even_floor2:
  assumes "0 < k" "k < n"
  shows "round_even k v mod 2 ^ n =
    (let w = (v + 2 ^ (k - 1)) mod 2 ^ n in if w mod 2 ^ k = 0 then floor2 (Suc k) w else floor2 k w)"
proof -
  define u where "u = v + 2 ^ (k - 1)"
  have m: "u mod 2 ^ n mod 2 ^ k = u mod 2 ^ k"
    using assms by (simp add: mod_mod_cancel le_imp_power_dvd)
  have "u div 2 ^ k div 2 * 2 * 2 ^ k = floor2 (Suc k) u"
    by (simp add: floor2_def div_mult2_eq [symmetric] mult.assoc mult.commute [of 2])
  then have "round_even k v = (if u mod 2 ^ k = 0 then floor2 (Suc k) u else floor2 k u)"
    by (simp add: round_even_def Let_def floor2_def u_def)
  then show ?thesis using assms unfolding u_def [symmetric] Let_def m by (simp add: Let_def floor2_mod m flip: u_def)
qed

lemma dsp_rnd56_case:
  "dsp_rnd56 s dest =
     (if bit (reg DSP_REG_SR s) DSP_SR_S0 then
        case snd (dsp_add56 (0, 1, 0) dest) of (d0, d1, d2) \<Rightarrow>
          (d0, (if d2 = 0 \<and> d1 AND 1 = 0 then d1 AND 0xfffffc else d1) AND 0xfffffe, 0)
      else if bit (reg DSP_REG_SR s) DSP_SR_S1 then
        case snd (dsp_add56 (0, 0, 0x400000) dest) of (d0, d1, d2) \<Rightarrow>
          (d0, d1, (if d2 AND 0x7fffff = 0 then 0 else d2) AND 0x800000)
      else
        case snd (dsp_add56 (0, 0, 0x800000) dest) of (d0, d1, d2) \<Rightarrow>
          (d0, (if d2 = 0 then d1 AND 0xfffffe else d1), 0))"
  unfolding dsp_rnd56_def test_bit_shl Let_def by (simp add: push_bit_eq_mult cong: if_cong)

lemma val56_limbs: "val56 (d0, d1, d2) = (unat d0 * 2 ^ 24 + unat d1) * 2 ^ 24 + unat d2"
  by (simp add: val56_def)

lemma floor2_zero [simp]: "floor2 k 0 = 0"
  by (simp add: floor2_def)

lemma floor2_24: "l < 2 ^ 24 \<Longrightarrow> floor2 24 l = 0"
  by (simp add: floor2_def)

lemma floor2_up: "floor2 (j + 24) (h * 2 ^ 24 + l) = floor2 j h * 2 ^ 24" if "l < 2 ^ 24"
proof -
  have "(h * 2 ^ 24 + l) div 2 ^ 24 = h" using that by simp
  then show ?thesis by (simp add: floor2_def power_add div_mult2_eq mult.commute [of "2 ^ j"] mult.assoc
    del: div_mult_self1 div_mult_self2 div_mult_self3 div_mult_self4)
qed

lemma limb_mod:
  assumes "(l::nat) < 2 ^ 24"
  shows "(h * 2 ^ 24 + l) mod 2 ^ 24 = l" "(h * 2 ^ 24 + l) mod 2 ^ 25 = h mod 2 * 2 ^ 24 + l"
    "(h * 2 ^ 24 + l) mod 2 ^ 23 = l mod 2 ^ 23"
proof -
  show m: "(h * 2 ^ 24 + l) mod 2 ^ 24 = l" using assms by simp
  have d: "(h * 2 ^ 24 + l) div 2 ^ 24 = h" using assms by simp
  have "(h * 2 ^ 24 + l) mod (2 ^ 24 * 2) = 2 ^ 24 * (h mod 2) + l"
    unfolding mod_mult2_eq m d ..
  then show "(h * 2 ^ 24 + l) mod 2 ^ 25 = h mod 2 * 2 ^ 24 + l" by simp
  have "h * 2 ^ 24 + l = (h * 2) * 2 ^ 23 + l" by simp
  then show "(h * 2 ^ 24 + l) mod 2 ^ 23 = l mod 2 ^ 23" by (simp only: mod_mult_self3)
qed

lemma floor2_21: "floor2 1 (floor2 2 v) = floor2 2 v"
  by (simp add: floor2_def mult.commute [of _ 4])

lemma rnd_limbs_none:
  assumes "wf3 (d0, d1, d2)"
  shows "val56 (d0, if d2 = 0 then d1 AND 0xfffffe else d1, 0) =
    (let w = val56 (d0, d1, d2) in if w mod 2 ^ 24 = 0 then floor2 (Suc 24) w else floor2 24 w)"
    and "wf3 (d0, if d2 = 0 then d1 AND 0xfffffe else d1, 0)"
proof -
  have b: "fits 24 d1" "unat d2 < 2 ^ 24" using assms by (simp_all add: wf3_def fits_iff_unat)
  have z: "d2 = 0 \<longleftrightarrow> unat d2 = 0" by (simp add: unat_eq_zero)
  have w: "((unat d0 * 2 ^ 24 + unat d1) * 2 ^ 24 + unat d2) mod 2 ^ 24 = unat d2" by (rule limb_mod [OF b(2)])
  show "val56 (d0, if d2 = 0 then d1 AND 0xfffffe else d1, 0) =
    (let w = val56 (d0, d1, d2) in if w mod 2 ^ 24 = 0 then floor2 (Suc 24) w else floor2 24 w)"
    unfolding val56_limbs Let_def w z
    using floor2_up [OF b(2), of 1 "unat d0 * 2 ^ 24 + unat d1"]
      floor2_up [OF b(2), of 0 "unat d0 * 2 ^ 24 + unat d1"] unat_and_high_values(1) [OF b(1)]
     floor2_limb [of 1 "unat d0" "unat d1"]
    by (auto simp: floor2_def [of 0])
  show "wf3 (d0, if d2 = 0 then d1 AND 0xfffffe else d1, 0)"
    using assms by (auto simp: wf3_def intro: fits_intros)
qed

lemma rnd_limbs_s0:
  assumes "wf3 (d0, d1, d2)"
  defines "e1 \<equiv> (if d2 = 0 \<and> d1 AND 1 = 0 then d1 AND 0xfffffc else d1) AND 0xfffffe"
  shows "val56 (d0, e1, 0) =
    (let w = val56 (d0, d1, d2) in if w mod 2 ^ 25 = 0 then floor2 (Suc 25) w else floor2 25 w)"
    and "wf3 (d0, e1, 0)"
proof -
  have b: "fits 24 d1" "unat d2 < 2 ^ 24" using assms(1) by (simp_all add: wf3_def fits_iff_unat)
  have z: "(d2 = 0 \<and> d1 AND 1 = 0) \<longleftrightarrow> unat d2 = 0 \<and> unat d1 mod 2 = 0"
    unfolding unat_and_1 [symmetric] by (simp only: unat_eq_zero)
  have w: "((unat d0 * 2 ^ 24 + unat d1) * 2 ^ 24 + unat d2) mod 2 ^ 25 = unat d1 mod 2 * 2 ^ 24 + unat d2"
    unfolding limb_mod(2) [OF b(2)] by (simp add: mod_add_left_eq [symmetric])
  have f: "fits 24 (d1 AND 0xfffffc)" by (rule fits_and1 [OF b(1)])
  have e: "unat e1 = (if unat d2 = 0 \<and> unat d1 mod 2 = 0 then floor2 2 (unat d1) else floor2 1 (unat d1))"
    unfolding e1_def z using unat_and_high_values [OF b(1)] unat_and_high_values(1) [OF f]
    by (simp add: floor2_21 [simplified])
  show "val56 (d0, e1, 0) =
    (let w = val56 (d0, d1, d2) in if w mod 2 ^ 25 = 0 then floor2 (Suc 25) w else floor2 25 w)"
    unfolding val56_limbs Let_def w e
    using floor2_up [OF b(2), of 1 "unat d0 * 2 ^ 24 + unat d1"]
      floor2_up [OF b(2), of 2 "unat d0 * 2 ^ 24 + unat d1"]
     floor2_limb [of 1 "unat d0" "unat d1"] floor2_limb [of 2 "unat d0" "unat d1"] by auto
  show "wf3 (d0, e1, 0)"
    using assms(1) unfolding e1_def by (auto simp: wf3_def intro: fits_intros)
qed

lemma rnd_limbs_s1:
  assumes "wf3 (d0, d1, d2)"
  defines "e2 \<equiv> (if d2 AND 0x7fffff = 0 then 0 else d2) AND 0x800000"
  shows "val56 (d0, d1, e2) =
    (let w = val56 (d0, d1, d2) in if w mod 2 ^ 23 = 0 then floor2 (Suc 23) w else floor2 23 w)"
    and "wf3 (d0, d1, e2)"
proof -
  have b: "fits 24 d2" "unat d2 < 2 ^ 24" using assms(1) by (simp_all add: wf3_def fits_iff_unat)
  have z: "d2 AND 0x7fffff = 0 \<longleftrightarrow> unat d2 mod 2 ^ 23 = 0"
    using unat_and_mask [of d2 23] unat_eq_zero [of "d2 AND mask 23"] by (simp add: mask_numeral)
  have w: "((unat d0 * 2 ^ 24 + unat d1) * 2 ^ 24 + unat d2) mod 2 ^ 23 = unat d2 mod 2 ^ 23"
    by (rule limb_mod [OF b(2)])
  show "val56 (d0, d1, e2) =
    (let w = val56 (d0, d1, d2) in if w mod 2 ^ 23 = 0 then floor2 (Suc 23) w else floor2 23 w)"
    unfolding val56_limbs Let_def w e2_def z
    using floor2_up [OF b(2), of 0 "unat d0 * 2 ^ 24 + unat d1"]
      floor2_limb [of 23 "unat d0 * 2 ^ 24 + unat d1" "unat d2"] unat_and_high_values(3) [OF b(1)]
    by (simp add: floor2_def [of 0])
  show "wf3 (d0, d1, e2)"
    using assms(1) unfolding e2_def by (auto simp: wf3_def intro: fits_intros fits_and1)
qed

lemma dsp_rnd56_spec:
  assumes d: "wf3 d"
  shows "wf3 (dsp_rnd56 s d)" and "val56 (dsp_rnd56 s d) = round_even (rnd_pos s) (val56 d) mod 2 ^ 56"
proof -
  have c: "wf3 (0, 1, 0)" "wf3 (0, 0, 0x400000)" "wf3 (0, 0, 0x800000)"
    and v: "val56 (0, 1, 0) = 2 ^ 24" "val56 (0, 0, 0x400000) = 2 ^ 22" "val56 (0, 0, 0x800000) = 2 ^ 23"
    by (simp_all add: wf3_def val56_def fits_iff_unat)
  note sum = dsp_add56_spec(1,2) [OF _ d]
  let ?res = "wf3 (dsp_rnd56 s d) \<and> val56 (dsp_rnd56 s d) = round_even (rnd_pos s) (val56 d) mod 2 ^ 56"
  have ?res
  proof (cases "bit (reg DSP_REG_SR s) DSP_SR_S0")
    case True
    obtain d0 d1 d2 where e: "snd (dsp_add56 (0, 1, 0) d) = (d0, d1, d2)" by (metis prod_cases3)
    show ?thesis
      using round_even_floor2 [of 25 56 "val56 d"] rnd_limbs_s0 [of d0 d1 d2] sum [OF c(1)] True
      by (simp add: dsp_rnd56_case e rnd_pos_def v add.commute)
  next
    case s0: False
    show ?thesis
    proof (cases "bit (reg DSP_REG_SR s) DSP_SR_S1")
      case True
      obtain d0 d1 d2 where e: "snd (dsp_add56 (0, 0, 0x400000) d) = (d0, d1, d2)" by (metis prod_cases3)
      show ?thesis
        using round_even_floor2 [of 23 56 "val56 d"] rnd_limbs_s1 [of d0 d1 d2] sum [OF c(2)] True s0
        by (simp add: dsp_rnd56_case e rnd_pos_def v add.commute)
    next
      case False
      obtain d0 d1 d2 where e: "snd (dsp_add56 (0, 0, 0x800000) d) = (d0, d1, d2)" by (metis prod_cases3)
      show ?thesis
        using round_even_floor2 [of 24 56 "val56 d"] rnd_limbs_none [of d0 d1 d2] sum [OF c(3)] False s0
        by (simp add: dsp_rnd56_case e rnd_pos_def v add.commute)
    qed
  qed
  then show "wf3 (dsp_rnd56 s d)" "val56 (dsp_rnd56 s d) = round_even (rnd_pos s) (val56 d) mod 2 ^ 56"
    by simp_all
qed
end
