(* ===== verification/Dsp_Mem.thy ===== *)
theory Dsp_Mem
  imports Dsp_State
begin

text \<open>
  The three memory spaces of the DSP (\<open>read_memory_p\<close>, \<open>dsp56k_read_memory\<close>,
  \<open>write_memory_raw\<close> and \<open>dsp56k_write_memory\<close> of \<open>dsp_cpu.c\<close>).

  The functions pointers \<open>read_peripheral\<close> and \<open>write_peripheral\<close> of \<open>dsp_core_t\<close> are
  the first argument of the models (suffix \<open>_cb\<close>); \<open>Dsp_Dma\<close> instantiates them with
  the functions that \<open>dsp_init\<close> installs. The accesses by words and the accesses to
  consecutive words are related through the locale \<open>word_memory\<close>: the laws of a memory
  are stated once, the lemmas on blocks of words are proved from them, and the locale is
  interpreted for the X, Y and P spaces.
\<close>

subsection \<open>Access to one word\<close>

definition read_memory_p :: "'a dsp_core_scheme \<Rightarrow> u32 \<Rightarrow> u32 option" where
  "read_memory_p s address = do {
     assert (address AND 0xFF000000 = 0);
     assert (address < DSP_PRAM_SIZE);
     let r = pram s address;
     assert (r AND 0xFF000000 = 0);
     Some r }"

definition dsp56k_read_memory_cb ::
  "('a dsp_core_scheme \<Rightarrow> u32 \<Rightarrow> u32 option) \<Rightarrow> 'a dsp_core_scheme \<Rightarrow> u32 \<Rightarrow> u32 \<Rightarrow> u32 option" where
  "dsp56k_read_memory_cb read_peripheral s space address = do {
     assert (address AND 0xFF000000 = 0);
     if space = DSP_SPACE_X then
       if address \<ge> DSP_PERIPH_BASE then read_peripheral s address
       else if address \<ge> DSP_MIXBUFFER_BASE \<and> address < DSP_MIXBUFFER_BASE + DSP_MIXBUFFER_SIZE
       then Some (mixbuffer s (address - DSP_MIXBUFFER_BASE))
       else do { assert (address < DSP_XRAM_SIZE); Some (xram s address) }
     else if space = DSP_SPACE_Y then do { assert (address < DSP_YRAM_SIZE); Some (yram s address) }
     else if space = DSP_SPACE_P then read_memory_p s address
     else None }"

definition write_memory_raw_cb ::
  "('a dsp_core_scheme \<Rightarrow> u32 \<Rightarrow> u32 \<Rightarrow> 'a dsp_core_scheme option) \<Rightarrow>
   'a dsp_core_scheme \<Rightarrow> u32 \<Rightarrow> u32 \<Rightarrow> u32 \<Rightarrow> 'a dsp_core_scheme option" where
  "write_memory_raw_cb write_peripheral s space address value = do {
     assert (value AND 0xFF000000 = 0);
     assert (address AND 0xFF000000 = 0);
     if space = DSP_SPACE_X then
       if address \<ge> DSP_PERIPH_BASE then write_peripheral s address value
       else if address \<ge> DSP_MIXBUFFER_BASE \<and> address < DSP_MIXBUFFER_BASE + DSP_MIXBUFFER_SIZE
       then Some (s\<lparr>mixbuffer := (mixbuffer s)(address - DSP_MIXBUFFER_BASE := value)\<rparr>)
       else do { assert (address < DSP_XRAM_SIZE); Some (s\<lparr>xram := (xram s)(address := value)\<rparr>) }
     else if space = DSP_SPACE_Y then
       do { assert (address < DSP_YRAM_SIZE); Some (s\<lparr>yram := (yram s)(address := value)\<rparr>) }
     else if space = DSP_SPACE_P then
       do { assert (address < DSP_PRAM_SIZE); Some (s\<lparr>pram := (pram s)(address := value)\<rparr>) }
     else None }"

text \<open>\<open>TRACE_DSP_DISASM_MEM\<close> is 0, so a write goes to \<open>write_memory_raw\<close>.\<close>

definition dsp56k_write_memory_cb ::
  "('a dsp_core_scheme \<Rightarrow> u32 \<Rightarrow> u32 \<Rightarrow> 'a dsp_core_scheme option) \<Rightarrow>
   'a dsp_core_scheme \<Rightarrow> u32 \<Rightarrow> u32 \<Rightarrow> u32 \<Rightarrow> 'a dsp_core_scheme option" where
  "dsp56k_write_memory_cb write_peripheral s space address value = do {
     assert (value AND 0xFF000000 = 0);
     assert (address AND 0xFF000000 = 0);
     write_memory_raw_cb write_peripheral s space address value }"

subsection \<open>The RAM behind the three spaces\<close>

lemma and_field_zero:
  "(v::u32) AND shl (mask k) j = 0 \<longleftrightarrow> (\<forall>n. \<not> (bit v n \<and> j \<le> n \<and> n < j + k \<and> n < 32))"
  by (auto simp: bit_eq_iff bit_simps)

lemma high_byte_zero: "(v::u32) AND 0xFF000000 = 0 \<longleftrightarrow> fits 24 v"
proof -
  have m: "(0xFF000000 :: u32) = shl (mask 8) 24" by (simp add: mask_numeral push_bit_eq_mult)
  have "n < 32" if "bit v n" for n using bit_imp_le_length [OF that] by simp
  then show ?thesis unfolding m and_field_zero fits_iff_bit by (force simp flip: not_less)
qed

text \<open>The words that are backed by RAM: every access to them succeeds and none of them is
  in the peripheral area.\<close>

definition ram_mapped :: "u32 \<Rightarrow> u32 \<Rightarrow> bool" where
  "ram_mapped space a \<longleftrightarrow>
     space = DSP_SPACE_X \<and> (a < DSP_XRAM_SIZE \<or> (DSP_MIXBUFFER_BASE \<le> a \<and> a < DSP_MIXBUFFER_BASE + DSP_MIXBUFFER_SIZE))
     \<or> space = DSP_SPACE_Y \<and> a < DSP_YRAM_SIZE
     \<or> space = DSP_SPACE_P \<and> a < DSP_PRAM_SIZE"

lemma ram_mapped_fits: "ram_mapped space a \<Longrightarrow> fits 24 a"
  by (auto simp: ram_mapped_def fits_iff_unat word_less_nat_alt)

lemma ram_mapped_not_periph: "ram_mapped space a \<Longrightarrow> \<not> DSP_PERIPH_BASE \<le> a"
  by (auto simp: ram_mapped_def word_less_nat_alt word_le_nat_alt)

lemmas ram_access_defs = dsp56k_read_memory_cb_def read_memory_p_def
  dsp56k_write_memory_cb_def write_memory_raw_cb_def high_byte_zero

lemma ram_write_succeeds:
  assumes "ram_mapped space a" and "fits 24 v"
  shows "\<exists>t. dsp56k_write_memory_cb wp s space a v = Some t"
  using assms ram_mapped_fits [OF assms(1)] ram_mapped_not_periph [OF assms(1)]
  by (auto simp: ram_access_defs ram_mapped_def)

lemma ram_write_value:
  assumes "dsp56k_write_memory_cb wp s space a v = Some t"
  shows "fits 24 v" "fits 24 a"
  using assms by (auto simp: ram_access_defs)

lemma ram_read_write_same:
  assumes "ram_mapped space a" and "dsp56k_write_memory_cb wp s space a v = Some t"
  shows "dsp56k_read_memory_cb rp t space a = Some v"
  using assms ram_mapped_fits [OF assms(1)] ram_mapped_not_periph [OF assms(1)]
  by (auto simp: ram_access_defs ram_mapped_def split: if_splits)

lemma ram_read_write_other:
  assumes "ram_mapped space a" and "ram_mapped space' b" and "(space, a) \<noteq> (space', b)"
    and "dsp56k_write_memory_cb wp s space a v = Some t"
  shows "dsp56k_read_memory_cb rp t space' b = dsp56k_read_memory_cb rp s space' b"
  using assms ram_mapped_not_periph [OF assms(1)] ram_mapped_not_periph [OF assms(2)]
  by (auto simp: ram_access_defs ram_mapped_def split: if_splits)

text \<open>Below the peripheral area the callbacks are not consulted.\<close>

lemma write_memory_cb_irrelevant:
  assumes "space = DSP_SPACE_X \<Longrightarrow> a < DSP_PERIPH_BASE"
  shows "dsp56k_write_memory_cb wp s space a v = dsp56k_write_memory_cb wp' s space a v"
  using assms by (auto simp: dsp56k_write_memory_cb_def write_memory_raw_cb_def)

text \<open>A write to RAM keeps the registers and the devices.\<close>

definition same_but_ram :: "'a dsp_core_scheme \<Rightarrow> 'a dsp_core_scheme \<Rightarrow> bool" where
  "same_but_ram s t \<longleftrightarrow> t = s\<lparr>xram := xram t, yram := yram t, pram := pram t, mixbuffer := mixbuffer t\<rparr>"

lemma same_but_ram_refl [simp]: "same_but_ram s s"
  by (simp add: same_but_ram_def)

lemma same_but_ram_trans: "same_but_ram s t \<Longrightarrow> same_but_ram t u \<Longrightarrow> same_but_ram s u"
  by (cases s; cases t; cases u) (auto simp: same_but_ram_def)

lemma ram_write_frame:
  assumes "space = DSP_SPACE_X \<Longrightarrow> a < DSP_PERIPH_BASE"
    and "dsp56k_write_memory_cb wp s space a v = Some t"
  shows "same_but_ram s t"
  using assms by (cases s) (auto simp: ram_access_defs same_but_ram_def split: if_splits)

subsection \<open>Blocks of words\<close>

primrec read_words :: "(u32 \<Rightarrow> u32 option) \<Rightarrow> u32 \<Rightarrow> nat \<Rightarrow> u32 list option" where
  "read_words rd a 0 = Some []"
| "read_words rd a (Suc n) = do { v \<leftarrow> rd a; vs \<leftarrow> read_words rd (a + 1) n; Some (v # vs) }"

primrec write_words :: "('s \<Rightarrow> u32 \<Rightarrow> u32 \<Rightarrow> 's option) \<Rightarrow> 's \<Rightarrow> u32 \<Rightarrow> u32 list \<Rightarrow> 's option" where
  "write_words wr s a [] = Some s"
| "write_words wr s a (v # vs) = do { t \<leftarrow> wr s a v; write_words wr t (a + 1) vs }"

text \<open>The interface the block transfers rely on: a memory whose words in \<open>ok\<close> keep what is
  written to them.\<close>

locale word_memory =
  fixes rd :: "'s \<Rightarrow> u32 \<Rightarrow> u32 option"
    and wr :: "'s \<Rightarrow> u32 \<Rightarrow> u32 \<Rightarrow> 's option"
    and ok :: "u32 \<Rightarrow> bool"
  assumes wr_ok: "ok a \<Longrightarrow> fits 24 v \<Longrightarrow> \<exists>t. wr s a v = Some t"
    and rd_wr_same: "ok a \<Longrightarrow> wr s a v = Some t \<Longrightarrow> rd t a = Some v"
    and rd_wr_other: "ok a \<Longrightarrow> ok b \<Longrightarrow> a \<noteq> b \<Longrightarrow> wr s a v = Some t \<Longrightarrow> rd t b = rd s b"
begin

lemma write_words_ok:
  assumes "\<forall>i < length vs. ok (a + of_nat i)" and "\<forall>v \<in> set vs. fits 24 v"
  shows "\<exists>t. write_words wr s a vs = Some t"
  using assms
proof (induction vs arbitrary: s a)
  case (Cons v vs)
  from Cons.prems(1) have "ok a" by force
  with Cons.prems(2) obtain t where t: "wr s a v = Some t" using wr_ok by fastforce
  have "\<forall>i < length vs. ok (a + 1 + of_nat i)"
  proof (intro allI impI)
    fix i assume "i < length vs"
    then have "ok (a + of_nat (Suc i))" using Cons.prems(1) by (metis Suc_less_eq length_Cons)
    then show "ok (a + 1 + of_nat i)" by (simp add: ac_simps)
  qed
  then show ?case using Cons.IH [of "a + 1" t] Cons.prems(2) t by simp
qed simp

lemma write_words_other:
  assumes "write_words wr s a vs = Some t" and "\<forall>i < length vs. ok (a + of_nat i)"
    and "ok b" and "\<forall>i < length vs. b \<noteq> a + of_nat i"
  shows "rd t b = rd s b"
  using assms
proof (induction vs arbitrary: s a)
  case (Cons v vs)
  obtain u where u: "wr s a v = Some u" and r: "write_words wr u (a + 1) vs = Some t"
    using Cons.prems(1) by (auto simp: bind_Some_iff)
  have shift: "P (a + 1 + of_nat i)" if "\<forall>i < length (v # vs). P (a + of_nat i)" "i < length vs" for P i
  proof -
    have "P (a + of_nat (Suc i))" using that by (metis Suc_less_eq length_Cons)
    then show ?thesis by (simp add: ac_simps)
  qed
  have "rd t b = rd u b"
    using shift [OF Cons.prems(2)] shift [OF Cons.prems(4)] Cons.prems(3)
    by (intro Cons.IH [OF r]) auto
  also have "\<dots> = rd s b"
  proof (rule rd_wr_other [OF _ Cons.prems(3) _ u])
    show "ok a" "a \<noteq> b" using Cons.prems(2,4) by force+
  qed
  finally show ?case .
qed simp

lemma read_write_words:
  assumes "write_words wr s a vs = Some t" and "\<forall>i < length vs. ok (a + of_nat i)"
    and "length vs < 2 ^ 32"
  shows "read_words (rd t) a (length vs) = Some vs"
  using assms
proof (induction vs arbitrary: s a)
  case (Cons v vs)
  obtain u where u: "wr s a v = Some u" and r: "write_words wr u (a + 1) vs = Some t"
    using Cons.prems(1) by (auto simp: bind_Some_iff)
  have ok: "ok (a + 1 + of_nat i)" if "i < length vs" for i
  proof -
    have "ok (a + of_nat (Suc i))" using Cons.prems(2) that by (metis Suc_less_eq length_Cons)
    then show ?thesis by (simp add: ac_simps)
  qed
  have a: "ok a" using Cons.prems(2) by force
  have ne: "a \<noteq> a + 1 + of_nat i" if "i < length vs" for i
  proof
    assume "a = a + 1 + of_nat i"
    then have "of_nat (Suc i) = (0 :: u32)" by (simp add: algebra_simps)
    moreover have "unat (of_nat (Suc i) :: u32) = Suc i"
      unfolding unat_of_nat using that Cons.prems(3) by simp
    ultimately show False by simp
  qed
  have "rd t a = rd u a" by (rule write_words_other [OF r _ a]) (use ok ne in auto)
  also have "\<dots> = Some v" by (rule rd_wr_same [OF a u])
  finally show ?case using Cons.IH [OF r] ok Cons.prems(3) by simp
qed simp

end

text \<open>The RAM of each space is such a memory, whatever the peripheral callbacks are.\<close>

interpretation ram: word_memory
  "\<lambda>s. dsp56k_read_memory_cb rp s space" "\<lambda>s. dsp56k_write_memory_cb wp s space" "ram_mapped space"
  for rp :: "'a dsp_core_scheme \<Rightarrow> u32 \<Rightarrow> u32 option"
    and wp :: "'a dsp_core_scheme \<Rightarrow> u32 \<Rightarrow> u32 \<Rightarrow> 'a dsp_core_scheme option"
    and space :: u32
proof
  fix a b v :: u32 and s t :: "'a dsp_core_scheme"
  assume a: "ram_mapped space a"
  show "fits 24 v \<Longrightarrow> \<exists>t. dsp56k_write_memory_cb wp s space a v = Some t"
    by (rule ram_write_succeeds [OF a])
  assume w: "dsp56k_write_memory_cb wp s space a v = Some t"
  show "dsp56k_read_memory_cb rp t space a = Some v" by (rule ram_read_write_same [OF a w])
  assume "ram_mapped space b" "a \<noteq> b"
  then show "dsp56k_read_memory_cb rp t space b = dsp56k_read_memory_cb rp s space b"
    by (intro ram_read_write_other [OF a _ _ w]) auto
qed

end
