(* ===== verification/Dsp_Dma.thy ===== *)
theory Dsp_Dma
  imports Dsp_Mem
begin

text \<open>
  The DMA engine of the DSP (\<open>dsp_dma.c\<close>) and the peripheral registers through which the
  DSP program drives it (\<open>read_peripheral\<close>, \<open>write_peripheral\<close> of \<open>dsp.c\<close>).

  \<open>dsp_dma_block\<close> is the body of the \<open>while\<close> loop of \<open>dsp_dma_run\<close>: it fetches one
  node of the linked list of blocks in X memory and performs its transfer. The loop itself is
  a \<open>partial_function\<close>: the list is built by the guest, and nothing bounds it. The transfer
  buffer is a list of bytes; its 16- and 32-bit items are stored in the byte order of the
  (little-endian) host. Reading outside the buffer is undefined behaviour in C and \<open>None\<close>
  here.
\<close>

subsection \<open>Registers of the engine\<close>

datatype DSPDMARegister = DMA_CONFIGURATION | DMA_CONTROL | DMA_START_BLOCK | DMA_NEXT_BLOCK

abbreviation (input) DMA_CONTROL_ACTION :: u32 where "DMA_CONTROL_ACTION \<equiv> 0x7"
abbreviation (input) DMA_CONTROL_ACTION_START :: u32 where "DMA_CONTROL_ACTION_START \<equiv> 1"
abbreviation (input) DMA_CONTROL_ACTION_STOP :: u32 where "DMA_CONTROL_ACTION_STOP \<equiv> 2"
abbreviation (input) DMA_CONTROL_ACTION_FREEZE :: u32 where "DMA_CONTROL_ACTION_FREEZE \<equiv> 3"
abbreviation (input) DMA_CONTROL_ACTION_UNFREEZE :: u32 where "DMA_CONTROL_ACTION_UNFREEZE \<equiv> 4"
abbreviation (input) DMA_CONTROL_FROZEN :: u32 where "DMA_CONTROL_FROZEN \<equiv> 0x8"
abbreviation (input) DMA_CONTROL_RUNNING :: u32 where "DMA_CONTROL_RUNNING \<equiv> 0x10"
abbreviation (input) DMA_CONTROL_STOPPED :: u32 where "DMA_CONTROL_STOPPED \<equiv> 0x20"
abbreviation (input) NODE_POINTER_VAL :: u32 where "NODE_POINTER_VAL \<equiv> 0x3fff"
abbreviation (input) NODE_POINTER_EOL :: u32 where "NODE_POINTER_EOL \<equiv> 0x4000"
abbreviation (input) NODE_CONTROL_DIRECTION :: u32 where "NODE_CONTROL_DIRECTION \<equiv> 0x2"
abbreviation (input) INTERRUPT_START_FRAME :: u32 where "INTERRUPT_START_FRAME \<equiv> 0x2"
abbreviation (input) INTERRUPT_DMA_EOL :: u32 where "INTERRUPT_DMA_EOL \<equiv> 0x80"

definition dsp_dma_read :: "'o DSPDMAState \<Rightarrow> DSPDMARegister \<Rightarrow> u32" where
  "dsp_dma_read d r = (case r of
       DMA_CONFIGURATION \<Rightarrow> configuration d
     | DMA_CONTROL \<Rightarrow> control d
     | DMA_START_BLOCK \<Rightarrow> start_block d
     | DMA_NEXT_BLOCK \<Rightarrow> next_block d)"

definition read_peripheral :: "'o DSPState \<Rightarrow> u32 \<Rightarrow> u32 option" where
  "read_peripheral s address = Some
     (if address = 0xFFFFC5 then
        (if eol (dma s) then interrupts s OR INTERRUPT_DMA_EOL else interrupts s)
      else if address = 0xFFFFD4 then dsp_dma_read (dma s) DMA_NEXT_BLOCK
      else if address = 0xFFFFD5 then dsp_dma_read (dma s) DMA_START_BLOCK
      else if address = 0xFFFFD6 then dsp_dma_read (dma s) DMA_CONTROL
      else if address = 0xFFFFD7 then dsp_dma_read (dma s) DMA_CONFIGURATION
      else 0xababa)"

abbreviation dsp56k_read_memory :: "'o DSPState \<Rightarrow> u32 \<Rightarrow> u32 \<Rightarrow> u32 option" where
  "dsp56k_read_memory \<equiv> dsp56k_read_memory_cb read_peripheral"

subsection \<open>The transfer buffer\<close>

definition item_bytes :: "nat \<Rightarrow> u32 \<Rightarrow> u8 list" where
  "item_bytes item_size v =
     (if item_size = 2 then [ucast v, ucast (shr v 8)]
      else [ucast v, ucast (shr v 8), ucast (shr v 16), ucast (shr v 24)])"

definition item_word :: "nat \<Rightarrow> u8 list \<Rightarrow> nat \<Rightarrow> u32 option" where
  "item_word item_size buf i =
     (if item_size = 2 then
        if i * 2 + 1 < length buf
        then Some (ucast (buf ! (i * 2)) OR shl (ucast (buf ! (i * 2 + 1))) 8) else None
      else
        if i * 4 + 3 < length buf
        then Some (ucast (buf ! (i * 4)) OR shl (ucast (buf ! (i * 4 + 1))) 8
             OR shl (ucast (buf ! (i * 4 + 2))) 16 OR shl (ucast (buf ! (i * 4 + 3))) 24) else None)"

primrec item_words :: "nat \<Rightarrow> u8 list \<Rightarrow> nat \<Rightarrow> u32 list option" where
  "item_words item_size buf 0 = Some []"
| "item_words item_size buf (Suc n) = do {
     vs \<leftarrow> item_words item_size buf n;
     v \<leftarrow> item_word item_size buf n;
     Some (vs @ [v]) }"

subsection \<open>One block\<close>

text \<open>The fields of a node as \<open>dsp_dma_run\<close> reads them from X memory.\<close>

record dma_node =
  node_next :: u32
  node_control :: u32
  node_count :: u32
  node_dsp_offset :: u32
  node_scratch_offset :: u32
  node_scratch_base :: u32
  node_scratch_size :: u32

definition dma_fetch :: "'o DSPState \<Rightarrow> u32 \<Rightarrow> dma_node option" where
  "dma_fetch s addr = do {
     assert (addr + 6 < 4 * DSP_XRAM_SIZE);
     next \<leftarrow> dsp56k_read_memory s DSP_SPACE_X addr;
     ctrl \<leftarrow> dsp56k_read_memory s DSP_SPACE_X (addr + 1);
     count \<leftarrow> dsp56k_read_memory s DSP_SPACE_X (addr + 2);
     dsp_offset \<leftarrow> dsp56k_read_memory s DSP_SPACE_X (addr + 3);
     scratch_offset \<leftarrow> dsp56k_read_memory s DSP_SPACE_X (addr + 4);
     scratch_base \<leftarrow> dsp56k_read_memory s DSP_SPACE_X (addr + 5);
     size \<leftarrow> dsp56k_read_memory s DSP_SPACE_X (addr + 6);
     Some \<lparr>node_next = next, node_control = ctrl, node_count = count, node_dsp_offset = dsp_offset,
       node_scratch_offset = scratch_offset, node_scratch_base = scratch_base,
       node_scratch_size = size + 1\<rparr> }"

definition dma_item :: "dma_node \<Rightarrow> (nat \<times> u32) option" where
  "dma_item n =
     (let format = shr (node_control n) 10 AND 0x7
      in if format = 1 then Some (2, 0xffffffff)
         else if format = 2 \<or> format = 6 then Some (4, 0x00FFFFFF)
         else None)"

definition dma_buf_id :: "dma_node \<Rightarrow> u32" where
  "dma_buf_id n = shr (node_control n) 5 AND 0xf"

definition dma_mem :: "dma_node \<Rightarrow> (u32 \<times> u32) option" where
  "dma_mem n =
     (let dsp_offset = node_dsp_offset n; count = node_count n
      in if dsp_offset < 0x1800 then do {
           assert (dsp_offset + count < 0x1800); Some (DSP_SPACE_X, dsp_offset) }
         else if dsp_offset \<ge> 0x1800 \<and> dsp_offset < 0x2000 then do {
           assert (dsp_offset + count < 0x2000); Some (DSP_SPACE_Y, dsp_offset - 0x1800) }
         else if dsp_offset \<ge> 0x2800 \<and> dsp_offset < 0x3800 then do {
           assert (dsp_offset + count < 0x3800); Some (DSP_SPACE_P, dsp_offset - 0x2800) }
         else None)"

text \<open>From the DSP to a FIFO or to scratch memory, and from scratch memory to the DSP.\<close>

definition dma_out :: "'o DSPState \<Rightarrow> dma_node \<Rightarrow> nat \<Rightarrow> u32 \<Rightarrow> u32 \<Rightarrow> u32 \<Rightarrow> 'o DSPState option" where
  "dma_out s n item_size scratch_addr mem_space mem_address = do {
     vs \<leftarrow> read_words (dsp56k_read_memory s mem_space) mem_address (unat (node_count n));
     let scratch_buf = concat (map (item_bytes item_size) vs);
     let transfer_size = unat (node_count n * of_nat item_size);
     let buf_id = dma_buf_id n;
     let d = dma s;
     if buf_id \<le> 3 then do {
       (op', _) \<leftarrow> fifo_rw d (rw_opaque d) scratch_buf buf_id transfer_size True;
       Some (s\<lparr>dma := d\<lparr>rw_opaque := op'\<rparr>\<rparr>) }
     else if buf_id = 0xE \<or> buf_id = 0xF then do {
       (op', _) \<leftarrow> scratch_rw d (rw_opaque d) scratch_buf scratch_addr transfer_size True;
       Some (s\<lparr>dma := d\<lparr>rw_opaque := op'\<rparr>\<rparr>) }
     else None }"

text \<open>The destination of a write is below \<open>0x1800\<close> in X memory, so the peripheral callback
  is not reached (\<open>dma_mem_not_periph\<close> below) and the memory is written with a callback that
  is never called.\<close>

definition dma_in :: "'o DSPState \<Rightarrow> dma_node \<Rightarrow> nat \<Rightarrow> u32 \<Rightarrow> u32 \<Rightarrow> u32 \<Rightarrow> u32 \<Rightarrow> 'o DSPState option" where
  "dma_in s n item_size item_mask scratch_addr mem_space mem_address = do {
     assert (dma_buf_id n = 0xE \<or> dma_buf_id n = 0xF);
     let count = unat (node_count n);
     let transfer_size = unat (node_count n * of_nat item_size);
     let d = dma s;
     (op', scratch_buf) \<leftarrow> scratch_rw d (rw_opaque d) (replicate (count * item_size) 0)
        scratch_addr transfer_size False;
     vs \<leftarrow> item_words item_size scratch_buf count;
     write_words (\<lambda>t. dsp56k_write_memory_cb (\<lambda>_ _ _. None) t mem_space)
       (s\<lparr>dma := d\<lparr>rw_opaque := op'\<rparr>\<rparr>) mem_address
       (map (\<lambda>v. if item_size = 4 then v AND item_mask else v) vs) }"

definition dsp_dma_block :: "'o DSPState \<Rightarrow> 'o DSPState option" where
  "dsp_dma_block s0 = do {
     n \<leftarrow> dma_fetch s0 (next_block (dma s0) AND NODE_POINTER_VAL);
     let d = (dma s0)\<lparr>next_block := node_next n\<rparr>;
     let s = s0\<lparr>dma := (if node_next n AND NODE_POINTER_EOL \<noteq> 0 then d\<lparr>eol := True\<rparr> else d)\<rparr>;
     assert (shr (node_control n) 2 AND 0x3 = 0);
     assert (shr (node_control n) 13 AND 1 = 0);
     (item_size, item_mask) \<leftarrow> dma_item n;
     if dma_buf_id n = 0xe \<and>
        node_scratch_offset n + node_count n * of_nat item_size \<ge> node_scratch_size n
     then Some s
     else do {
       let scratch_addr = (if dma_buf_id n = 0xe then node_scratch_base n + node_scratch_offset n
         else node_scratch_offset n);
       (mem_space, mem_address) \<leftarrow> dma_mem n;
       if node_control n AND NODE_CONTROL_DIRECTION \<noteq> 0
       then dma_out s n item_size scratch_addr mem_space mem_address
       else dma_in s n item_size item_mask scratch_addr mem_space mem_address } }"

subsection \<open>The loop and the register interface\<close>

partial_function (option) dsp_dma_loop :: "'o DSPState \<Rightarrow> 'o DSPState option" where
  "dsp_dma_loop s =
     (if next_block (dma s) AND NODE_POINTER_EOL \<noteq> 0 then Some s
      else do { t \<leftarrow> dsp_dma_block s; dsp_dma_loop t })"

definition dsp_dma_run :: "'o DSPState \<Rightarrow> 'o DSPState option" where
  "dsp_dma_run s =
     (if control (dma s) AND DMA_CONTROL_RUNNING = 0 \<or> control (dma s) AND DMA_CONTROL_FROZEN \<noteq> 0
      then Some s else dsp_dma_loop s)"

definition dma_action :: "u32 \<Rightarrow> u32 \<Rightarrow> u32 option" where
  "dma_action ctrl v =
     (let a = v AND DMA_CONTROL_ACTION
      in if a = DMA_CONTROL_ACTION_START
         then Some ((ctrl OR DMA_CONTROL_RUNNING) AND NOT DMA_CONTROL_STOPPED)
         else if a = DMA_CONTROL_ACTION_STOP
         then Some ((ctrl OR DMA_CONTROL_STOPPED) AND NOT DMA_CONTROL_RUNNING)
         else if a = DMA_CONTROL_ACTION_FREEZE then Some (ctrl OR DMA_CONTROL_FROZEN)
         else if a = DMA_CONTROL_ACTION_UNFREEZE then Some (ctrl AND NOT DMA_CONTROL_FROZEN)
         else None)"

definition dsp_dma_write :: "'o DSPState \<Rightarrow> DSPDMARegister \<Rightarrow> u32 \<Rightarrow> 'o DSPState option" where
  "dsp_dma_write s r v = (case r of
       DMA_CONFIGURATION \<Rightarrow> Some (s\<lparr>dma := (dma s)\<lparr>configuration := v\<rparr>\<rparr>)
     | DMA_CONTROL \<Rightarrow> do {
         c \<leftarrow> dma_action (control (dma s)) v;
         dsp_dma_run (s\<lparr>dma := (dma s)\<lparr>control := c\<rparr>\<rparr>) }
     | DMA_START_BLOCK \<Rightarrow> Some (s\<lparr>dma := (dma s)\<lparr>start_block := v\<rparr>\<rparr>)
     | DMA_NEXT_BLOCK \<Rightarrow> Some (s\<lparr>dma := (dma s)\<lparr>next_block := v\<rparr>\<rparr>))"

definition write_peripheral :: "'o DSPState \<Rightarrow> u32 \<Rightarrow> u32 \<Rightarrow> 'o DSPState option" where
  "write_peripheral s address value =
     (if address = 0xFFFFC5 then
        Some (s\<lparr>interrupts := interrupts s AND NOT value,
                dma := (if value AND INTERRUPT_DMA_EOL \<noteq> 0 then (dma s)\<lparr>eol := False\<rparr> else dma s)\<rparr>)
      else if address = 0xFFFFD4 then dsp_dma_write s DMA_NEXT_BLOCK value
      else if address = 0xFFFFD5 then dsp_dma_write s DMA_START_BLOCK value
      else if address = 0xFFFFD6 then dsp_dma_write s DMA_CONTROL value
      else if address = 0xFFFFD7 then dsp_dma_write s DMA_CONFIGURATION value
      else Some s)"

abbreviation dsp56k_write_memory :: "'o DSPState \<Rightarrow> u32 \<Rightarrow> u32 \<Rightarrow> u32 \<Rightarrow> 'o DSPState option" where
  "dsp56k_write_memory \<equiv> dsp56k_write_memory_cb write_peripheral"

subsection \<open>Encoding of the items\<close>

lemma bytes_of_u32:
  "ucast (ucast v :: u8) OR shl (ucast (ucast (shr v 8) :: u8)) 8 OR shl (ucast (ucast (shr v 16) :: u8)) 16
     OR shl (ucast (ucast (shr v 24) :: u8)) 24 = (v :: u32)"
  "ucast (ucast v :: u8) OR shl (ucast (ucast (shr v 8) :: u8)) 8 = (v :: u32) AND 0xffff"
proof -
  show "ucast (ucast v :: u8) OR shl (ucast (ucast (shr v 8) :: u8)) 8 OR shl (ucast (ucast (shr v 16) :: u8)) 16
     OR shl (ucast (ucast (shr v 24) :: u8)) 24 = (v :: u32)"
  proof (rule bit_word_eqI)
    fix n assume "n < LENGTH(32)"
    then show "bit (ucast (ucast v :: u8) OR shl (ucast (ucast (shr v 8) :: u8)) 8
      OR shl (ucast (ucast (shr v 16) :: u8)) 16 OR shl (ucast (ucast (shr v 24) :: u8)) 24 :: u32) n = bit v n"
      by (cases "24 \<le> n"; cases "16 \<le> n") (auto simp: bit_simps not_less)
  qed
  have "ucast (ucast v :: u8) OR shl (ucast (ucast (shr v 8) :: u8)) 8 = (v :: u32) AND mask 16"
    by (rule bit_word_eqI) (auto simp: bit_simps not_less simp del: mask_u32_values)
  then show "ucast (ucast v :: u8) OR shl (ucast (ucast (shr v 8) :: u8)) 8 = (v :: u32) AND 0xffff" by simp
qed

lemma item_bytes_length: "length (item_bytes k v) = (if k = 2 then 2 else 4)"
  by (simp add: item_bytes_def)

lemma length_concat_item_bytes: "length (concat (map (item_bytes k) vs)) = length vs * (if k = 2 then 2 else 4)"
  by (induction vs) (simp_all add: item_bytes_length)

lemma nth_concat_item_bytes:
  assumes "i < length vs" and "j < (if k = 2 then 2 else 4)"
  shows "concat (map (item_bytes k) vs) ! (i * (if k = 2 then 2 else 4) + j) = item_bytes k (vs ! i) ! j"
  using assms
proof (induction vs arbitrary: i)
  case (Cons v vs)
  show ?case
  proof (cases i)
    case 0
    then show ?thesis using Cons.prems by (simp add: nth_append item_bytes_length)
  next
    case (Suc m)
    have "concat (map (item_bytes k) vs) ! (m * (if k = 2 then 2 else 4) + j) = item_bytes k (vs ! m) ! j"
      using Cons.IH [of m] Cons.prems Suc by simp
    then show ?thesis by (simp add: nth_append item_bytes_length Suc)
  qed
qed simp

definition truncate_item :: "nat \<Rightarrow> u32 \<Rightarrow> u32" where
  "truncate_item k v = (if k = 2 then v AND 0xffff else v)"

lemma item_word_concat:
  assumes "i < length vs"
  shows "item_word k (concat (map (item_bytes k) vs)) i = Some (truncate_item k (vs ! i))"
proof (cases "k = 2")
  case True
  have "i * 2 + 1 < length vs * 2" using assms by simp
  then show ?thesis
    using nth_concat_item_bytes [OF assms, of 0 k] nth_concat_item_bytes [OF assms, of 1 k] bytes_of_u32(2) [of "vs ! i"]
    by (simp add: True item_word_def length_concat_item_bytes item_bytes_def truncate_item_def)
next
  case False
  have "i * 4 + 3 < length vs * 4" using assms by simp
  then show ?thesis
    using nth_concat_item_bytes [OF assms, of 0 k] nth_concat_item_bytes [OF assms, of 1 k]
      nth_concat_item_bytes [OF assms, of 2 k] nth_concat_item_bytes [OF assms, of 3 k] bytes_of_u32(1) [of "vs ! i"]
    by (simp add: False item_word_def length_concat_item_bytes item_bytes_def truncate_item_def
        numeral_3_eq_3 [symmetric])
qed

lemma item_words_concat:
  "n \<le> length vs \<Longrightarrow>
   item_words k (concat (map (item_bytes k) vs)) n = Some (map (truncate_item k) (take n vs))"
  by (induction n) (simp_all add: item_word_concat take_Suc_conv_app_nth)

lemma item_roundtrip:
  "item_words k (concat (map (item_bytes k) vs)) (length vs) = Some (map (truncate_item k) vs)"
  by (simp add: item_words_concat)

subsection \<open>Transfers\<close>

lemma dma_mem_space: "dma_mem n = Some (sp, a) \<Longrightarrow> sp = DSP_SPACE_X \<Longrightarrow> a < 0x1800"
  by (auto simp: dma_mem_def Let_def split: if_splits)

lemma write_words_low_irrelevant:
  assumes "sp = DSP_SPACE_X \<Longrightarrow> a \<le> 0x1800"
  shows "write_words (\<lambda>t. dsp56k_write_memory_cb wp t sp) s a vs =
    write_words (\<lambda>t. dsp56k_write_memory_cb wq t sp) s a vs"
  using assms
proof (induction vs arbitrary: s a)
  case (Cons v vs)
  show ?case
  proof (cases "sp = DSP_SPACE_X \<and> a = 0x1800")
    case True
    then have "dsp56k_write_memory_cb w s sp a v = None" for w
      by (simp add: ram_access_defs assert_def)
    then show ?thesis by simp
  next
    case False
    then have le: "sp = DSP_SPACE_X \<Longrightarrow> a < 0x1800" using Cons.prems by auto
    have "dsp56k_write_memory_cb wp s sp a v = dsp56k_write_memory_cb wq s sp a v"
      by (rule write_memory_cb_irrelevant) (use le in \<open>auto intro: order.strict_trans\<close>)
    moreover have "sp = DSP_SPACE_X \<Longrightarrow> a + 1 \<le> 0x1800" using le inc_le by blast
    ultimately show ?thesis using Cons.IH by (simp cong: Option.bind_cong)
  qed
qed simp

lemma dma_in_callback:
  fixes s :: "'o DSPState"
  assumes "dma_mem n = Some (sp, a)"
  shows "dma_in s n sz m sa sp a = do {
     assert (dma_buf_id n = 0xE \<or> dma_buf_id n = 0xF);
     (q, buf) \<leftarrow> scratch_rw (dma s) (rw_opaque (dma s)) (replicate (unat (node_count n) * sz) 0)
        sa (unat (node_count n * of_nat sz)) False;
     vs \<leftarrow> item_words sz buf (unat (node_count n));
     write_words (\<lambda>t. dsp56k_write_memory t sp) (s\<lparr>dma := (dma s)\<lparr>rw_opaque := q\<rparr>\<rparr>) a
       (map (\<lambda>v. if sz = 4 then v AND m else v) vs) }"
proof -
  have "write_words (\<lambda>t. dsp56k_write_memory_cb (\<lambda>_ _ _. None) t sp) u a ws =
    write_words (\<lambda>t. dsp56k_write_memory t sp) u a ws" for u :: "'o DSPState" and ws
    by (rule write_words_low_irrelevant) (use dma_mem_space [OF assms] in auto)
  then show ?thesis by (simp add: dma_in_def Let_def)
qed

lemma read_memory_dma_update [simp]:
  "ram_mapped sp b \<Longrightarrow> dsp56k_read_memory (s\<lparr>dma := d\<rparr>) sp b = dsp56k_read_memory s sp b"
  using ram_mapped_not_periph [of sp b] by (auto simp: ram_access_defs)

lemma write_words_other_ram:
  assumes "write_words (\<lambda>t. dsp56k_write_memory_cb wp t sp) s a vs = Some t"
    and "\<forall>i < length vs. ram_mapped sp (a + of_nat i)"
    and "ram_mapped sp' b" and "sp' \<noteq> sp \<or> (\<forall>i < length vs. b \<noteq> a + of_nat i)"
  shows "dsp56k_read_memory_cb rp t sp' b = dsp56k_read_memory_cb rp s sp' b"
proof (cases "sp' = sp")
  case True
  then show ?thesis using ram.write_words_other [OF assms(1,2)] assms(3,4) by blast
next
  case False
  show ?thesis using assms(1,2)
  proof (induction vs arbitrary: s a)
    case (Cons v vs)
    obtain u where u: "dsp56k_write_memory_cb wp s sp a v = Some u"
      and r: "write_words (\<lambda>t. dsp56k_write_memory_cb wp t sp) u (a + 1) vs = Some t"
      using Cons.prems(1) by (auto simp: bind_Some_iff)
    have "ram_mapped sp (a + 1 + of_nat i)" if "i < length vs" for i
    proof -
      have "ram_mapped sp (a + of_nat (Suc i))" using Cons.prems(2) that by (metis Suc_less_eq length_Cons)
      then show ?thesis by (simp add: ac_simps)
    qed
    then have "dsp56k_read_memory_cb rp t sp' b = dsp56k_read_memory_cb rp u sp' b"
      by (intro Cons.IH [OF r]) auto
    also have "\<dots> = dsp56k_read_memory_cb rp s sp' b"
    proof (rule ram_read_write_other [OF _ assms(3) _ u])
      show "ram_mapped sp a" using Cons.prems(2) by force
      show "(sp, a) \<noteq> (sp', b)" using False by simp
    qed
    finally show ?case .
  qed simp
qed

lemma length_item_words: "item_words k buf n = Some vs \<Longrightarrow> length vs = n"
  by (induction n arbitrary: vs) (auto simp: bind_Some_iff)

text \<open>What a block transfer into the DSP writes, and what it leaves alone.\<close>

lemma dma_in_spec:
  assumes m: "dma_mem n = Some (sp, a)" and r: "dma_in s n sz msk sa sp a = Some t"
    and ok: "\<forall>i < unat (node_count n). ram_mapped sp (a + of_nat i)"
  obtains q buf vs where
    "scratch_rw (dma s) (rw_opaque (dma s)) (replicate (unat (node_count n) * sz) 0) sa
       (unat (node_count n * of_nat sz)) False = Some (q, buf)"
    "item_words sz buf (unat (node_count n)) = Some vs"
    "read_words (dsp56k_read_memory t sp) a (unat (node_count n)) =
       Some (map (\<lambda>v. if sz = 4 then v AND msk else v) vs)"
    "\<And>sp' b. ram_mapped sp' b \<Longrightarrow> sp' \<noteq> sp \<or> (\<forall>i < unat (node_count n). b \<noteq> a + of_nat i) \<Longrightarrow>
       dsp56k_read_memory t sp' b = dsp56k_read_memory s sp' b"
proof -
  let ?f = "\<lambda>v. if sz = 4 then v AND msk else v" and ?n = "unat (node_count n)"
  obtain q buf vs where sc: "scratch_rw (dma s) (rw_opaque (dma s)) (replicate (?n * sz) 0) sa
       (unat (node_count n * of_nat sz)) False = Some (q, buf)"
    and it: "item_words sz buf ?n = Some vs"
    and w: "write_words (\<lambda>t. dsp56k_write_memory t sp) (s\<lparr>dma := (dma s)\<lparr>rw_opaque := q\<rparr>\<rparr>) a (map ?f vs) = Some t"
    using r unfolding dma_in_callback [OF m] by (auto simp: bind_Some_iff)
  have l: "length (map ?f vs) = ?n" using length_item_words [OF it] by simp
  have "length (map ?f vs) < 2 ^ 32" unfolding l by (rule unat_less_exp)
  then have rd: "read_words (dsp56k_read_memory t sp) a ?n = Some (map ?f vs)"
    using ram.read_write_words [OF w] ok l by (simp add: l)
  have "dsp56k_read_memory t sp' b = dsp56k_read_memory s sp' b"
    if "ram_mapped sp' b" "sp' \<noteq> sp \<or> (\<forall>i < ?n. b \<noteq> a + of_nat i)" for sp' b
    using write_words_other_ram [OF w _ that(1), of read_peripheral] ok that l
    by (metis read_memory_dma_update)
  then show thesis using that [OF sc it rd] by blast
qed

subsection \<open>The list of blocks\<close>

text \<open>The terminating runs of the loop, as an inductive relation.\<close>

inductive dma_chain :: "'o DSPState \<Rightarrow> 'o DSPState \<Rightarrow> bool" where
  dma_chain_end: "next_block (dma s) AND NODE_POINTER_EOL \<noteq> 0 \<Longrightarrow> dma_chain s s"
| dma_chain_step: "next_block (dma s) AND NODE_POINTER_EOL = 0 \<Longrightarrow> dsp_dma_block s = Some u \<Longrightarrow>
    dma_chain u t \<Longrightarrow> dma_chain s t"

lemma dma_chain_loop: "dma_chain s t \<Longrightarrow> dsp_dma_loop s = Some t"
  by (induction rule: dma_chain.induct) (simp_all add: dsp_dma_loop.simps)

lemma dma_loop_chain: "dsp_dma_loop s = Some t \<Longrightarrow> dma_chain s t"
  by (erule dsp_dma_loop.raw_induct [rotated])
    (auto simp: bind_Some_iff split: if_splits intro: dma_chain.intros)

lemma dma_loop_iff: "dsp_dma_loop s = Some t \<longleftrightarrow> dma_chain s t"
  using dma_chain_loop dma_loop_chain by blast

lemma dma_chain_stuck:
  assumes "dma_chain s t"
  shows "dsp_dma_block s \<noteq> Some s \<or> next_block (dma s) AND NODE_POINTER_EOL \<noteq> 0"
  using assms by (induction rule: dma_chain.induct) auto

text \<open>The state after a block out of the DSP: the list position, and the opaque state of the accessors.\<close>

definition dma_advance :: "dma_node \<Rightarrow> 'o \<Rightarrow> 'o DSPState \<Rightarrow> 'o DSPState" where
  "dma_advance n q s = s\<lparr>dma := (dma s)\<lparr>next_block := node_next n,
     eol := eol (dma s) \<or> node_next n AND NODE_POINTER_EOL \<noteq> 0, rw_opaque := q\<rparr>\<rparr>"

subsection \<open>Lists of outgoing blocks\<close>

text \<open>The address a node uses in the scratch memory, and the circular-buffer nodes that
  \<open>dsp_dma_run\<close> skips.\<close>

definition dma_scratch_addr :: "dma_node \<Rightarrow> u32" where
  "dma_scratch_addr n = (if dma_buf_id n = 0xe then node_scratch_base n + node_scratch_offset n
     else node_scratch_offset n)"

definition dma_skipped :: "dma_node \<Rightarrow> nat \<Rightarrow> bool" where
  "dma_skipped n sz \<longleftrightarrow> dma_buf_id n = 0xe \<and>
     node_scratch_offset n + node_count n * of_nat sz \<ge> node_scratch_size n"

text \<open>The nodes of a list of outgoing blocks, from the pointer \<open>p\<close> on. The call of an accessor that a node stands for
  depends on the memory of the DSP, which these blocks do not change: the calls of a list are a fold over its nodes.\<close>

inductive out_list :: "'o DSPState \<Rightarrow> dma_node list \<Rightarrow> u32 \<Rightarrow> bool" where
  out_list_end: "p AND NODE_POINTER_EOL \<noteq> 0 \<Longrightarrow> out_list s [] p"
| out_list_node: "p AND NODE_POINTER_EOL = 0 \<Longrightarrow> dma_fetch s (p AND NODE_POINTER_VAL) = Some n
    \<Longrightarrow> shr (node_control n) 2 AND 0x3 = 0 \<Longrightarrow> shr (node_control n) 13 AND 1 = 0
    \<Longrightarrow> node_control n AND NODE_CONTROL_DIRECTION \<noteq> 0
    \<Longrightarrow> out_list s ns (node_next n) \<Longrightarrow> out_list s (n # ns) p"

definition out_call :: "'o DSPState \<Rightarrow> dma_node \<Rightarrow> 'o \<Rightarrow> 'o option" where
  "out_call s n q = do {
     (sz, msk) \<leftarrow> dma_item n;
     if dma_skipped n sz then Some q
     else do {
       (sp, a) \<leftarrow> dma_mem n;
       vs \<leftarrow> read_words (dsp56k_read_memory s sp) a (unat (node_count n));
       let buf = concat (map (item_bytes sz) vs);
       let len = unat (node_count n * of_nat sz);
       (q', buf') \<leftarrow> (if dma_buf_id n \<le> 3 then fifo_rw (dma s) q buf (dma_buf_id n) len True
         else if dma_buf_id n = 0xE \<or> dma_buf_id n = 0xF then scratch_rw (dma s) q buf (dma_scratch_addr n) len True
         else None);
       Some q' } }"

primrec out_calls :: "'o DSPState \<Rightarrow> dma_node list \<Rightarrow> 'o \<Rightarrow> 'o option" where
  "out_calls s [] q = Some q"
| "out_calls s (n # ns) q = do { q' \<leftarrow> out_call s n q; out_calls s ns q' }"

lemma read_memory_set_dma:
  "b < DSP_PERIPH_BASE \<Longrightarrow> dsp56k_read_memory (s\<lparr>dma := d\<rparr>) sp b = dsp56k_read_memory s sp b"
  by (auto simp: ram_access_defs)

lemma read_words_set_dma:
  assumes "sp = DSP_SPACE_X \<Longrightarrow> a \<le> 0x1800"
  shows "read_words (dsp56k_read_memory (s\<lparr>dma := d\<rparr>) sp) a k = read_words (dsp56k_read_memory s sp) a k"
  using assms
proof (induction k arbitrary: a)
  case (Suc k)
  have r: "dsp56k_read_memory (s\<lparr>dma := d\<rparr>) sp a = dsp56k_read_memory s sp a"
  proof (cases "sp = DSP_SPACE_X")
    case True
    then have "a < DSP_PERIPH_BASE" using Suc.prems by (auto simp: word_le_nat_alt word_less_nat_alt)
    then show ?thesis by (rule read_memory_set_dma)
  next
    case False
    then show ?thesis by (simp add: ram_access_defs)
  qed
  show ?case
  proof (cases "sp = DSP_SPACE_X \<and> a = 0x1800")
    case True
    then have "dsp56k_read_memory t sp a = None" for t :: "'a DSPState"
      by (simp add: ram_access_defs assert_def)
    then show ?thesis by simp
  next
    case False
    then have "sp = DSP_SPACE_X \<Longrightarrow> a < 0x1800" using Suc.prems by auto
    then have "sp = DSP_SPACE_X \<Longrightarrow> a + 1 \<le> 0x1800" using inc_le by blast
    then show ?thesis using Suc.IH r by (simp cong: Option.bind_cong)
  qed
qed simp

lemma dma_fetch_set_dma:
  "dma_fetch (s\<lparr>dma := d\<rparr>) (p AND NODE_POINTER_VAL) = dma_fetch s (p AND NODE_POINTER_VAL)"
proof -
  have a: "unat (p AND 0x3fff) < 2 ^ 14"
    using unat_and_mask [of p 14] by (simp add: mask_numeral)
  have "(p AND 0x3fff) + k < DSP_PERIPH_BASE" if "unat k \<le> 6" for k :: u32
  proof -
    have "unat ((p AND 0x3fff) + k) = unat (p AND 0x3fff) + unat k"
      by (rule unat_add_small) (use a that in simp)
    then show ?thesis using a that by (simp add: word_less_nat_alt)
  qed
  from this [of 0] this [of 1] this [of 2] this [of 3] this [of 4] this [of 5] this [of 6]
  show ?thesis by (simp add: dma_fetch_def read_memory_set_dma cong: Option.bind_cong)
qed

lemma advance_eq:
  "s\<lparr>dma := (if node_next n AND NODE_POINTER_EOL \<noteq> 0
      then (dma s)\<lparr>next_block := node_next n, eol := True\<rparr> else (dma s)\<lparr>next_block := node_next n\<rparr>)\<rparr>
    = dma_advance n (rw_opaque (dma s)) s"
  "(dma_advance n p s)\<lparr>dma := (dma (dma_advance n p s))\<lparr>rw_opaque := q\<rparr>\<rparr> = dma_advance n q s"
  by (cases "dma s", auto simp: dma_advance_def)

lemma dma_out_call:
  assumes i: "dma_item n = Some (sz, msk)" and m: "dma_mem n = Some (sp, a)" and k: "\<not> dma_skipped n sz"
  shows "dma_out (dma_advance n (rw_opaque (dma s)) s) n sz (dma_scratch_addr n) sp a
    = map_option (\<lambda>q. dma_advance n q s) (out_call s n (rw_opaque (dma s)))"
proof -
  let ?s = "dma_advance n (rw_opaque (dma s)) s"
  have rd: "read_words (dsp56k_read_memory ?s sp) a l = read_words (dsp56k_read_memory s sp) a l" for l
    unfolding dma_advance_def by (rule read_words_set_dma) (use dma_mem_space [OF m] in auto)
  have d: "scratch_rw (dma ?s) = scratch_rw (dma s)" "fifo_rw (dma ?s) = fifo_rw (dma s)" "rw_opaque (dma ?s) = rw_opaque (dma s)"
    by (simp_all add: dma_advance_def)
  have b: "(x \<bind> (\<lambda>(q, b). Some (f q))) = map_option f (x \<bind> (\<lambda>(q, b). Some q))" for x :: "('a \<times> u8 list) option" and f :: "'a \<Rightarrow> 'a DSPState"
    by (cases x) auto
  show ?thesis
  proof (cases "read_words (dsp56k_read_memory s sp) a (unat (node_count n))")
    case None
    then show ?thesis by (simp add: dma_out_def out_call_def i m k rd)
  next
    case (Some vs)
    then show ?thesis unfolding dma_out_def out_call_def i m rd Option.bind.bind_lunit prod.case d Let_def advance_eq(2)
      using k by (simp add: b)
  qed
qed

lemma out_block:
  assumes f: "dma_fetch s (next_block (dma s) AND NODE_POINTER_VAL) = Some n"
    and c: "shr (node_control n) 2 AND 0x3 = 0" "shr (node_control n) 13 AND 1 = 0" "node_control n AND NODE_CONTROL_DIRECTION \<noteq> 0"
  shows "dsp_dma_block s = map_option (\<lambda>q. dma_advance n q s) (out_call s n (rw_opaque (dma s)))"
proof (cases "dma_item n")
  case None
  then show ?thesis unfolding dsp_dma_block_def f Option.bind.bind_lunit Let_def by (simp add: c out_call_def)
next
  case (Some p)
  then obtain sz msk where i: "dma_item n = Some (sz, msk)" by (cases p) simp
  show ?thesis
  proof (cases "dma_skipped n sz")
    case True
    then show ?thesis unfolding dsp_dma_block_def f Option.bind.bind_lunit Let_def advance_eq(1)
      by (simp add: c i out_call_def dma_skipped_def)
  next
    case False
    have d: "dsp_dma_block s = do { (sp, a) \<leftarrow> dma_mem n; dma_out (dma_advance n (rw_opaque (dma s)) s) n sz (dma_scratch_addr n) sp a }"
      using False c unfolding dsp_dma_block_def f Option.bind.bind_lunit Let_def advance_eq(1) i
      by (auto simp: dma_skipped_def dma_scratch_addr_def)
    show ?thesis
    proof (cases "dma_mem n")
      case None
      then show ?thesis unfolding d by (simp add: out_call_def i False)
    next
      case (Some r)
      obtain sp a where m: "dma_mem n = Some (sp, a)" using Some by (cases r) simp
      show ?thesis unfolding d m Option.bind.bind_lunit prod.case by (rule dma_out_call [OF i m False])
    qed
  qed
qed

text \<open>The accessors are the only part of the engine that a call depends on.\<close>

lemma out_call_set_dma:
  assumes "scratch_rw d = scratch_rw (dma s)" and "fifo_rw d = fifo_rw (dma s)"
  shows "out_call (s\<lparr>dma := d\<rparr>) n q = out_call s n q"
proof -
  have "read_words (dsp56k_read_memory (s\<lparr>dma := d\<rparr>) sp) a k = read_words (dsp56k_read_memory s sp) a k"
    if "dma_mem n = Some (sp, a)" for sp a k
    by (rule read_words_set_dma) (use dma_mem_space [OF that] in auto)
  then show ?thesis using assms
    by (cases "dma_item n"; cases "dma_mem n") (auto simp: out_call_def Let_def cong: if_cong)
qed

abbreviation "out_end ns p \<equiv> (if ns = [] then p else node_next (last ns))"

lemma out_list_loop:
  assumes "out_list s ns p"
  shows "next_block d = p \<Longrightarrow> scratch_rw d = scratch_rw (dma s) \<Longrightarrow> fifo_rw d = fifo_rw (dma s)
    \<Longrightarrow> dsp_dma_loop (s\<lparr>dma := d\<rparr>) = map_option (\<lambda>q. s\<lparr>dma := d\<lparr>next_block := out_end ns p, eol := eol d \<or> ns \<noteq> [], rw_opaque := q\<rparr>\<rparr>)
      (out_calls s ns (rw_opaque d))"
  using assms
proof (induction arbitrary: d rule: out_list.induct)
  case (out_list_end p s)
  then show ?case by (subst dsp_dma_loop.simps) (cases d, auto)
next
  case (out_list_node p s n ns)
  let ?s = "s\<lparr>dma := d\<rparr>"
  have "dma_fetch ?s (next_block (dma ?s) AND NODE_POINTER_VAL) = Some n"
    using out_list_node.hyps out_list_node.prems by (simp add: dma_fetch_set_dma)
  from out_block [OF this out_list_node.hyps(3-5)]
  have b: "dsp_dma_block ?s = map_option (\<lambda>q. dma_advance n q ?s) (out_call s n (rw_opaque d))"
    using out_call_set_dma [OF out_list_node.prems(2,3)] by simp
  have "next_block (dma ?s) AND NODE_POINTER_EOL = 0" using out_list_node.hyps(1) out_list_node.prems(1) by simp
  then have l: "dsp_dma_loop ?s = do { t \<leftarrow> dsp_dma_block ?s; dsp_dma_loop t }" by (subst dsp_dma_loop.simps) simp
  show ?case
  proof (cases "out_call s n (rw_opaque d)")
    case None
    then show ?thesis unfolding l b by simp
  next
    case (Some q)
    let ?d = "dma (dma_advance n q ?s)"
    have e: "dma_advance n q ?s = s\<lparr>dma := ?d\<rparr>" by (simp add: dma_advance_def)
    have d: "next_block ?d = node_next n" "scratch_rw ?d = scratch_rw (dma s)" "fifo_rw ?d = fifo_rw (dma s)" "rw_opaque ?d = q"
      using out_list_node.prems by (simp_all add: dma_advance_def)
    have "node_next n AND NODE_POINTER_EOL \<noteq> 0 \<longleftrightarrow> ns = []" using out_list_node.hyps(6) by (auto elim: out_list.cases)
    then have f: "?d\<lparr>next_block := out_end ns (node_next n), eol := eol ?d \<or> ns \<noteq> [], rw_opaque := r\<rparr>
        = d\<lparr>next_block := out_end (n # ns) p, eol := eol d \<or> n # ns \<noteq> [], rw_opaque := r\<rparr>" for r
      by (cases d) (auto simp: dma_advance_def)
    have "dsp_dma_loop ?s = dsp_dma_loop (s\<lparr>dma := ?d\<rparr>)" unfolding l b Some by (simp add: e [symmetric])
    also have "\<dots> = map_option (\<lambda>r. s\<lparr>dma := d\<lparr>next_block := out_end (n # ns) p, eol := eol d \<or> n # ns \<noteq> [], rw_opaque := r\<rparr>\<rparr>)
        (out_calls s ns q)" using out_list_node.IH [OF d(1-3)] unfolding f d(4) .
    finally show ?thesis by (simp add: Some)
  qed
qed

subsection \<open>Properties of the engine\<close>

lemma dma_block_cases:
  assumes f: "dma_fetch s (next_block (dma s) AND NODE_POINTER_VAL) = Some n"
    and i: "dma_item n = Some (sz, msk)" and m: "dma_mem n = Some (sp, a)"
    and b: "dsp_dma_block s = Some t" and k: "\<not> dma_skipped n sz"
  shows "node_control n AND NODE_CONTROL_DIRECTION \<noteq> 0 \<Longrightarrow>
      dma_out (dma_advance n (rw_opaque (dma s)) s) n sz (dma_scratch_addr n) sp a = Some t"
    and "node_control n AND NODE_CONTROL_DIRECTION = 0 \<Longrightarrow>
      dma_in (dma_advance n (rw_opaque (dma s)) s) n sz msk (dma_scratch_addr n) sp a = Some t"
proof -
  have set: "s\<lparr>dma := (if node_next n AND NODE_POINTER_EOL \<noteq> 0
      then (dma s)\<lparr>next_block := node_next n, eol := True\<rparr> else (dma s)\<lparr>next_block := node_next n\<rparr>)\<rparr>
    = dma_advance n (rw_opaque (dma s)) s"
    by (cases "dma s") (auto simp: dma_advance_def)
  note d = b [unfolded dsp_dma_block_def f Option.bind.bind_lunit Let_def set i m prod.case]
  show "node_control n AND NODE_CONTROL_DIRECTION \<noteq> 0 \<Longrightarrow>
      dma_out (dma_advance n (rw_opaque (dma s)) s) n sz (dma_scratch_addr n) sp a = Some t"
    and "node_control n AND NODE_CONTROL_DIRECTION = 0 \<Longrightarrow>
      dma_in (dma_advance n (rw_opaque (dma s)) s) n sz msk (dma_scratch_addr n) sp a = Some t"
    using d k by (auto simp: dma_skipped_def dma_scratch_addr_def split: if_splits)
qed

lemma length_read_words: "read_words rd a k = Some vs \<Longrightarrow> length vs = k"
  by (induction k arbitrary: a vs) (auto simp: bind_Some_iff)

text \<open>C5: an incoming block (scratch memory to DSP). When one iteration of \<open>dsp_dma_run\<close>
  processes a node with the direction bit clear and does not skip it, the accessor has been asked
  for \<open>count\<close> items at the node's scratch address, and afterwards the \<open>count\<close> words from the
  node's DSP address on are exactly the items the accessor returned (masked to 24 bits in the
  32-bit formats), while every other word of the three memories is unchanged.\<close>

theorem dma_block_in:
  assumes f: "dma_fetch s (next_block (dma s) AND NODE_POINTER_VAL) = Some n"
    and i: "dma_item n = Some (sz, msk)" and m: "dma_mem n = Some (sp, a)"
    and b: "dsp_dma_block s = Some t" and k: "\<not> dma_skipped n sz"
    and dir: "node_control n AND NODE_CONTROL_DIRECTION = 0"
    and ok: "\<forall>j < unat (node_count n). ram_mapped sp (a + of_nat j)"
  shows "\<exists>q buf vs.
      scratch_rw (dma s) (rw_opaque (dma s)) (replicate (unat (node_count n) * sz) 0) (dma_scratch_addr n)
        (unat (node_count n * of_nat sz)) False = Some (q, buf)
    \<and> item_words sz buf (unat (node_count n)) = Some vs
    \<and> read_words (dsp56k_read_memory t sp) a (unat (node_count n)) =
        Some (map (\<lambda>v. if sz = 4 then v AND msk else v) vs)
    \<and> (\<forall>sp' b. ram_mapped sp' b \<and> (sp' \<noteq> sp \<or> (\<forall>j < unat (node_count n). b \<noteq> a + of_nat j)) \<longrightarrow>
        dsp56k_read_memory t sp' b = dsp56k_read_memory s sp' b)"
proof -
  let ?s = "dma_advance n (rw_opaque (dma s)) s"
  have dma: "scratch_rw (dma ?s) = scratch_rw (dma s)" "rw_opaque (dma ?s) = rw_opaque (dma s)"
    by (simp_all add: dma_advance_def)
  have rd: "ram_mapped sp' b \<Longrightarrow> dsp56k_read_memory ?s sp' b = dsp56k_read_memory s sp' b" for sp' b
    unfolding dma_advance_def by (rule read_memory_dma_update)
  obtain q buf vs where
    "scratch_rw (dma s) (rw_opaque (dma s)) (replicate (unat (node_count n) * sz) 0) (dma_scratch_addr n)
        (unat (node_count n * of_nat sz)) False = Some (q, buf)"
    "item_words sz buf (unat (node_count n)) = Some vs"
    "read_words (dsp56k_read_memory t sp) a (unat (node_count n)) =
        Some (map (\<lambda>v. if sz = 4 then v AND msk else v) vs)"
    "\<And>sp' b. ram_mapped sp' b \<Longrightarrow> sp' \<noteq> sp \<or> (\<forall>i < unat (node_count n). b \<noteq> a + of_nat i) \<Longrightarrow>
       dsp56k_read_memory t sp' b = dsp56k_read_memory ?s sp' b"
    by (rule dma_in_spec [OF m dma_block_cases(2) [OF f i m b k dir] ok, unfolded dma]) blast
  then show ?thesis using rd by auto
qed

declare dsp_dma_loop.simps [code]

text \<open>A small instance for the witnesses: accessors that accept everything and deliver the byte
  \<open>0x42\<close>, and an X memory that starts with the given words.\<close>

definition demo_scratch :: "unit rw_func" where
  "demo_scratch q buf a len dir = Some (q, if dir then buf else map (\<lambda>_. 0x42) buf)"

definition demo_list :: "u32 \<Rightarrow> u32 list \<Rightarrow> unit DSPState" where
  "demo_list nb ws = (let s = dsp_init () demo_scratch demo_scratch
     in s\<lparr>xram := (\<lambda>i. if unat i < length ws then ws ! unat i else 0), dma := (dma s)\<lparr>next_block := nb\<rparr>\<rparr>)"

abbreviation "demo_in_node \<equiv> \<lparr>node_next = 0x4000, node_control = 0x9e0, node_count = 1, node_dsp_offset = 0x100, 
       node_scratch_offset = 0, node_scratch_base = 0, node_scratch_size = 1\<rparr>"
theorem dma_block_in_witness:
  "\<exists>t. dsp_dma_block (demo_list 0 [0x4000, 0x9e0, 1, 0x100, 0, 0, 0]) = Some t
     \<and> (\<exists>vs. read_words (dsp56k_read_memory t DSP_SPACE_X) 0x100 1 = Some vs)"
proof -
  let ?s = "demo_list 0 [0x4000, 0x9e0, 1, 0x100, 0, 0, 0]"
  have "dsp_dma_block ?s \<noteq> None" by code_simp
  then obtain t where t: "dsp_dma_block ?s = Some t" by blast
  have "next_block (dma ?s) AND NODE_POINTER_VAL = 0" "dma_fetch ?s 0 = Some demo_in_node" by code_simp+
  then have f: "dma_fetch ?s (next_block (dma ?s) AND NODE_POINTER_VAL) = Some demo_in_node" by simp
  have i: "dma_item demo_in_node = Some (4, 0xffffff)" by code_simp
  have m: "dma_mem demo_in_node = Some (DSP_SPACE_X, 0x100)" by code_simp
  have k: "\<not> dma_skipped demo_in_node 4" by code_simp
  have d: "node_control demo_in_node AND NODE_CONTROL_DIRECTION = 0" by code_simp
  have "ram_mapped DSP_SPACE_X 0x100" by code_simp
  then have "\<forall>j < unat (node_count demo_in_node). ram_mapped DSP_SPACE_X (0x100 + of_nat j)" by simp
  from dma_block_in [OF f i m t k d this] t show ?thesis by auto
qed

text \<open>C6: an outgoing block (DSP to FIFO or scratch memory). The buffer handed to the accessor
  has \<open>count * item_size\<close> bytes and decodes, item by item, to the words read from the DSP
  memory (truncated to 16 bits in the 16-bit format); FIFO numbers 0-3 go to \<open>fifo_rw\<close>, the
  scratch buffers to \<open>scratch_rw\<close>; nothing of the DSP changes but the list position.\<close>

theorem dma_block_out:
  assumes f: "dma_fetch s (next_block (dma s) AND NODE_POINTER_VAL) = Some n"
    and i: "dma_item n = Some (sz, msk)" and m: "dma_mem n = Some (sp, a)"
    and b: "dsp_dma_block s = Some t" and k: "\<not> dma_skipped n sz"
    and dir: "node_control n AND NODE_CONTROL_DIRECTION \<noteq> 0"
  shows "\<exists>vs buf q buf'.
      read_words (dsp56k_read_memory s sp) a (unat (node_count n)) = Some vs
    \<and> item_words sz buf (length vs) = Some (map (truncate_item sz) vs)
    \<and> length buf = unat (node_count n) * sz
    \<and> (if dma_buf_id n \<le> 3 then fifo_rw (dma s) (rw_opaque (dma s)) buf (dma_buf_id n)
          (unat (node_count n * of_nat sz)) True = Some (q, buf')
       else scratch_rw (dma s) (rw_opaque (dma s)) buf (dma_scratch_addr n)
          (unat (node_count n * of_nat sz)) True = Some (q, buf'))
    \<and> t = dma_advance n q s"
proof -
  let ?s = "dma_advance n (rw_opaque (dma s)) s"
  have dma: "scratch_rw (dma ?s) = scratch_rw (dma s)" "fifo_rw (dma ?s) = fifo_rw (dma s)"
    "rw_opaque (dma ?s) = rw_opaque (dma s)"
    "?s\<lparr>dma := (dma ?s)\<lparr>rw_opaque := q\<rparr>\<rparr> = dma_advance n q s" for q
    by (simp_all add: dma_advance_def)
  have rd: "read_words (dsp56k_read_memory ?s sp) a l = read_words (dsp56k_read_memory s sp) a l" for l
    unfolding dma_advance_def by (rule read_words_set_dma) (use dma_mem_space [OF m] in auto)
  have sz: "sz = 2 \<or> sz = 4" using i by (auto simp: dma_item_def Let_def split: if_splits)
  obtain vs where vs: "read_words (dsp56k_read_memory s sp) a (unat (node_count n)) = Some vs"
    using dma_block_cases(1) [OF f i m b k dir] by (auto simp: dma_out_def rd bind_Some_iff)
  let ?buf = "concat (map (item_bytes sz) vs)"
  have "length ?buf = unat (node_count n) * sz"
    using sz length_read_words [OF vs] by (auto simp: length_concat_item_bytes)
  moreover have "\<exists>q buf'. (if dma_buf_id n \<le> 3 then fifo_rw (dma s) (rw_opaque (dma s)) ?buf (dma_buf_id n)
          (unat (node_count n * of_nat sz)) True = Some (q, buf')
       else scratch_rw (dma s) (rw_opaque (dma s)) ?buf (dma_scratch_addr n)
          (unat (node_count n * of_nat sz)) True = Some (q, buf')) \<and> t = dma_advance n q s"
    using dma_block_cases(1) [OF f i m b k dir]
    by (auto simp: dma_out_def rd vs Let_def dma bind_Some_iff split: if_splits)
  ultimately show ?thesis using vs item_roundtrip [of sz vs] by blast
qed

abbreviation "demo_out_node \<equiv> \<lparr>node_next = 0x4000, node_control = 0x9e2, node_count = 2, node_dsp_offset = 1,
       node_scratch_offset = 8, node_scratch_base = 0, node_scratch_size = 1\<rparr>"

theorem dma_block_out_witness:
  "\<exists>t q. dsp_dma_block (demo_list 0 [0x4000, 0x9e2, 2, 1, 8, 0, 0]) = Some t
     \<and> t = dma_advance demo_out_node q (demo_list 0 [0x4000, 0x9e2, 2, 1, 8, 0, 0])"
proof -
  let ?s = "demo_list 0 [0x4000, 0x9e2, 2, 1, 8, 0, 0]"
  have "dsp_dma_block ?s \<noteq> None" by code_simp
  then obtain t where t: "dsp_dma_block ?s = Some t" by blast
  have "next_block (dma ?s) AND NODE_POINTER_VAL = 0" "dma_fetch ?s 0 = Some demo_out_node" by code_simp+
  then have f: "dma_fetch ?s (next_block (dma ?s) AND NODE_POINTER_VAL) = Some demo_out_node" by simp
  have i: "dma_item demo_out_node = Some (4, 0xffffff)" by code_simp
  have m: "dma_mem demo_out_node = Some (DSP_SPACE_X, 1)" by code_simp
  have k: "\<not> dma_skipped demo_out_node 4" by code_simp
  have d: "node_control demo_out_node AND NODE_CONTROL_DIRECTION \<noteq> 0" by code_simp
  from dma_block_out [OF f i m t k d] t show ?thesis by auto
qed

text \<open>C7: a list of outgoing blocks. If the nodes \<open>ns\<close>, read by following the \<open>next\<close> pointers from the current block to an
  end-of-list pointer, all have the direction bit set and pass the assertions on their control word, then the loop performs the accessor calls
  of the nodes, in order, on the words that the nodes name, and nothing else: it returns if and only if all of these calls
  return, then with the accessor state after them, at the end-of-list pointer, with the end-of-list flag raised if there was a block,
  and the rest of the state (registers, memories, stack, program counter, interrupts) as it was.\<close>

theorem dma_out_list_transfers:
  assumes "out_list s ns (next_block (dma s))"
  shows "dsp_dma_loop s = map_option (\<lambda>q. s\<lparr>dma := (dma s)\<lparr>next_block := (if ns = [] then next_block (dma s) else node_next (last ns)),
      eol := eol (dma s) \<or> ns \<noteq> [], rw_opaque := q\<rparr>\<rparr>) (out_calls s ns (rw_opaque (dma s)))"
  using out_list_loop [OF assms, of "dma s"] by simp

theorem dma_out_list_transfers_witness:
  "\<exists>t. dsp_dma_loop (demo_list 0 [0x4000, 0x9e2, 2, 1, 8, 0, 0]) = Some t \<and> eol (dma t) \<and> next_block (dma t) = 0x4000"
proof -
  let ?s = "demo_list 0 [0x4000, 0x9e2, 2, 1, 8, 0, 0]"
  have e: "next_block (dma ?s) = 0" "dma_fetch ?s 0 = Some demo_out_node" "out_calls ?s [demo_out_node] () = Some ()" by code_simp+
  have "out_list ?s [] (node_next demo_out_node)" by (rule out_list_end) simp
  then have "out_list ?s [demo_out_node] (next_block (dma ?s))"
    unfolding e(1) by (rule out_list_node [rotated 5]) (simp_all add: e)
  from dma_out_list_transfers [OF this] show ?thesis using e(3) by simp
qed

text \<open>C8: the loop does not return on a list with a cycle. A circular-buffer node that does not
  fit its buffer is skipped; if such a node points to itself, the loop never ends, and with it the
  write to the DMA control register that started it.\<close>

theorem dma_self_loop_hangs:
  assumes f: "dma_fetch s (next_block (dma s) AND NODE_POINTER_VAL) = Some n"
    and nx: "node_next n = next_block (dma s)" and e: "next_block (dma s) AND NODE_POINTER_EOL = 0"
    and c: "shr (node_control n) 2 AND 0x3 = 0" "shr (node_control n) 13 AND 1 = 0"
    and i: "dma_item n = Some (sz, msk)" and k: "dma_skipped n sz"
  shows "dsp_dma_loop s = None"
proof -
  have "dsp_dma_block s = Some s"
    using k unfolding dsp_dma_block_def f Option.bind.bind_lunit Let_def i
    by (simp add: nx e c dma_skipped_def)
  then have "\<not> dma_chain s t" for t using dma_chain_stuck [of s t] e by blast
  then show ?thesis using dma_loop_chain by (metis option.exhaust)
qed

abbreviation "demo_loop_node \<equiv> \<lparr>node_next = 0, node_control = 0x9c0, node_count = 1, node_dsp_offset = 0,
       node_scratch_offset = 0, node_scratch_base = 0, node_scratch_size = 1\<rparr>"

theorem dma_self_loop_hangs_witness: "dsp_dma_loop (demo_list 0 [0, 0x9c0, 1, 0, 0, 0, 0]) = None"
proof -
  let ?s = "demo_list 0 [0, 0x9c0, 1, 0, 0, 0, 0]"
  have z: "next_block (dma ?s) = 0" "dma_fetch ?s 0 = Some demo_loop_node" by code_simp+
  have i: "dma_item demo_loop_node = Some (4, 0xffffff)" "dma_skipped demo_loop_node 4" by code_simp+
  show ?thesis
    by (rule dma_self_loop_hangs [where n = demo_loop_node and sz = 4 and msk = "0xffffff"]) (simp_all add: z i)
qed

end
