(* ===== verification/Dsp_Stack.thy ===== *)
theory Dsp_Stack
  imports Dsp_State
begin

text \<open>
  Posting of interrupts, the hardware stack and the register write port of the core
  (\<open>dsp56k_add_interrupt\<close>, \<open>dsp_stack_push\<close>, \<open>dsp_stack_pop\<close>, \<open>dsp_compute_ssh_ssl\<close> and
  \<open>dsp_write_reg\<close> of \<open>dsp_cpu.c\<close>).

  The stack has sixteen entries of which entry 0 is not used; \<open>SP\<close> holds the index of the
  top entry in its low four bits and two error bits above; \<open>SSH\<close> and \<open>SSL\<close> mirror the
  top entry. Its contract is stated as the locale \<open>bounded_lifo\<close>, a last-in first-out
  list of at most fifteen frames, and the functions of the source are shown to implement it.
\<close>

subsection \<open>Operations\<close>

definition dsp56k_add_interrupt :: "'a dsp_core_scheme \<Rightarrow> u32 \<Rightarrow> 'a dsp_core_scheme" where
  "dsp56k_add_interrupt s i =
     (if interrupt_ipl s i = -1 then s
      else if interrupt_is_pending s i = 0 then
        s\<lparr>interrupt_is_pending := (interrupt_is_pending s)(i := 1),
          interrupt_counter := interrupt_counter s + 1\<rparr>
      else s)"

definition set_stack :: "u32 \<Rightarrow> u32 \<Rightarrow> u32 \<Rightarrow> 'a dsp_core_scheme \<Rightarrow> 'a dsp_core_scheme" where
  "set_stack part k v s = s\<lparr>stack := (stack s)(part := (stack s part)(k := v))\<rparr>"

text \<open>A stack error posts an interrupt and aborts when exceptions are debugged, which they are
  after a reset.\<close>

definition stack_fault :: "'a dsp_core_scheme \<Rightarrow> 'a dsp_core_scheme option" where
  "stack_fault s = do {
     let s = dsp56k_add_interrupt s DSP_INTER_STACK_ERROR;
     assert (\<not> exception_debugging s);
     Some s }"

definition dsp_stack_push ::
  "'a dsp_core_scheme \<Rightarrow> u32 \<Rightarrow> u32 \<Rightarrow> u16 \<Rightarrow> 'a dsp_core_scheme option" where
  "dsp_stack_push s curpc cursr sshOnly = do {
     let stack_error = reg DSP_REG_SP s AND shl 1 DSP_SP_SE;
     let underflow = reg DSP_REG_SP s AND shl 1 DSP_SP_UF;
     let stk = (reg DSP_REG_SP s AND BITMASK 4) + 1;
     s \<leftarrow> (if stack_error = 0 \<and> stk AND shl 1 DSP_SP_SE \<noteq> 0 then stack_fault s else Some s);
     let s = set_reg DSP_REG_SP ((underflow OR stack_error OR stk) AND BITMASK 6) s;
     let stk = stk AND BITMASK 4;
     let s = (if stk \<noteq> 0 then
                let s = set_stack 0 stk (curpc AND BITMASK 16) s
                in if sshOnly = 0 then set_stack 1 stk (cursr AND BITMASK 16) s else s
              else set_stack 1 0 0 (set_stack 0 0 0 s));
     let s = set_reg DSP_REG_SSH (stack s 0 stk) s;
     Some (set_reg DSP_REG_SSL (stack s 1 stk) s) }"

text \<open>The two output parameters of \<open>dsp_stack_pop\<close> are the first two components of the result.\<close>

definition dsp_stack_pop :: "'a dsp_core_scheme \<Rightarrow> (u32 \<times> u32 \<times> 'a dsp_core_scheme) option" where
  "dsp_stack_pop s = do {
     let stack_error = reg DSP_REG_SP s AND shl 1 DSP_SP_SE;
     let underflow = reg DSP_REG_SP s AND shl 1 DSP_SP_UF;
     let stk = (reg DSP_REG_SP s AND BITMASK 4) - 1;
     s \<leftarrow> (if stack_error = 0 \<and> stk AND shl 1 DSP_SP_SE \<noteq> 0 then stack_fault s else Some s);
     let s = set_reg DSP_REG_SP ((underflow OR stack_error OR stk) AND BITMASK 6) s;
     let stk = stk AND BITMASK 4;
     let newpc = reg DSP_REG_SSH s;
     let newsr = reg DSP_REG_SSL s;
     let s = set_reg DSP_REG_SSH (stack s 0 stk) s;
     Some (newpc, newsr, set_reg DSP_REG_SSL (stack s 1 stk) s) }"

definition dsp_compute_ssh_ssl :: "'a dsp_core_scheme \<Rightarrow> 'a dsp_core_scheme" where
  "dsp_compute_ssh_ssl s =
     (let stk = reg DSP_REG_SP s AND BITMASK 4
      in set_reg DSP_REG_SSL (stack s 1 stk) (set_reg DSP_REG_SSH (stack s 0 stk) s))"

definition dsp_write_reg :: "'a dsp_core_scheme \<Rightarrow> u32 \<Rightarrow> u32 \<Rightarrow> 'a dsp_core_scheme option" where
  "dsp_write_reg s numreg value =
     (if numreg = DSP_REG_A then
        Some (set_reg DSP_REG_A2 (if value AND shl 1 23 \<noteq> 0 then 0xff else 0x0)
               (set_reg DSP_REG_A1 value (set_reg DSP_REG_A0 0 s)))
      else if numreg = DSP_REG_B then
        Some (set_reg DSP_REG_B2 (if value AND shl 1 23 \<noteq> 0 then 0xff else 0x0)
               (set_reg DSP_REG_B1 value (set_reg DSP_REG_B0 0 s)))
      else if numreg = DSP_REG_OMR then Some (set_reg DSP_REG_OMR (value AND 0xc7) s)
      else if numreg = DSP_REG_SR then Some (set_reg DSP_REG_SR (value AND 0xaf7f) s)
      else if numreg = DSP_REG_SP then do {
        let stack_error = reg DSP_REG_SP s AND shl 3 DSP_SP_SE;
        s \<leftarrow> (if stack_error = 0 \<and> value AND shl 3 DSP_SP_SE \<noteq> 0 then do {
                 let s = dsp56k_add_interrupt s DSP_INTER_STACK_ERROR;
                 let s = set_reg DSP_REG_SP (value AND shl 3 DSP_SP_SE) s;
                 assert (\<not> exception_debugging s);
                 Some s }
              else Some (set_reg DSP_REG_SP (value AND BITMASK 6) s));
        Some (dsp_compute_ssh_ssl s) }
      else if numreg = DSP_REG_SSH then dsp_stack_push s value 0 1
      else if numreg = DSP_REG_SSL then
        (let k = reg DSP_REG_SP s AND BITMASK 4;
             value = (if k = 0 then 0 else value);
             s = set_stack 1 k (value AND BITMASK 16) s
         in Some (set_reg DSP_REG_SSL (value AND BITMASK 16) s))
      else Some (set_reg numreg (value AND BITMASK (registers_mask numreg)) s))"

subsection \<open>Frame facts\<close>

lemma add_interrupt_frame [simp]:
  "registers (dsp56k_add_interrupt s i) = registers s"
  "stack (dsp56k_add_interrupt s i) = stack s"
  "pc (dsp56k_add_interrupt s i) = pc s"
  "exception_debugging (dsp56k_add_interrupt s i) = exception_debugging s"
  "reg r (dsp56k_add_interrupt s i) = reg r s"
  by (simp_all add: dsp56k_add_interrupt_def reg_def)

lemma set_stack_frame [simp]:
  "registers (set_stack p k v s) = registers s"
  "reg r (set_stack p k v s) = reg r s"
  "pc (set_stack p k v s) = pc s"
  "exception_debugging (set_stack p k v s) = exception_debugging s"
  "stack (set_stack p k v s) q j = (if q = p \<and> j = k then v else stack s q j)"
  by (simp_all add: set_stack_def reg_def)

subsection \<open>A bounded last-in first-out store\<close>

primrec pushes :: "('s \<Rightarrow> 'f \<Rightarrow> 's option) \<Rightarrow> 's \<Rightarrow> 'f list \<Rightarrow> 's option" where
  "pushes push s [] = Some s"
| "pushes push s (f # fs) = do { t \<leftarrow> push s f; pushes push t fs }"

primrec pops :: "('s \<Rightarrow> ('f \<times> 's) option) \<Rightarrow> nat \<Rightarrow> 's \<Rightarrow> ('f list \<times> 's) option" where
  "pops pop 0 s = Some ([], s)"
| "pops pop (Suc n) s = do { (f, t) \<leftarrow> pop s; (fs, u) \<leftarrow> pops pop n t; Some (f # fs, u) }"

locale bounded_lifo =
  fixes push :: "'s \<Rightarrow> 'f \<Rightarrow> 's option"
    and pop :: "'s \<Rightarrow> ('f \<times> 's) option"
    and content :: "'s \<Rightarrow> 'f list"
    and wf :: "'s \<Rightarrow> bool"
    and store :: "'f \<Rightarrow> 'f"
    and depth :: nat
  assumes content_bound: "wf s \<Longrightarrow> length (content s) \<le> depth"
    and push_room: "wf s \<Longrightarrow> length (content s) < depth \<Longrightarrow>
      \<exists>t. push s f = Some t \<and> wf t \<and> content t = store f # content s"
    and push_full: "wf s \<Longrightarrow> length (content s) = depth \<Longrightarrow> push s f = None"
    and pop_top: "wf s \<Longrightarrow> content s = f # fs \<Longrightarrow> \<exists>t. pop s = Some (f, t) \<and> wf t \<and> content t = fs"
    and pop_empty: "wf s \<Longrightarrow> content s = [] \<Longrightarrow> pop s = None"
begin

lemma pushes_content:
  assumes "wf s" and "pushes push s fs = Some t"
  shows "wf t \<and> content t = rev (map store fs) @ content s"
  using assms
proof (induction fs arbitrary: s)
  case (Cons f fs)
  obtain u where u: "push s f = Some u" and t: "pushes push u fs = Some t"
    using Cons.prems(2) by (auto simp: bind_Some_iff)
  have "length (content s) \<noteq> depth" using push_full [OF Cons.prems(1)] u by force
  then have "length (content s) < depth" using content_bound [OF Cons.prems(1)] by simp
  then have "wf u" "content u = store f # content s" using push_room [OF Cons.prems(1), of f] u by auto
  then show ?case using Cons.IH [OF _ t] by simp
qed simp

lemma pushes_succeed_iff:
  assumes "wf s"
  shows "(\<exists>t. pushes push s fs = Some t) \<longleftrightarrow> length (content s) + length fs \<le> depth"
  using assms
proof (induction fs arbitrary: s)
  case Nil
  then show ?case using content_bound by simp
next
  case (Cons f fs)
  show ?case
  proof (cases "length (content s) < depth")
    case True
    then obtain u where "push s f = Some u" "wf u" "content u = store f # content s"
      using push_room [OF Cons.prems] by blast
    then show ?thesis using Cons.IH [of u] by simp
  next
    case False
    then have "push s f = None" using push_full [OF Cons.prems] content_bound [OF Cons.prems] by simp
    then show ?thesis using False by simp
  qed
qed

lemma pops_content:
  assumes "wf s" and "content s = fs @ rest"
  shows "\<exists>t. pops pop (length fs) s = Some (fs, t) \<and> wf t \<and> content t = rest"
  using assms
proof (induction fs arbitrary: s)
  case (Cons f fs)
  then obtain u where "pop s = Some (f, u)" "wf u" "content u = fs @ rest"
    using pop_top [of s f "fs @ rest"] by auto
  then show ?case using Cons.IH [of u] by auto
qed simp

lemma pops_pushes:
  assumes "wf s" and "pushes push s fs = Some t"
  shows "\<exists>u. pops pop (length fs) t = Some (rev (map store fs), u) \<and> wf u \<and> content u = content s"
  using pops_content [of t "rev (map store fs)" "content s"] pushes_content [OF assms] by simp

end

text \<open>The frames on the hardware stack, top first, and the states in which the mirrors are
  right and no stack error is pending.\<close>

definition stack_frames :: "'a dsp_core_scheme \<Rightarrow> (u32 \<times> u32) list" where
  "stack_frames s = map (\<lambda>k. (stack s 0 (of_nat k), stack s 1 (of_nat k))) (rev [1..<Suc (unat (reg DSP_REG_SP s))])"

definition stack_wf :: "'a dsp_core_scheme \<Rightarrow> bool" where
  "stack_wf s \<longleftrightarrow> exception_debugging s \<and> reg DSP_REG_SP s < 16
     \<and> reg DSP_REG_SSH s = stack s 0 (reg DSP_REG_SP s)
     \<and> reg DSP_REG_SSL s = stack s 1 (reg DSP_REG_SP s)"

definition push_frame :: "'a dsp_core_scheme \<Rightarrow> u32 \<times> u32 \<Rightarrow> 'a dsp_core_scheme option" where
  "push_frame s f = dsp_stack_push s (fst f) (snd f) 0"

definition pop_frame :: "'a dsp_core_scheme \<Rightarrow> ((u32 \<times> u32) \<times> 'a dsp_core_scheme) option" where
  "pop_frame s = map_option (\<lambda>(p, r, t). ((p, r), t)) (dsp_stack_pop s)"

definition store_frame :: "u32 \<times> u32 \<Rightarrow> u32 \<times> u32" where
  "store_frame f = (fst f AND BITMASK 16, snd f AND BITMASK 16)"

lemma small_masks:
  assumes "fits 4 w"
  shows "w AND 0xf = w" "w AND 0x3f = w" "w AND 0x10 = 0" "w AND 0x20 = 0"
proof -
  have b: "bit w n \<Longrightarrow> n < 4" for n using assms by (simp add: fits_iff_bit)
  have "w AND mask 4 = w" "w AND mask 6 = w"
    using b by (auto intro!: bit_word_eqI simp: bit_simps simp del: mask_u32_values) fastforce
  then show "w AND 0xf = w" "w AND 0x3f = w" by simp_all
  have "w AND shl 1 j = 0" if "4 \<le> j" for j
    using b that by (auto intro!: bit_word_eqI simp: bit_simps) fastforce
  from this [of 4] this [of 5] show "w AND 0x10 = 0" "w AND 0x20 = 0"
    by (simp_all add: push_bit_eq_mult)
qed

lemma sp_fits: "w < (16::u32) \<longleftrightarrow> fits 4 w"
  by (simp add: fits_iff_unat word_less_nat_alt)

lemma stack_frames_Suc:
  assumes "reg DSP_REG_SP t = w + 1" and "w < 15"
  shows "stack_frames t = (stack t 0 (w + 1), stack t 1 (w + 1))
    # map (\<lambda>k. (stack t 0 (of_nat k), stack t 1 (of_nat k))) (rev [1..<Suc (unat w)])"
proof -
  have "unat (w + 1) = Suc (unat w)" using assms(2) by (simp add: word_less_nat_alt unat_add_small)
  moreover have "of_nat (Suc (unat w)) = w + 1" by simp
  ultimately show ?thesis unfolding stack_frames_def assms(1) by (simp del: of_nat_Suc)
qed

lemma push_frame_room:
  assumes wf: "stack_wf s" and room: "reg DSP_REG_SP s < 15"
  shows "\<exists>t. push_frame s f = Some t \<and> stack_wf t \<and> stack_frames t = store_frame f # stack_frames s
    \<and> reg DSP_REG_SP t = reg DSP_REG_SP s + 1"
proof -
  let ?w = "reg DSP_REG_SP s"
  have f: "fits 4 ?w" "fits 4 (?w + 1)"
    using room by (simp_all add: fits_iff_unat word_less_nat_alt unat_add_small)
  have "unat (?w + 1) = Suc (unat ?w)" using room by (simp add: word_less_nat_alt unat_add_small)
  then have nz: "?w + 1 \<noteq> 0" by (metis nat.distinct(1) unat_0)
  obtain t where t: "push_frame s f = Some t" "reg DSP_REG_SP t = ?w + 1"
    "exception_debugging t = exception_debugging s"
    "reg DSP_REG_SSH t = stack t 0 (?w + 1)" "reg DSP_REG_SSL t = stack t 1 (?w + 1)"
    "stack t 0 (?w + 1) = fst f AND BITMASK 16" "stack t 1 (?w + 1) = snd f AND BITMASK 16"
    "\<And>p k. k \<noteq> ?w + 1 \<Longrightarrow> stack t p k = stack s p k"
    by (simp add: push_frame_def dsp_stack_push_def Let_def small_masks [OF f(1)] small_masks [OF f(2)]
        push_bit_eq_mult nz)
  have "(of_nat k :: u32) \<noteq> ?w + 1" if "k \<le> unat ?w" for k
  proof -
    have "unat (of_nat k :: u32) = k" using that unat_less_exp [of ?w] by (simp add: unat_of_nat)
    moreover have "unat (?w + 1) = Suc (unat ?w)" using room by (simp add: word_less_nat_alt unat_add_small)
    ultimately show ?thesis using that by (simp add: word_unat_eq_iff)
  qed
  then have "stack_frames t = store_frame f # stack_frames s"
    unfolding stack_frames_Suc [OF t(2) room] using t(6,7,8)
    by (auto simp: store_frame_def stack_frames_def)
  moreover have "stack_wf t" using wf t f by (simp add: stack_wf_def sp_fits)
  ultimately show ?thesis using t(1,2) by blast
qed

lemma push_frame_full:
  assumes "stack_wf s" and "reg DSP_REG_SP s = 15"
  shows "push_frame s f = None"
  using assms by (simp add: push_frame_def dsp_stack_push_def stack_fault_def Let_def stack_wf_def push_bit_eq_mult)

lemma pop_frame_empty:
  assumes "stack_wf s" and "reg DSP_REG_SP s = 0"
  shows "pop_frame s = None"
  using assms by (simp add: pop_frame_def dsp_stack_pop_def stack_fault_def Let_def stack_wf_def push_bit_eq_mult)

lemma pop_frame_top:
  assumes wf: "stack_wf s" and w: "reg DSP_REG_SP s = w + 1" "w < 15"
  shows "\<exists>t. pop_frame s = Some ((stack s 0 (w + 1), stack s 1 (w + 1)), t) \<and> stack_wf t
    \<and> reg DSP_REG_SP t = w \<and> stack t = stack s"
proof -
  have f: "fits 4 w" "fits 4 (w + 1)"
    using w by (simp_all add: fits_iff_unat word_less_nat_alt unat_add_small)
  show ?thesis using wf f
    by (simp add: pop_frame_def dsp_stack_pop_def Let_def w small_masks [OF f(1)] small_masks [OF f(2)]
        push_bit_eq_mult stack_wf_def sp_fits)
qed

lemma length_stack_frames: "length (stack_frames s) = unat (reg DSP_REG_SP s)"
  by (simp add: stack_frames_def)

interpretation hwstack: bounded_lifo push_frame pop_frame stack_frames stack_wf store_frame 15
proof
  fix s :: "'a dsp_core_scheme" and f g :: "u32 \<times> u32" and fs
  assume wf: "stack_wf s"
  let ?w = "reg DSP_REG_SP s"
  have lt: "unat ?w < 16" using wf by (simp add: stack_wf_def word_less_nat_alt)
  then show "length (stack_frames s) \<le> 15" by (simp add: length_stack_frames)
  show "\<exists>t. push_frame s f = Some t \<and> stack_wf t \<and> stack_frames t = store_frame f # stack_frames s"
    if "length (stack_frames s) < 15"
    using push_frame_room [OF wf] that by (fastforce simp: length_stack_frames word_less_nat_alt)
  show "push_frame s f = None" if "length (stack_frames s) = 15"
    using push_frame_full [OF wf] that by (simp add: length_stack_frames word_unat_eq_iff)
  show "pop_frame s = None" if "stack_frames s = []"
    using pop_frame_empty [OF wf] length_stack_frames [of s] that by (simp add: unat_eq_zero)
  show "\<exists>t. pop_frame s = Some (f, t) \<and> stack_wf t \<and> stack_frames t = fs" if c: "stack_frames s = f # fs"
  proof -
    have "unat ?w \<noteq> 0" using length_stack_frames [of s] c by simp
    then have w: "?w = (?w - 1) + 1" "?w - 1 < 15"
      using lt by (auto simp: word_less_nat_alt unat_sub_if' Suc_le_eq unat_gt_0)
    obtain t where t: "pop_frame s = Some ((stack s 0 ?w, stack s 1 ?w), t)" "stack_wf t"
      "reg DSP_REG_SP t = ?w - 1" "stack t = stack s"
      using pop_frame_top [OF wf w] w(1) by auto
    have "f # fs = (stack s 0 ?w, stack s 1 ?w) # stack_frames t"
      using stack_frames_Suc [OF w] c w(1) t(3,4) by (simp add: stack_frames_def)
    then show ?thesis using t by auto
  qed
qed

subsection \<open>Properties of the stack\<close>

text \<open>C9: the hardware stack is a last-in first-out store. After any sequence of pushes that
  succeeds from a state with correct mirrors, as many pops return the pushed frames (low 16 bits
  of program counter and status register) in reverse order and give the previous frames back.\<close>

theorem stack_lifo:
  assumes "stack_wf s" and "pushes push_frame s fs = Some t"
  shows "\<exists>u. pops pop_frame (length fs) t = Some (rev (map store_frame fs), u)
    \<and> stack_wf u \<and> stack_frames u = stack_frames s"
  by (rule hwstack.pops_pushes [OF assms])

definition fresh_dsp :: "unit DSPState" where
  "fresh_dsp = dsp_init () (\<lambda>_ _ _ _ _. None) (\<lambda>_ _ _ _ _. None)"

theorem stack_lifo_witness:
  "\<exists>t u. pushes push_frame fresh_dsp [(0x12, 0x300), (0x10034, 0)] = Some t
     \<and> pops pop_frame 2 t = Some ([(0x34, 0), (0x12, 0x300)], u)"
proof -
  have "pushes push_frame fresh_dsp [(0x12, 0x300), (0x10034, 0)] \<noteq> None" by code_simp
  then obtain t where t: "pushes push_frame fresh_dsp [(0x12, 0x300), (0x10034, 0)] = Some t" by blast
  have "stack_wf fresh_dsp" by code_simp
  from stack_lifo [OF this t] t show ?thesis by (auto simp: store_frame_def numeral_2_eq_2)
qed

text \<open>C10: the capacity of the stack is fifteen frames: a sequence of pushes is carried out exactly
  when all its frames find room; the push that does not is the stack error, which aborts.\<close>

theorem stack_capacity:
  assumes "stack_wf s"
  shows "(\<exists>t. pushes push_frame s fs = Some t) \<longleftrightarrow> length (stack_frames s) + length fs \<le> 15"
  by (rule hwstack.pushes_succeed_iff [OF assms])

theorem stack_capacity_witness:
  "(\<exists>t. pushes push_frame fresh_dsp (replicate 15 (1, 2)) = Some t)
    \<and> \<not> (\<exists>t. pushes push_frame fresh_dsp (replicate 16 (1, 2)) = Some t)"
proof -
  have wf: "stack_wf fresh_dsp" and z: "length (stack_frames fresh_dsp) = 0" by code_simp+
  show ?thesis
    unfolding stack_capacity [OF wf, of "replicate 15 (1, 2)"] stack_capacity [OF wf, of "replicate 16 (1, 2)"] z
    by simp
qed

end
