(* ===== verification/Dsp_Agu.thy ===== *)
theory Dsp_Agu
  imports Dsp_Mem Dsp_Stack
begin

text \<open>
  The address generation unit and the condition codes of \<open>dsp_emu.inl\<close>:
  \<open>emu_update_rn\<close> with its linear, bit-reversed and modulo modes, \<open>emu_calc_ea\<close>,
  \<open>emu_calc_cc\<close> and \<open>emu_ccr_update_e_u_n_z\<close>.

  C's \<open>int16_t\<close> variables are integers reduced with \<open>s16\<close> at every assignment, and
  \<open>uint16_t\<close> variables are 16-bit words read with \<open>uint\<close>; the comparisons between them
  are made, as in C, on the promoted integers.
\<close>

subsection \<open>Bit-reversed update\<close>

text \<open>The first loop finds the lowest set bit of the offset register, and runs to 16 when there
  is none; the second one reverses the low \<open>revbits\<close> bits.\<close>

primrec revbits_loop :: "nat \<Rightarrow> u32 \<Rightarrow> nat \<Rightarrow> nat" where
  "revbits_loop 0 value revbits = revbits"
| "revbits_loop (Suc k) value revbits =
     (if value AND shl 1 revbits \<noteq> 0 then revbits else revbits_loop k value (Suc revbits))"

definition reverse_low :: "nat \<Rightarrow> u32 \<Rightarrow> u32" where
  "reverse_low revbits r_reg =
     fold (\<lambda>i value. if r_reg AND shl 1 i \<noteq> 0 then value OR shl 1 (revbits - i - 1) else value)
       [0..<revbits] (r_reg AND (BITMASK 16 - BITMASK revbits))"

definition emu_update_rn_bitreverse :: "'a dsp_core_scheme \<Rightarrow> u32 \<Rightarrow> 'a dsp_core_scheme" where
  "emu_update_rn_bitreverse s numreg =
     (let revbits = revbits_loop 16 (reg (DSP_REG_N0 + numreg) s) 0 + 1;
          r_reg = reg (DSP_REG_R0 + numreg) s;
          value = reverse_low revbits r_reg;
          value = (value + 1) AND BITMASK revbits;
          r_reg = (r_reg AND (BITMASK 16 - BITMASK revbits)) OR value
      in set_reg (DSP_REG_R0 + numreg) (reverse_low revbits r_reg) s)"

subsection \<open>Modulo update\<close>

text \<open>\<open>while (bufsize < modulo)\<close> doubles a 16-bit variable. It ends within fifteen rounds
  when \<open>modulo\<close> is at most \<open>0x8000\<close>, which the caller guarantees; beyond, the variable
  wraps to 0 and the loop does not end. Sixteen units of fuel cover every terminating run, and
  running out of fuel is \<open>None\<close>.\<close>

fun bufsize_loop :: "nat \<Rightarrow> u16 \<Rightarrow> u16 \<Rightarrow> u16 \<Rightarrow> (u16 \<times> u16) option" where
  "bufsize_loop fuel modu bufsize bufmask =
     (if bufsize < modu then
        case fuel of 0 \<Rightarrow> None
        | Suc k \<Rightarrow> bufsize_loop k modu (shl bufsize 1) (shl bufmask 1)
      else Some (bufsize, bufmask))"

text \<open>The two loops that bring a modifier above the modulus into the range of one buffer. The
  conjunct \<open>0 < bufsize\<close> makes them total; \<open>bufsize\<close> starts at 1 and doubles, and is not 0.\<close>

function modifier_down :: "int \<Rightarrow> int \<Rightarrow> int \<Rightarrow> int \<times> int" where
  "modifier_down bufsize r_reg modifier =
     (if 0 < bufsize \<and> modifier > bufsize
      then modifier_down bufsize (s16 (r_reg + bufsize)) (s16 (modifier - bufsize))
      else (r_reg, modifier))"
  by auto
termination
proof (relation "measure (\<lambda>(b, r, m). nat m)")
  fix bufsize r_reg modifier :: int
  assume "0 < bufsize \<and> modifier > bufsize"
  moreover then have "s16 (modifier - bufsize) \<le> modifier - bufsize" by (intro s16_le) simp
  ultimately show "((bufsize, s16 (r_reg + bufsize), s16 (modifier - bufsize)), bufsize, r_reg, modifier)
      \<in> measure (\<lambda>(b, r, m). nat m)" by auto
qed simp

function modifier_up :: "int \<Rightarrow> int \<Rightarrow> int \<Rightarrow> int \<times> int" where
  "modifier_up bufsize r_reg modifier =
     (if 0 < bufsize \<and> modifier < - bufsize
      then modifier_up bufsize (s16 (r_reg - bufsize)) (s16 (modifier + bufsize))
      else (r_reg, modifier))"
  by auto
termination
proof (relation "measure (\<lambda>(b, r, m). nat (- m))")
  fix bufsize r_reg modifier :: int
  assume a: "0 < bufsize \<and> modifier < - bufsize"
  then have "modifier + bufsize < 2 ^ 15" by simp
  then have "modifier + bufsize \<le> s16 (modifier + bufsize)" by (rule s16_ge)
  with a show "((bufsize, s16 (r_reg - bufsize), s16 (modifier + bufsize)), bufsize, r_reg, modifier)
      \<in> measure (\<lambda>(b, r, m). nat (- m))" by auto
qed simp

declare modifier_down.simps [simp del] modifier_up.simps [simp del] bufsize_loop.simps [simp del]

definition emu_update_rn_modulo :: "'a dsp_core_scheme \<Rightarrow> u32 \<Rightarrow> int \<Rightarrow> 'a dsp_core_scheme option" where
  "emu_update_rn_modulo s numreg modifier = do {
     let orig_modifier = modifier;
     let modu = (ucast (reg (DSP_REG_M0 + numreg) s + 1) :: u16);
     (bufsize, bufmask) \<leftarrow> bufsize_loop 16 modu 1 (ucast (BITMASK 16));
     let lobound = (ucast (reg (DSP_REG_R0 + numreg) s AND ucast bufmask) :: u16);
     let hibound = lobound + modu - 1;
     let r_reg = s16 (uint (reg (DSP_REG_R0 + numreg) s));
     let (r_reg, modifier) =
       (if orig_modifier > uint modu then
          let (r_reg, modifier) = modifier_down (uint bufsize) r_reg modifier
          in modifier_up (uint bufsize) r_reg modifier
        else (r_reg, modifier));
     let r_reg = s16 (r_reg + modifier);
     let r_reg =
       (if orig_modifier \<noteq> uint modu then
          if r_reg > uint hibound then s16 (r_reg - uint modu)
          else if r_reg < uint lobound then s16 (r_reg + uint modu)
          else r_reg
        else r_reg);
     Some (set_reg (DSP_REG_R0 + numreg) (word_of_int r_reg AND BITMASK 16) s) }"

subsection \<open>Update of an address register\<close>

definition emu_update_rn :: "'a dsp_core_scheme \<Rightarrow> u32 \<Rightarrow> int \<Rightarrow> 'a dsp_core_scheme option" where
  "emu_update_rn s numreg modifier =
     (let m_reg = (ucast (reg (DSP_REG_M0 + numreg) s) :: u16)
      in if m_reg = 65535 then
           let value = s16 (uint (reg (DSP_REG_R0 + numreg) s));
               value = s16 (value + modifier)
           in Some (set_reg (DSP_REG_R0 + numreg) (word_of_int value AND BITMASK 16) s)
         else if m_reg = 0 then Some (emu_update_rn_bitreverse s numreg)
         else if m_reg \<le> 32767 then emu_update_rn_modulo s numreg modifier
         else Some s)"

text \<open>\<open>int16_arg\<close> is the conversion of an unsigned register value to the \<open>int16_t\<close> parameter
  of \<open>emu_update_rn\<close>.\<close>

definition int16_arg :: "u32 \<Rightarrow> int" where
  "int16_arg w = s16 (uint w)"

subsection \<open>Effective addresses\<close>

text \<open>The result is C's return value (1 for an immediate operand), the address, the state.\<close>

definition emu_calc_ea :: "'a dsp_core_scheme \<Rightarrow> u32 \<Rightarrow> (bool \<times> u32 \<times> 'a dsp_core_scheme) option" where
  "emu_calc_ea s ea_mode =
     (let value = shr ea_mode 3 AND BITMASK 3;
          numreg = ea_mode AND BITMASK 3;
          rn = DSP_REG_R0 + numreg;
          nn = reg (DSP_REG_N0 + numreg) s
      in if value = 0 then do {
           t \<leftarrow> emu_update_rn s numreg (int16_arg (- nn)); Some (False, reg rn s, t) }
         else if value = 1 then do {
           t \<leftarrow> emu_update_rn s numreg (int16_arg nn); Some (False, reg rn s, t) }
         else if value = 2 then do {
           t \<leftarrow> emu_update_rn s numreg (-1); Some (False, reg rn s, t) }
         else if value = 3 then do {
           t \<leftarrow> emu_update_rn s numreg 1; Some (False, reg rn s, t) }
         else if value = 4 then Some (False, reg rn s, s)
         else if value = 5 then do {
           let s = s\<lparr>instr_cycle := instr_cycle s + 2\<rparr>;
           let curreg = reg rn s;
           t \<leftarrow> emu_update_rn s numreg (int16_arg nn);
           Some (False, reg rn t, set_reg rn curreg t) }
         else if value = 6 then do {
           let s = s\<lparr>instr_cycle := instr_cycle s + 2\<rparr>;
           a \<leftarrow> read_memory_p s (pc s + 1);
           Some (numreg \<noteq> 0, a, s\<lparr>cur_inst_len := cur_inst_len s + 1\<rparr>) }
         else do {
           let s = s\<lparr>instr_cycle := instr_cycle s + 2\<rparr>;
           t \<leftarrow> emu_update_rn s numreg (-1);
           Some (False, reg rn t, t) })"

subsection \<open>Condition codes\<close>

definition emu_calc_cc :: "'a dsp_core_scheme \<Rightarrow> u32 \<Rightarrow> bool" where
  "emu_calc_cc s cc_code =
     (let sr = reg DSP_REG_SR s;
          c = sr AND shl 1 DSP_SR_C;
          v = shr sr DSP_SR_V AND 1;
          z = shr sr DSP_SR_Z AND 1;
          n = shr sr DSP_SR_N AND 1;
          not_u = NOT (shr sr DSP_SR_U) AND 1;
          not_e = NOT (shr sr DSP_SR_E) AND 1
      in if cc_code = 0 then c = 0
         else if cc_code = 1 then n XOR v = 0
         else if cc_code = 2 then sr AND shl 1 DSP_SR_Z = 0
         else if cc_code = 3 then sr AND shl 1 DSP_SR_N = 0
         else if cc_code = 4 then z OR (not_u AND not_e) = 0
         else if cc_code = 5 then sr AND shl 1 DSP_SR_E = 0
         else if cc_code = 6 then sr AND shl 1 DSP_SR_L = 0
         else if cc_code = 7 then z OR (n XOR v) = 0
         else if cc_code = 8 then c = 1
         else if cc_code = 9 then n XOR v = 1
         else if cc_code = 10 then z = 1
         else if cc_code = 11 then n = 1
         else if cc_code = 12 then z OR (not_u AND not_e) = 1
         else if cc_code = 13 then shr sr DSP_SR_E AND 1 = 1
         else if cc_code = 14 then shr sr DSP_SR_L AND 1 = 1
         else if cc_code = 15 then z OR (n XOR v) = 1
         else False)"

text \<open>\<open>sr_clear\<close> and \<open>sr_set\<close> are \<open>registers[DSP_REG_SR] &= BITMASK(16)-m\<close> and
  \<open>registers[DSP_REG_SR] |= m\<close>.\<close>

definition sr_clear :: "u32 \<Rightarrow> 'a dsp_core_scheme \<Rightarrow> 'a dsp_core_scheme" where
  "sr_clear m s = set_reg DSP_REG_SR (reg DSP_REG_SR s AND (BITMASK 16 - m)) s"

definition sr_set :: "u32 \<Rightarrow> 'a dsp_core_scheme \<Rightarrow> 'a dsp_core_scheme" where
  "sr_set m s = set_reg DSP_REG_SR (reg DSP_REG_SR s OR m) s"

text \<open>\<open>emu_ccr_update_e_u_n_z\<close> works on the status register only: \<open>ccr_e_u_n_z\<close> is the sequence
  of its updates, from the old to the new value of that register.\<close>

definition ccr_e_u_n_z :: "u32 \<Rightarrow> u32 \<Rightarrow> u32 \<Rightarrow> u32 \<Rightarrow> u32" where
  "ccr_e_u_n_z sr reg0 reg1 reg2 =
     (let sr = sr AND (BITMASK 16 - (shl 1 DSP_SR_E OR shl 1 DSP_SR_U OR shl 1 DSP_SR_N OR shl 1 DSP_SR_Z));
          scaling = shr sr DSP_SR_S0 AND BITMASK 2;
          finish = (\<lambda>sr.
            (sr OR (if reg1 = 0 \<and> reg2 = 0 \<and> reg0 = 0 then shl 1 DSP_SR_Z else 0)) OR (shr reg0 4 AND 0x8))
      in if scaling = 0 then
           let value_e = shl reg0 1 + shr reg1 23;
               sr = sr OR (if value_e \<noteq> 0 \<and> value_e \<noteq> BITMASK 9 then shl 1 DSP_SR_E else 0);
               sr = sr OR (if reg1 AND 0xc00000 = 0 \<or> reg1 AND 0xc00000 = 0xc00000 then shl 1 DSP_SR_U else 0)
           in finish sr
         else if scaling = 1 then
           let sr = sr OR (if reg0 \<noteq> 0 \<and> reg0 \<noteq> BITMASK 8 then shl 1 DSP_SR_E else 0);
               value_u = (shl reg0 1 + shr reg1 23) AND 3;
               sr = sr OR (if value_u = 0 \<or> value_u = 3 then shl 1 DSP_SR_U else 0)
           in finish sr
         else if scaling = 2 then
           let value_e = shl reg0 2 + shr reg1 22;
               sr = sr OR (if value_e \<noteq> 0 \<and> value_e \<noteq> BITMASK 10 then shl 1 DSP_SR_E else 0);
               sr = sr OR (if reg1 AND 0x600000 = 0 \<or> reg1 AND 0x600000 = 0x600000 then shl 1 DSP_SR_U else 0)
           in finish sr
         else sr)"

definition emu_ccr_update_e_u_n_z ::
  "'a dsp_core_scheme \<Rightarrow> u32 \<Rightarrow> u32 \<Rightarrow> u32 \<Rightarrow> 'a dsp_core_scheme" where
  "emu_ccr_update_e_u_n_z s reg0 reg1 reg2 =
     set_reg DSP_REG_SR (ccr_e_u_n_z (reg DSP_REG_SR s) reg0 reg1 reg2) s"

lemma sr_ops_reg [simp]:
  "reg r (sr_clear m s) = (if r = DSP_REG_SR then reg DSP_REG_SR s AND (BITMASK 16 - m) else reg r s)"
  "reg r (sr_set m s) = (if r = DSP_REG_SR then reg DSP_REG_SR s OR m else reg r s)"
  by (simp_all add: sr_clear_def sr_set_def)

lemma ccr_update_other [simp]: "r \<noteq> DSP_REG_SR \<Longrightarrow> reg r (emu_ccr_update_e_u_n_z s a b c) = reg r s"
  by (simp add: emu_ccr_update_e_u_n_z_def)

end
