(* ===== verification/Dsp_Alu.thy ===== *)
theory Dsp_Alu
  imports Dsp_Mul Dsp_Agu
begin

text \<open>
  The data ALU of \<open>dsp_emu.inl\<close>: the instructions that can be paired with a parallel move
  (lines 349 to 5083), and the dispatch table \<open>opcodes_alu\<close>.

  The source spells out one C function per instruction and operand. The functions of a family
  differ only in the registers they name, so that each family is one definition parameterised by
  the accumulator and the operand, and each C function is its instance under the source's name.
  All of them are total functions of the core state, except the illegal instruction.
\<close>

named_theorems alu_ops \<open>the instances of the families\<close>

subsection \<open>Operands\<close>

datatype acc = ACC_A | ACC_B

definition acc0 :: "acc \<Rightarrow> u32" where
  "acc0 a = (case a of ACC_A \<Rightarrow> DSP_REG_A0 | ACC_B \<Rightarrow> DSP_REG_B0)"

definition acc1 :: "acc \<Rightarrow> u32" where
  "acc1 a = (case a of ACC_A \<Rightarrow> DSP_REG_A1 | ACC_B \<Rightarrow> DSP_REG_B1)"

definition acc2 :: "acc \<Rightarrow> u32" where
  "acc2 a = (case a of ACC_A \<Rightarrow> DSP_REG_A2 | ACC_B \<Rightarrow> DSP_REG_B2)"

definition load56 :: "acc \<Rightarrow> 'a dsp_core_scheme \<Rightarrow> acc3" where
  "load56 a s = (reg (acc2 a) s, reg (acc1 a) s, reg (acc0 a) s)"

definition store56 :: "acc \<Rightarrow> acc3 \<Rightarrow> 'a dsp_core_scheme \<Rightarrow> 'a dsp_core_scheme" where
  "store56 a d s = (case d of (d0, d1, d2) \<Rightarrow>
     set_reg (acc0 a) d2 (set_reg (acc1 a) d1 (set_reg (acc2 a) d0 s)))"

text \<open>Sign extension of a 24-bit operand: \<open>source[1] & (1<<23) ? 0xff : 0x0\<close>.\<close>

definition ext24 :: "u32 \<Rightarrow> u32" where
  "ext24 v = (if v AND shl 1 23 \<noteq> 0 then 0xff else 0x0)"

definition src_reg :: "u32 \<Rightarrow> 'a dsp_core_scheme \<Rightarrow> acc3" where
  "src_reg r s = (ext24 (reg r s), reg r s, 0)"

definition src_xy :: "u32 \<Rightarrow> u32 \<Rightarrow> 'a dsp_core_scheme \<Rightarrow> acc3" where
  "src_xy r1 r0 s = (ext24 (reg r1 s), reg r1 s, reg r0 s)"

abbreviation "src_x \<equiv> src_xy DSP_REG_X1 DSP_REG_X0"
abbreviation "src_y \<equiv> src_xy DSP_REG_Y1 DSP_REG_Y0"

definition ccr3 :: "acc3 \<Rightarrow> 'a dsp_core_scheme \<Rightarrow> 'a dsp_core_scheme" where
  "ccr3 d s = (case d of (d0, d1, d2) \<Rightarrow> emu_ccr_update_e_u_n_z s d0 d1 d2)"

abbreviation "SR_VC \<equiv> shl (1::u32) DSP_SR_V OR shl 1 DSP_SR_C"
abbreviation "SR_NZV \<equiv> shl (1::u32) DSP_SR_N OR shl 1 DSP_SR_Z OR shl 1 DSP_SR_V"
abbreviation "SR_CNZV \<equiv> shl (1::u32) DSP_SR_C OR shl 1 DSP_SR_N OR shl 1 DSP_SR_Z OR shl 1 DSP_SR_V"

subsection \<open>Illegal instruction\<close>

definition emu_undefined :: "'a dsp_core_scheme \<Rightarrow> 'a dsp_core_scheme option" where
  "emu_undefined s = do {
     let s = (if \<not> executing_for_disasm s then s\<lparr>cur_inst_len := 0, instr_cycle := instr_cycle s + 100\<rparr>
              else s\<lparr>cur_inst_len := 1, instr_cycle := 0\<rparr>);
     assert (\<not> exception_debugging s);
     Some s }"

subsection \<open>Families of 56-bit operations\<close>

definition flags_vc :: "acc3 \<Rightarrow> u16 \<Rightarrow> 'a dsp_core_scheme \<Rightarrow> 'a dsp_core_scheme" where
  "flags_vc dest newsr s = sr_set (ucast newsr) (sr_clear SR_VC (ccr3 dest s))"

definition alu_add :: "acc \<Rightarrow> ('a dsp_core_scheme \<Rightarrow> acc3) \<Rightarrow> 'a dsp_core_scheme \<Rightarrow> 'a dsp_core_scheme" where
  "alu_add a src s =
     (let (newsr, dest) = dsp_add56 (src s) (load56 a s)
      in flags_vc dest newsr (store56 a dest s))"

definition alu_sub :: "acc \<Rightarrow> ('a dsp_core_scheme \<Rightarrow> acc3) \<Rightarrow> 'a dsp_core_scheme \<Rightarrow> 'a dsp_core_scheme" where
  "alu_sub a src s =
     (let (newsr, dest) = dsp_sub56 (src s) (load56 a s)
      in flags_vc dest newsr (store56 a dest s))"

definition alu_adc :: "acc \<Rightarrow> ('a dsp_core_scheme \<Rightarrow> acc3) \<Rightarrow> 'a dsp_core_scheme \<Rightarrow> 'a dsp_core_scheme" where
  "alu_adc a src s =
     (let curcarry = shr (reg DSP_REG_SR s) DSP_SR_C AND 1;
          (newsr, dest) = dsp_add56 (src s) (load56 a s);
          (newsr, dest) = (if curcarry \<noteq> 0 then
             let (newsr', dest) = dsp_add56 (0, 0, 1) dest in (newsr OR newsr', dest) else (newsr, dest))
      in flags_vc dest newsr (store56 a dest s))"

definition alu_sbc :: "acc \<Rightarrow> ('a dsp_core_scheme \<Rightarrow> acc3) \<Rightarrow> 'a dsp_core_scheme \<Rightarrow> 'a dsp_core_scheme" where
  "alu_sbc a src s =
     (let curcarry = shr (reg DSP_REG_SR s) DSP_SR_C AND 1;
          (newsr, dest) = dsp_sub56 (src s) (load56 a s);
          (newsr, dest) = (if curcarry \<noteq> 0 then
             let (newsr', dest) = dsp_sub56 (0, 0, 1) dest in (newsr OR newsr', dest) else (newsr, dest))
      in flags_vc dest newsr (store56 a dest s))"

definition alu_addl :: "acc \<Rightarrow> acc \<Rightarrow> 'a dsp_core_scheme \<Rightarrow> 'a dsp_core_scheme" where
  "alu_addl a b s =
     (let (newsr, dest) = dsp_asl56 (load56 a s) 1;
          (newsr', dest) = dsp_add56 (load56 b s) dest
      in flags_vc dest (newsr OR newsr') (store56 a dest s))"

definition alu_addr :: "acc \<Rightarrow> acc \<Rightarrow> 'a dsp_core_scheme \<Rightarrow> 'a dsp_core_scheme" where
  "alu_addr a b s =
     (let (newsr, dest) = dsp_asr56 (load56 a s) 1;
          (newsr', dest) = dsp_add56 (load56 b s) dest
      in flags_vc dest (newsr OR newsr') (store56 a dest s))"

definition alu_subl :: "acc \<Rightarrow> acc \<Rightarrow> 'a dsp_core_scheme \<Rightarrow> 'a dsp_core_scheme" where
  "alu_subl a b s =
     (let (newsr, dest) = dsp_asl56 (load56 a s) 1;
          (newsr', dest) = dsp_sub56 (load56 b s) dest
      in flags_vc dest (newsr OR newsr') (store56 a dest s))"

definition alu_subr :: "acc \<Rightarrow> acc \<Rightarrow> 'a dsp_core_scheme \<Rightarrow> 'a dsp_core_scheme" where
  "alu_subr a b s =
     (let (newsr, dest) = dsp_asr56 (load56 a s) 1;
          (newsr', dest) = dsp_sub56 (load56 b s) dest
      in flags_vc dest (newsr OR newsr') (store56 a dest s))"

definition alu_cmp :: "acc \<Rightarrow> ('a dsp_core_scheme \<Rightarrow> acc3) \<Rightarrow> 'a dsp_core_scheme \<Rightarrow> 'a dsp_core_scheme" where
  "alu_cmp a src s =
     (let (newsr, dest) = dsp_sub56 (src s) (load56 a s) in flags_vc dest newsr s)"

definition alu_cmpm :: "acc \<Rightarrow> ('a dsp_core_scheme \<Rightarrow> acc3) \<Rightarrow> 'a dsp_core_scheme \<Rightarrow> 'a dsp_core_scheme" where
  "alu_cmpm a src s =
     (let dest = snd (dsp_abs56 (load56 a s));
          source = snd (dsp_abs56 (src s));
          (newsr, dest) = dsp_sub56 source dest
      in flags_vc dest newsr s)"

definition alu_asl :: "acc \<Rightarrow> 'a dsp_core_scheme \<Rightarrow> 'a dsp_core_scheme" where
  "alu_asl a s =
     (let (newsr, dest) = dsp_asl56 (load56 a s) 1
      in ccr3 dest (sr_set (ucast newsr) (sr_clear SR_VC (store56 a dest s))))"

definition alu_asr :: "acc \<Rightarrow> 'a dsp_core_scheme \<Rightarrow> 'a dsp_core_scheme" where
  "alu_asr a s =
     (let (newsr, dest) = dsp_asr56 (load56 a s) 1
      in ccr3 dest (sr_set (ucast newsr) (sr_clear SR_VC (store56 a dest s))))"

definition is_min56 :: "acc3 \<Rightarrow> bool" where
  "is_min56 d = (case d of (d0, d1, d2) \<Rightarrow> d2 = 0 \<and> d1 = 0 \<and> d0 = 0x80)"

definition alu_abs :: "acc \<Rightarrow> 'a dsp_core_scheme \<Rightarrow> 'a dsp_core_scheme" where
  "alu_abs a s =
     (let dest = load56 a s;
          overflowed = cbool (is_min56 dest);
          dest = snd (dsp_abs56 dest)
      in ccr3 dest (sr_set (shl overflowed DSP_SR_L OR shl overflowed DSP_SR_V)
           (sr_clear (shl 1 DSP_SR_V) (store56 a dest s))))"

definition alu_neg :: "acc \<Rightarrow> 'a dsp_core_scheme \<Rightarrow> 'a dsp_core_scheme" where
  "alu_neg a s =
     (let source = load56 a s;
          overflowed = cbool (is_min56 source);
          dest = snd (dsp_sub56 source (0, 0, 0))
      in ccr3 dest (sr_set (shl overflowed DSP_SR_L OR shl overflowed DSP_SR_V)
           (sr_clear (shl 1 DSP_SR_V) (store56 a dest s))))"

definition alu_rnd :: "acc \<Rightarrow> 'a dsp_core_scheme \<Rightarrow> 'a dsp_core_scheme" where
  "alu_rnd a s = (let dest = dsp_rnd56 s (load56 a s) in ccr3 dest (store56 a dest s))"

definition alu_clr :: "acc \<Rightarrow> 'a dsp_core_scheme \<Rightarrow> 'a dsp_core_scheme" where
  "alu_clr a s =
     sr_set (shl 1 DSP_SR_U OR shl 1 DSP_SR_Z)
       (sr_clear (shl 1 DSP_SR_E OR shl 1 DSP_SR_N OR shl 1 DSP_SR_V) (store56 a (0, 0, 0) s))"

definition alu_tst :: "acc \<Rightarrow> 'a dsp_core_scheme \<Rightarrow> 'a dsp_core_scheme" where
  "alu_tst a s = sr_clear (shl 1 DSP_SR_V) (ccr3 (load56 a s) s)"

definition alu_tfr :: "acc \<Rightarrow> ('a dsp_core_scheme \<Rightarrow> acc3) \<Rightarrow> 'a dsp_core_scheme \<Rightarrow> 'a dsp_core_scheme" where
  "alu_tfr a src s = store56 a (src s) s"

definition alu_mac :: "u32 \<Rightarrow> u32 \<Rightarrow> u8 \<Rightarrow> acc \<Rightarrow> 'a dsp_core_scheme \<Rightarrow> 'a dsp_core_scheme" where
  "alu_mac r1 r2 signe a s =
     (let source = dsp_mul56 (reg r1 s) (reg r2 s) signe;
          (newsr, dest) = dsp_add56 source (load56 a s)
      in sr_set (ucast newsr AND 0xfe) (sr_clear (shl 1 DSP_SR_V) (ccr3 dest (store56 a dest s))))"

definition alu_macr :: "u32 \<Rightarrow> u32 \<Rightarrow> u8 \<Rightarrow> acc \<Rightarrow> 'a dsp_core_scheme \<Rightarrow> 'a dsp_core_scheme" where
  "alu_macr r1 r2 signe a s =
     (let source = dsp_mul56 (reg r1 s) (reg r2 s) signe;
          (newsr, dest) = dsp_add56 source (load56 a s);
          dest = dsp_rnd56 s dest
      in sr_set (ucast newsr AND 0xfe) (sr_clear (shl 1 DSP_SR_V) (ccr3 dest (store56 a dest s))))"

definition alu_mpy :: "u32 \<Rightarrow> u32 \<Rightarrow> u8 \<Rightarrow> acc \<Rightarrow> 'a dsp_core_scheme \<Rightarrow> 'a dsp_core_scheme" where
  "alu_mpy r1 r2 signe a s =
     (let source = dsp_mul56 (reg r1 s) (reg r2 s) signe
      in sr_clear (shl 1 DSP_SR_V) (ccr3 source (store56 a source s)))"

definition alu_mpyr :: "u32 \<Rightarrow> u32 \<Rightarrow> u8 \<Rightarrow> acc \<Rightarrow> 'a dsp_core_scheme \<Rightarrow> 'a dsp_core_scheme" where
  "alu_mpyr r1 r2 signe a s =
     (let source = dsp_rnd56 s (dsp_mul56 (reg r1 s) (reg r2 s) signe)
      in sr_clear (shl 1 DSP_SR_V) (ccr3 source (store56 a source s)))"

subsection \<open>Families of 24-bit logical operations\<close>

text \<open>Flags N and Z of a logical result, and the write-back of the middle part.\<close>

definition logic_flags :: "acc \<Rightarrow> 'a dsp_core_scheme \<Rightarrow> 'a dsp_core_scheme" where
  "logic_flags a s =
     sr_set (shl (cbool (reg (acc1 a) s = 0)) DSP_SR_Z)
       (sr_set (shl (shr (reg (acc1 a) s) 23 AND 1) DSP_SR_N) s)"

definition alu_and :: "acc \<Rightarrow> u32 \<Rightarrow> 'a dsp_core_scheme \<Rightarrow> 'a dsp_core_scheme" where
  "alu_and a r s = logic_flags a (sr_clear SR_NZV (set_reg (acc1 a) (reg (acc1 a) s AND reg r s) s))"

definition alu_or :: "acc \<Rightarrow> u32 \<Rightarrow> 'a dsp_core_scheme \<Rightarrow> 'a dsp_core_scheme" where
  "alu_or a r s = logic_flags a (sr_clear SR_NZV
     (set_reg (acc1 a) ((reg (acc1 a) s OR reg r s) AND BITMASK 24) s))"

definition alu_eor :: "acc \<Rightarrow> u32 \<Rightarrow> 'a dsp_core_scheme \<Rightarrow> 'a dsp_core_scheme" where
  "alu_eor a r s = logic_flags a (sr_clear SR_NZV
     (set_reg (acc1 a) ((reg (acc1 a) s XOR reg r s) AND BITMASK 24) s))"

definition alu_not :: "acc \<Rightarrow> 'a dsp_core_scheme \<Rightarrow> 'a dsp_core_scheme" where
  "alu_not a s = logic_flags a (sr_clear SR_NZV
     (set_reg (acc1 a) (NOT (reg (acc1 a) s) AND BITMASK 24) s))"

definition alu_lsl :: "acc \<Rightarrow> 'a dsp_core_scheme \<Rightarrow> 'a dsp_core_scheme" where
  "alu_lsl a s =
     (let newcarry = shr (reg (acc1 a) s) 23 AND 1
      in logic_flags a (sr_set newcarry (sr_clear SR_CNZV
           (set_reg (acc1 a) (shl (reg (acc1 a) s) 1 AND BITMASK 24) s))))"

definition alu_lsr :: "acc \<Rightarrow> 'a dsp_core_scheme \<Rightarrow> 'a dsp_core_scheme" where
  "alu_lsr a s =
     (let newcarry = reg (acc1 a) s AND 1;
          s = sr_set newcarry (sr_clear SR_CNZV (set_reg (acc1 a) (shr (reg (acc1 a) s) 1) s))
      in sr_set (shl (cbool (reg (acc1 a) s = 0)) DSP_SR_Z) s)"

definition alu_rol :: "acc \<Rightarrow> 'a dsp_core_scheme \<Rightarrow> 'a dsp_core_scheme" where
  "alu_rol a s =
     (let newcarry = shr (reg (acc1 a) s) 23 AND 1
      in logic_flags a (sr_set newcarry (sr_clear SR_CNZV
           (set_reg (acc1 a) ((shl (reg (acc1 a) s) 1 OR newcarry) AND BITMASK 24) s))))"

definition alu_ror :: "acc \<Rightarrow> 'a dsp_core_scheme \<Rightarrow> 'a dsp_core_scheme" where
  "alu_ror a s =
     (let newcarry = reg (acc1 a) s AND 1;
          s = sr_set newcarry (sr_clear SR_CNZV
                (set_reg (acc1 a) (shr (reg (acc1 a) s) 1 OR shl newcarry 23) s));
          s = sr_set (shl newcarry DSP_SR_N) s
      in sr_set (shl (cbool (reg (acc1 a) s = 0)) DSP_SR_Z) s)"

subsection \<open>The instructions\<close>

definition emu_move :: "'a dsp_core_scheme \<Rightarrow> 'a dsp_core_scheme" where
  [alu_ops]: "emu_move s = s"

text \<open>\<open>emu_max\<close> compares A with B and then copies A2 to B0 and A0 to B2.\<close>

definition emu_max :: "'a dsp_core_scheme \<Rightarrow> 'a dsp_core_scheme" where
  "emu_max s =
     (let (d0, d1, d2) = snd (dsp_sub56 (load56 ACC_B s) (load56 ACC_A s));
          pass = d0 AND shl 1 7 \<noteq> 0 \<or> (d0 = 0 \<and> d1 = 0 \<and> d2 = 0);
          s = (if pass then
                 let s = set_reg DSP_REG_B0 (reg DSP_REG_A2 s) s;
                     s = set_reg DSP_REG_B1 (reg DSP_REG_A1 s) s
                 in set_reg DSP_REG_B2 (reg DSP_REG_A0 s) s
               else s)
      in sr_set (shl (cbool pass) DSP_SR_C) (sr_clear (shl 1 DSP_SR_C) s))"

definition emu_abs_a :: "'a dsp_core_scheme \<Rightarrow> 'a dsp_core_scheme" where
  [alu_ops]: "emu_abs_a = alu_abs ACC_A"

definition emu_abs_b :: "'a dsp_core_scheme \<Rightarrow> 'a dsp_core_scheme" where
  [alu_ops]: "emu_abs_b = alu_abs ACC_B"

definition emu_adc_x_a :: "'a dsp_core_scheme \<Rightarrow> 'a dsp_core_scheme" where
  [alu_ops]: "emu_adc_x_a = alu_adc ACC_A src_x"

definition emu_adc_x_b :: "'a dsp_core_scheme \<Rightarrow> 'a dsp_core_scheme" where
  [alu_ops]: "emu_adc_x_b = alu_adc ACC_B src_x"

definition emu_adc_y_a :: "'a dsp_core_scheme \<Rightarrow> 'a dsp_core_scheme" where
  [alu_ops]: "emu_adc_y_a = alu_adc ACC_A src_y"

definition emu_adc_y_b :: "'a dsp_core_scheme \<Rightarrow> 'a dsp_core_scheme" where
  [alu_ops]: "emu_adc_y_b = alu_adc ACC_B src_y"

definition emu_add_b_a :: "'a dsp_core_scheme \<Rightarrow> 'a dsp_core_scheme" where
  [alu_ops]: "emu_add_b_a = alu_add ACC_A (load56 ACC_B)"

definition emu_add_a_b :: "'a dsp_core_scheme \<Rightarrow> 'a dsp_core_scheme" where
  [alu_ops]: "emu_add_a_b = alu_add ACC_B (load56 ACC_A)"

definition emu_add_x_a :: "'a dsp_core_scheme \<Rightarrow> 'a dsp_core_scheme" where
  [alu_ops]: "emu_add_x_a = alu_add ACC_A src_x"

definition emu_add_x_b :: "'a dsp_core_scheme \<Rightarrow> 'a dsp_core_scheme" where
  [alu_ops]: "emu_add_x_b = alu_add ACC_B src_x"

definition emu_add_y_a :: "'a dsp_core_scheme \<Rightarrow> 'a dsp_core_scheme" where
  [alu_ops]: "emu_add_y_a = alu_add ACC_A src_y"

definition emu_add_y_b :: "'a dsp_core_scheme \<Rightarrow> 'a dsp_core_scheme" where
  [alu_ops]: "emu_add_y_b = alu_add ACC_B src_y"

definition emu_add_x0_a :: "'a dsp_core_scheme \<Rightarrow> 'a dsp_core_scheme" where
  [alu_ops]: "emu_add_x0_a = alu_add ACC_A (src_reg DSP_REG_X0)"

definition emu_add_x0_b :: "'a dsp_core_scheme \<Rightarrow> 'a dsp_core_scheme" where
  [alu_ops]: "emu_add_x0_b = alu_add ACC_B (src_reg DSP_REG_X0)"

definition emu_add_y0_a :: "'a dsp_core_scheme \<Rightarrow> 'a dsp_core_scheme" where
  [alu_ops]: "emu_add_y0_a = alu_add ACC_A (src_reg DSP_REG_Y0)"

definition emu_add_y0_b :: "'a dsp_core_scheme \<Rightarrow> 'a dsp_core_scheme" where
  [alu_ops]: "emu_add_y0_b = alu_add ACC_B (src_reg DSP_REG_Y0)"

definition emu_add_x1_a :: "'a dsp_core_scheme \<Rightarrow> 'a dsp_core_scheme" where
  [alu_ops]: "emu_add_x1_a = alu_add ACC_A (src_reg DSP_REG_X1)"

definition emu_add_x1_b :: "'a dsp_core_scheme \<Rightarrow> 'a dsp_core_scheme" where
  [alu_ops]: "emu_add_x1_b = alu_add ACC_B (src_reg DSP_REG_X1)"

definition emu_add_y1_a :: "'a dsp_core_scheme \<Rightarrow> 'a dsp_core_scheme" where
  [alu_ops]: "emu_add_y1_a = alu_add ACC_A (src_reg DSP_REG_Y1)"

definition emu_add_y1_b :: "'a dsp_core_scheme \<Rightarrow> 'a dsp_core_scheme" where
  [alu_ops]: "emu_add_y1_b = alu_add ACC_B (src_reg DSP_REG_Y1)"

definition emu_addl_b_a :: "'a dsp_core_scheme \<Rightarrow> 'a dsp_core_scheme" where
  [alu_ops]: "emu_addl_b_a = alu_addl ACC_A ACC_B"

definition emu_addl_a_b :: "'a dsp_core_scheme \<Rightarrow> 'a dsp_core_scheme" where
  [alu_ops]: "emu_addl_a_b = alu_addl ACC_B ACC_A"

definition emu_addr_b_a :: "'a dsp_core_scheme \<Rightarrow> 'a dsp_core_scheme" where
  [alu_ops]: "emu_addr_b_a = alu_addr ACC_A ACC_B"

definition emu_addr_a_b :: "'a dsp_core_scheme \<Rightarrow> 'a dsp_core_scheme" where
  [alu_ops]: "emu_addr_a_b = alu_addr ACC_B ACC_A"

definition emu_and_x0_a :: "'a dsp_core_scheme \<Rightarrow> 'a dsp_core_scheme" where
  [alu_ops]: "emu_and_x0_a = alu_and ACC_A DSP_REG_X0"

definition emu_and_x0_b :: "'a dsp_core_scheme \<Rightarrow> 'a dsp_core_scheme" where
  [alu_ops]: "emu_and_x0_b = alu_and ACC_B DSP_REG_X0"

definition emu_and_y0_a :: "'a dsp_core_scheme \<Rightarrow> 'a dsp_core_scheme" where
  [alu_ops]: "emu_and_y0_a = alu_and ACC_A DSP_REG_Y0"

definition emu_and_y0_b :: "'a dsp_core_scheme \<Rightarrow> 'a dsp_core_scheme" where
  [alu_ops]: "emu_and_y0_b = alu_and ACC_B DSP_REG_Y0"

definition emu_and_x1_a :: "'a dsp_core_scheme \<Rightarrow> 'a dsp_core_scheme" where
  [alu_ops]: "emu_and_x1_a = alu_and ACC_A DSP_REG_X1"

definition emu_and_x1_b :: "'a dsp_core_scheme \<Rightarrow> 'a dsp_core_scheme" where
  [alu_ops]: "emu_and_x1_b = alu_and ACC_B DSP_REG_X1"

definition emu_and_y1_a :: "'a dsp_core_scheme \<Rightarrow> 'a dsp_core_scheme" where
  [alu_ops]: "emu_and_y1_a = alu_and ACC_A DSP_REG_Y1"

definition emu_and_y1_b :: "'a dsp_core_scheme \<Rightarrow> 'a dsp_core_scheme" where
  [alu_ops]: "emu_and_y1_b = alu_and ACC_B DSP_REG_Y1"

definition emu_asl_a :: "'a dsp_core_scheme \<Rightarrow> 'a dsp_core_scheme" where
  [alu_ops]: "emu_asl_a = alu_asl ACC_A"

definition emu_asl_b :: "'a dsp_core_scheme \<Rightarrow> 'a dsp_core_scheme" where
  [alu_ops]: "emu_asl_b = alu_asl ACC_B"

definition emu_asr_a :: "'a dsp_core_scheme \<Rightarrow> 'a dsp_core_scheme" where
  [alu_ops]: "emu_asr_a = alu_asr ACC_A"

definition emu_asr_b :: "'a dsp_core_scheme \<Rightarrow> 'a dsp_core_scheme" where
  [alu_ops]: "emu_asr_b = alu_asr ACC_B"

definition emu_clr_a :: "'a dsp_core_scheme \<Rightarrow> 'a dsp_core_scheme" where
  [alu_ops]: "emu_clr_a = alu_clr ACC_A"

definition emu_clr_b :: "'a dsp_core_scheme \<Rightarrow> 'a dsp_core_scheme" where
  [alu_ops]: "emu_clr_b = alu_clr ACC_B"

definition emu_cmp_b_a :: "'a dsp_core_scheme \<Rightarrow> 'a dsp_core_scheme" where
  [alu_ops]: "emu_cmp_b_a = alu_cmp ACC_A (load56 ACC_B)"

definition emu_cmp_a_b :: "'a dsp_core_scheme \<Rightarrow> 'a dsp_core_scheme" where
  [alu_ops]: "emu_cmp_a_b = alu_cmp ACC_B (load56 ACC_A)"

definition emu_cmp_x0_a :: "'a dsp_core_scheme \<Rightarrow> 'a dsp_core_scheme" where
  [alu_ops]: "emu_cmp_x0_a = alu_cmp ACC_A (src_reg DSP_REG_X0)"

definition emu_cmp_x0_b :: "'a dsp_core_scheme \<Rightarrow> 'a dsp_core_scheme" where
  [alu_ops]: "emu_cmp_x0_b = alu_cmp ACC_B (src_reg DSP_REG_X0)"

definition emu_cmp_y0_a :: "'a dsp_core_scheme \<Rightarrow> 'a dsp_core_scheme" where
  [alu_ops]: "emu_cmp_y0_a = alu_cmp ACC_A (src_reg DSP_REG_Y0)"

definition emu_cmp_y0_b :: "'a dsp_core_scheme \<Rightarrow> 'a dsp_core_scheme" where
  [alu_ops]: "emu_cmp_y0_b = alu_cmp ACC_B (src_reg DSP_REG_Y0)"

definition emu_cmp_x1_a :: "'a dsp_core_scheme \<Rightarrow> 'a dsp_core_scheme" where
  [alu_ops]: "emu_cmp_x1_a = alu_cmp ACC_A (src_reg DSP_REG_X1)"

definition emu_cmp_x1_b :: "'a dsp_core_scheme \<Rightarrow> 'a dsp_core_scheme" where
  [alu_ops]: "emu_cmp_x1_b = alu_cmp ACC_B (src_reg DSP_REG_X1)"

definition emu_cmp_y1_a :: "'a dsp_core_scheme \<Rightarrow> 'a dsp_core_scheme" where
  [alu_ops]: "emu_cmp_y1_a = alu_cmp ACC_A (src_reg DSP_REG_Y1)"

definition emu_cmp_y1_b :: "'a dsp_core_scheme \<Rightarrow> 'a dsp_core_scheme" where
  [alu_ops]: "emu_cmp_y1_b = alu_cmp ACC_B (src_reg DSP_REG_Y1)"

definition emu_cmpm_b_a :: "'a dsp_core_scheme \<Rightarrow> 'a dsp_core_scheme" where
  [alu_ops]: "emu_cmpm_b_a = alu_cmpm ACC_A (load56 ACC_B)"

definition emu_cmpm_a_b :: "'a dsp_core_scheme \<Rightarrow> 'a dsp_core_scheme" where
  [alu_ops]: "emu_cmpm_a_b = alu_cmpm ACC_B (load56 ACC_A)"

definition emu_cmpm_x0_a :: "'a dsp_core_scheme \<Rightarrow> 'a dsp_core_scheme" where
  [alu_ops]: "emu_cmpm_x0_a = alu_cmpm ACC_A (src_reg DSP_REG_X0)"

definition emu_cmpm_x0_b :: "'a dsp_core_scheme \<Rightarrow> 'a dsp_core_scheme" where
  [alu_ops]: "emu_cmpm_x0_b = alu_cmpm ACC_B (src_reg DSP_REG_X0)"

definition emu_cmpm_y0_a :: "'a dsp_core_scheme \<Rightarrow> 'a dsp_core_scheme" where
  [alu_ops]: "emu_cmpm_y0_a = alu_cmpm ACC_A (src_reg DSP_REG_Y0)"

definition emu_cmpm_y0_b :: "'a dsp_core_scheme \<Rightarrow> 'a dsp_core_scheme" where
  [alu_ops]: "emu_cmpm_y0_b = alu_cmpm ACC_B (src_reg DSP_REG_Y0)"

definition emu_cmpm_x1_a :: "'a dsp_core_scheme \<Rightarrow> 'a dsp_core_scheme" where
  [alu_ops]: "emu_cmpm_x1_a = alu_cmpm ACC_A (src_reg DSP_REG_X1)"

definition emu_cmpm_x1_b :: "'a dsp_core_scheme \<Rightarrow> 'a dsp_core_scheme" where
  [alu_ops]: "emu_cmpm_x1_b = alu_cmpm ACC_B (src_reg DSP_REG_X1)"

definition emu_cmpm_y1_a :: "'a dsp_core_scheme \<Rightarrow> 'a dsp_core_scheme" where
  [alu_ops]: "emu_cmpm_y1_a = alu_cmpm ACC_A (src_reg DSP_REG_Y1)"

definition emu_cmpm_y1_b :: "'a dsp_core_scheme \<Rightarrow> 'a dsp_core_scheme" where
  [alu_ops]: "emu_cmpm_y1_b = alu_cmpm ACC_B (src_reg DSP_REG_Y1)"

definition emu_eor_x0_a :: "'a dsp_core_scheme \<Rightarrow> 'a dsp_core_scheme" where
  [alu_ops]: "emu_eor_x0_a = alu_eor ACC_A DSP_REG_X0"

definition emu_eor_x0_b :: "'a dsp_core_scheme \<Rightarrow> 'a dsp_core_scheme" where
  [alu_ops]: "emu_eor_x0_b = alu_eor ACC_B DSP_REG_X0"

definition emu_eor_y0_a :: "'a dsp_core_scheme \<Rightarrow> 'a dsp_core_scheme" where
  [alu_ops]: "emu_eor_y0_a = alu_eor ACC_A DSP_REG_Y0"

definition emu_eor_y0_b :: "'a dsp_core_scheme \<Rightarrow> 'a dsp_core_scheme" where
  [alu_ops]: "emu_eor_y0_b = alu_eor ACC_B DSP_REG_Y0"

definition emu_eor_x1_a :: "'a dsp_core_scheme \<Rightarrow> 'a dsp_core_scheme" where
  [alu_ops]: "emu_eor_x1_a = alu_eor ACC_A DSP_REG_X1"

definition emu_eor_x1_b :: "'a dsp_core_scheme \<Rightarrow> 'a dsp_core_scheme" where
  [alu_ops]: "emu_eor_x1_b = alu_eor ACC_B DSP_REG_X1"

definition emu_eor_y1_a :: "'a dsp_core_scheme \<Rightarrow> 'a dsp_core_scheme" where
  [alu_ops]: "emu_eor_y1_a = alu_eor ACC_A DSP_REG_Y1"

definition emu_eor_y1_b :: "'a dsp_core_scheme \<Rightarrow> 'a dsp_core_scheme" where
  [alu_ops]: "emu_eor_y1_b = alu_eor ACC_B DSP_REG_Y1"

definition emu_lsl_a :: "'a dsp_core_scheme \<Rightarrow> 'a dsp_core_scheme" where
  [alu_ops]: "emu_lsl_a = alu_lsl ACC_A"

definition emu_lsl_b :: "'a dsp_core_scheme \<Rightarrow> 'a dsp_core_scheme" where
  [alu_ops]: "emu_lsl_b = alu_lsl ACC_B"

definition emu_lsr_a :: "'a dsp_core_scheme \<Rightarrow> 'a dsp_core_scheme" where
  [alu_ops]: "emu_lsr_a = alu_lsr ACC_A"

definition emu_lsr_b :: "'a dsp_core_scheme \<Rightarrow> 'a dsp_core_scheme" where
  [alu_ops]: "emu_lsr_b = alu_lsr ACC_B"

definition emu_mac_p_x0_x0_a :: "'a dsp_core_scheme \<Rightarrow> 'a dsp_core_scheme" where
  [alu_ops]: "emu_mac_p_x0_x0_a = alu_mac DSP_REG_X0 DSP_REG_X0 SIGN_PLUS ACC_A"

definition emu_mac_m_x0_x0_a :: "'a dsp_core_scheme \<Rightarrow> 'a dsp_core_scheme" where
  [alu_ops]: "emu_mac_m_x0_x0_a = alu_mac DSP_REG_X0 DSP_REG_X0 SIGN_MINUS ACC_A"

definition emu_mac_p_x0_x0_b :: "'a dsp_core_scheme \<Rightarrow> 'a dsp_core_scheme" where
  [alu_ops]: "emu_mac_p_x0_x0_b = alu_mac DSP_REG_X0 DSP_REG_X0 SIGN_PLUS ACC_B"

definition emu_mac_m_x0_x0_b :: "'a dsp_core_scheme \<Rightarrow> 'a dsp_core_scheme" where
  [alu_ops]: "emu_mac_m_x0_x0_b = alu_mac DSP_REG_X0 DSP_REG_X0 SIGN_MINUS ACC_B"

definition emu_mac_p_y0_y0_a :: "'a dsp_core_scheme \<Rightarrow> 'a dsp_core_scheme" where
  [alu_ops]: "emu_mac_p_y0_y0_a = alu_mac DSP_REG_Y0 DSP_REG_Y0 SIGN_PLUS ACC_A"

definition emu_mac_m_y0_y0_a :: "'a dsp_core_scheme \<Rightarrow> 'a dsp_core_scheme" where
  [alu_ops]: "emu_mac_m_y0_y0_a = alu_mac DSP_REG_Y0 DSP_REG_Y0 SIGN_MINUS ACC_A"

definition emu_mac_p_y0_y0_b :: "'a dsp_core_scheme \<Rightarrow> 'a dsp_core_scheme" where
  [alu_ops]: "emu_mac_p_y0_y0_b = alu_mac DSP_REG_Y0 DSP_REG_Y0 SIGN_PLUS ACC_B"

definition emu_mac_m_y0_y0_b :: "'a dsp_core_scheme \<Rightarrow> 'a dsp_core_scheme" where
  [alu_ops]: "emu_mac_m_y0_y0_b = alu_mac DSP_REG_Y0 DSP_REG_Y0 SIGN_MINUS ACC_B"

definition emu_mac_p_x1_x0_a :: "'a dsp_core_scheme \<Rightarrow> 'a dsp_core_scheme" where
  [alu_ops]: "emu_mac_p_x1_x0_a = alu_mac DSP_REG_X1 DSP_REG_X0 SIGN_PLUS ACC_A"

definition emu_mac_m_x1_x0_a :: "'a dsp_core_scheme \<Rightarrow> 'a dsp_core_scheme" where
  [alu_ops]: "emu_mac_m_x1_x0_a = alu_mac DSP_REG_X1 DSP_REG_X0 SIGN_MINUS ACC_A"

definition emu_mac_p_x1_x0_b :: "'a dsp_core_scheme \<Rightarrow> 'a dsp_core_scheme" where
  [alu_ops]: "emu_mac_p_x1_x0_b = alu_mac DSP_REG_X1 DSP_REG_X0 SIGN_PLUS ACC_B"

definition emu_mac_m_x1_x0_b :: "'a dsp_core_scheme \<Rightarrow> 'a dsp_core_scheme" where
  [alu_ops]: "emu_mac_m_x1_x0_b = alu_mac DSP_REG_X1 DSP_REG_X0 SIGN_MINUS ACC_B"

definition emu_mac_p_y1_y0_a :: "'a dsp_core_scheme \<Rightarrow> 'a dsp_core_scheme" where
  [alu_ops]: "emu_mac_p_y1_y0_a = alu_mac DSP_REG_Y1 DSP_REG_Y0 SIGN_PLUS ACC_A"

definition emu_mac_m_y1_y0_a :: "'a dsp_core_scheme \<Rightarrow> 'a dsp_core_scheme" where
  [alu_ops]: "emu_mac_m_y1_y0_a = alu_mac DSP_REG_Y1 DSP_REG_Y0 SIGN_MINUS ACC_A"

definition emu_mac_p_y1_y0_b :: "'a dsp_core_scheme \<Rightarrow> 'a dsp_core_scheme" where
  [alu_ops]: "emu_mac_p_y1_y0_b = alu_mac DSP_REG_Y1 DSP_REG_Y0 SIGN_PLUS ACC_B"

definition emu_mac_m_y1_y0_b :: "'a dsp_core_scheme \<Rightarrow> 'a dsp_core_scheme" where
  [alu_ops]: "emu_mac_m_y1_y0_b = alu_mac DSP_REG_Y1 DSP_REG_Y0 SIGN_MINUS ACC_B"

definition emu_mac_p_x0_y1_a :: "'a dsp_core_scheme \<Rightarrow> 'a dsp_core_scheme" where
  [alu_ops]: "emu_mac_p_x0_y1_a = alu_mac DSP_REG_X0 DSP_REG_Y1 SIGN_PLUS ACC_A"

definition emu_mac_m_x0_y1_a :: "'a dsp_core_scheme \<Rightarrow> 'a dsp_core_scheme" where
  [alu_ops]: "emu_mac_m_x0_y1_a = alu_mac DSP_REG_X0 DSP_REG_Y1 SIGN_MINUS ACC_A"

definition emu_mac_p_x0_y1_b :: "'a dsp_core_scheme \<Rightarrow> 'a dsp_core_scheme" where
  [alu_ops]: "emu_mac_p_x0_y1_b = alu_mac DSP_REG_X0 DSP_REG_Y1 SIGN_PLUS ACC_B"

definition emu_mac_m_x0_y1_b :: "'a dsp_core_scheme \<Rightarrow> 'a dsp_core_scheme" where
  [alu_ops]: "emu_mac_m_x0_y1_b = alu_mac DSP_REG_X0 DSP_REG_Y1 SIGN_MINUS ACC_B"

definition emu_mac_p_y0_x0_a :: "'a dsp_core_scheme \<Rightarrow> 'a dsp_core_scheme" where
  [alu_ops]: "emu_mac_p_y0_x0_a = alu_mac DSP_REG_Y0 DSP_REG_X0 SIGN_PLUS ACC_A"

definition emu_mac_m_y0_x0_a :: "'a dsp_core_scheme \<Rightarrow> 'a dsp_core_scheme" where
  [alu_ops]: "emu_mac_m_y0_x0_a = alu_mac DSP_REG_Y0 DSP_REG_X0 SIGN_MINUS ACC_A"

definition emu_mac_p_y0_x0_b :: "'a dsp_core_scheme \<Rightarrow> 'a dsp_core_scheme" where
  [alu_ops]: "emu_mac_p_y0_x0_b = alu_mac DSP_REG_Y0 DSP_REG_X0 SIGN_PLUS ACC_B"

definition emu_mac_m_y0_x0_b :: "'a dsp_core_scheme \<Rightarrow> 'a dsp_core_scheme" where
  [alu_ops]: "emu_mac_m_y0_x0_b = alu_mac DSP_REG_Y0 DSP_REG_X0 SIGN_MINUS ACC_B"

definition emu_mac_p_x1_y0_a :: "'a dsp_core_scheme \<Rightarrow> 'a dsp_core_scheme" where
  [alu_ops]: "emu_mac_p_x1_y0_a = alu_mac DSP_REG_X1 DSP_REG_Y0 SIGN_PLUS ACC_A"

definition emu_mac_m_x1_y0_a :: "'a dsp_core_scheme \<Rightarrow> 'a dsp_core_scheme" where
  [alu_ops]: "emu_mac_m_x1_y0_a = alu_mac DSP_REG_X1 DSP_REG_Y0 SIGN_MINUS ACC_A"

definition emu_mac_p_x1_y0_b :: "'a dsp_core_scheme \<Rightarrow> 'a dsp_core_scheme" where
  [alu_ops]: "emu_mac_p_x1_y0_b = alu_mac DSP_REG_X1 DSP_REG_Y0 SIGN_PLUS ACC_B"

definition emu_mac_m_x1_y0_b :: "'a dsp_core_scheme \<Rightarrow> 'a dsp_core_scheme" where
  [alu_ops]: "emu_mac_m_x1_y0_b = alu_mac DSP_REG_X1 DSP_REG_Y0 SIGN_MINUS ACC_B"

definition emu_mac_p_y1_x1_a :: "'a dsp_core_scheme \<Rightarrow> 'a dsp_core_scheme" where
  [alu_ops]: "emu_mac_p_y1_x1_a = alu_mac DSP_REG_Y1 DSP_REG_X1 SIGN_PLUS ACC_A"

definition emu_mac_m_y1_x1_a :: "'a dsp_core_scheme \<Rightarrow> 'a dsp_core_scheme" where
  [alu_ops]: "emu_mac_m_y1_x1_a = alu_mac DSP_REG_Y1 DSP_REG_X1 SIGN_MINUS ACC_A"

definition emu_mac_p_y1_x1_b :: "'a dsp_core_scheme \<Rightarrow> 'a dsp_core_scheme" where
  [alu_ops]: "emu_mac_p_y1_x1_b = alu_mac DSP_REG_Y1 DSP_REG_X1 SIGN_PLUS ACC_B"

definition emu_mac_m_y1_x1_b :: "'a dsp_core_scheme \<Rightarrow> 'a dsp_core_scheme" where
  [alu_ops]: "emu_mac_m_y1_x1_b = alu_mac DSP_REG_Y1 DSP_REG_X1 SIGN_MINUS ACC_B"

definition emu_macr_p_x0_x0_a :: "'a dsp_core_scheme \<Rightarrow> 'a dsp_core_scheme" where
  [alu_ops]: "emu_macr_p_x0_x0_a = alu_macr DSP_REG_X0 DSP_REG_X0 SIGN_PLUS ACC_A"

definition emu_macr_m_x0_x0_a :: "'a dsp_core_scheme \<Rightarrow> 'a dsp_core_scheme" where
  [alu_ops]: "emu_macr_m_x0_x0_a = alu_macr DSP_REG_X0 DSP_REG_X0 SIGN_MINUS ACC_A"

definition emu_macr_p_x0_x0_b :: "'a dsp_core_scheme \<Rightarrow> 'a dsp_core_scheme" where
  [alu_ops]: "emu_macr_p_x0_x0_b = alu_macr DSP_REG_X0 DSP_REG_X0 SIGN_PLUS ACC_B"

definition emu_macr_m_x0_x0_b :: "'a dsp_core_scheme \<Rightarrow> 'a dsp_core_scheme" where
  [alu_ops]: "emu_macr_m_x0_x0_b = alu_macr DSP_REG_X0 DSP_REG_X0 SIGN_MINUS ACC_B"

definition emu_macr_p_y0_y0_a :: "'a dsp_core_scheme \<Rightarrow> 'a dsp_core_scheme" where
  [alu_ops]: "emu_macr_p_y0_y0_a = alu_macr DSP_REG_Y0 DSP_REG_Y0 SIGN_PLUS ACC_A"

definition emu_macr_m_y0_y0_a :: "'a dsp_core_scheme \<Rightarrow> 'a dsp_core_scheme" where
  [alu_ops]: "emu_macr_m_y0_y0_a = alu_macr DSP_REG_Y0 DSP_REG_Y0 SIGN_MINUS ACC_A"

definition emu_macr_p_y0_y0_b :: "'a dsp_core_scheme \<Rightarrow> 'a dsp_core_scheme" where
  [alu_ops]: "emu_macr_p_y0_y0_b = alu_macr DSP_REG_Y0 DSP_REG_Y0 SIGN_PLUS ACC_B"

definition emu_macr_m_y0_y0_b :: "'a dsp_core_scheme \<Rightarrow> 'a dsp_core_scheme" where
  [alu_ops]: "emu_macr_m_y0_y0_b = alu_macr DSP_REG_Y0 DSP_REG_Y0 SIGN_MINUS ACC_B"

definition emu_macr_p_x1_x0_a :: "'a dsp_core_scheme \<Rightarrow> 'a dsp_core_scheme" where
  [alu_ops]: "emu_macr_p_x1_x0_a = alu_macr DSP_REG_X1 DSP_REG_X0 SIGN_PLUS ACC_A"

definition emu_macr_m_x1_x0_a :: "'a dsp_core_scheme \<Rightarrow> 'a dsp_core_scheme" where
  [alu_ops]: "emu_macr_m_x1_x0_a = alu_macr DSP_REG_X1 DSP_REG_X0 SIGN_MINUS ACC_A"

definition emu_macr_p_x1_x0_b :: "'a dsp_core_scheme \<Rightarrow> 'a dsp_core_scheme" where
  [alu_ops]: "emu_macr_p_x1_x0_b = alu_macr DSP_REG_X1 DSP_REG_X0 SIGN_PLUS ACC_B"

definition emu_macr_m_x1_x0_b :: "'a dsp_core_scheme \<Rightarrow> 'a dsp_core_scheme" where
  [alu_ops]: "emu_macr_m_x1_x0_b = alu_macr DSP_REG_X1 DSP_REG_X0 SIGN_MINUS ACC_B"

definition emu_macr_p_y1_y0_a :: "'a dsp_core_scheme \<Rightarrow> 'a dsp_core_scheme" where
  [alu_ops]: "emu_macr_p_y1_y0_a = alu_macr DSP_REG_Y1 DSP_REG_Y0 SIGN_PLUS ACC_A"

definition emu_macr_m_y1_y0_a :: "'a dsp_core_scheme \<Rightarrow> 'a dsp_core_scheme" where
  [alu_ops]: "emu_macr_m_y1_y0_a = alu_macr DSP_REG_Y1 DSP_REG_Y0 SIGN_MINUS ACC_A"

definition emu_macr_p_y1_y0_b :: "'a dsp_core_scheme \<Rightarrow> 'a dsp_core_scheme" where
  [alu_ops]: "emu_macr_p_y1_y0_b = alu_macr DSP_REG_Y1 DSP_REG_Y0 SIGN_PLUS ACC_B"

definition emu_macr_m_y1_y0_b :: "'a dsp_core_scheme \<Rightarrow> 'a dsp_core_scheme" where
  [alu_ops]: "emu_macr_m_y1_y0_b = alu_macr DSP_REG_Y1 DSP_REG_Y0 SIGN_MINUS ACC_B"

definition emu_macr_p_x0_y1_a :: "'a dsp_core_scheme \<Rightarrow> 'a dsp_core_scheme" where
  [alu_ops]: "emu_macr_p_x0_y1_a = alu_macr DSP_REG_X0 DSP_REG_Y1 SIGN_PLUS ACC_A"

definition emu_macr_m_x0_y1_a :: "'a dsp_core_scheme \<Rightarrow> 'a dsp_core_scheme" where
  [alu_ops]: "emu_macr_m_x0_y1_a = alu_macr DSP_REG_X0 DSP_REG_Y1 SIGN_MINUS ACC_A"

definition emu_macr_p_x0_y1_b :: "'a dsp_core_scheme \<Rightarrow> 'a dsp_core_scheme" where
  [alu_ops]: "emu_macr_p_x0_y1_b = alu_macr DSP_REG_X0 DSP_REG_Y1 SIGN_PLUS ACC_B"

definition emu_macr_m_x0_y1_b :: "'a dsp_core_scheme \<Rightarrow> 'a dsp_core_scheme" where
  [alu_ops]: "emu_macr_m_x0_y1_b = alu_macr DSP_REG_X0 DSP_REG_Y1 SIGN_MINUS ACC_B"

definition emu_macr_p_y0_x0_a :: "'a dsp_core_scheme \<Rightarrow> 'a dsp_core_scheme" where
  [alu_ops]: "emu_macr_p_y0_x0_a = alu_macr DSP_REG_Y0 DSP_REG_X0 SIGN_PLUS ACC_A"

definition emu_macr_m_y0_x0_a :: "'a dsp_core_scheme \<Rightarrow> 'a dsp_core_scheme" where
  [alu_ops]: "emu_macr_m_y0_x0_a = alu_macr DSP_REG_Y0 DSP_REG_X0 SIGN_MINUS ACC_A"

definition emu_macr_p_y0_x0_b :: "'a dsp_core_scheme \<Rightarrow> 'a dsp_core_scheme" where
  [alu_ops]: "emu_macr_p_y0_x0_b = alu_macr DSP_REG_Y0 DSP_REG_X0 SIGN_PLUS ACC_B"

definition emu_macr_m_y0_x0_b :: "'a dsp_core_scheme \<Rightarrow> 'a dsp_core_scheme" where
  [alu_ops]: "emu_macr_m_y0_x0_b = alu_macr DSP_REG_Y0 DSP_REG_X0 SIGN_MINUS ACC_B"

definition emu_macr_p_x1_y0_a :: "'a dsp_core_scheme \<Rightarrow> 'a dsp_core_scheme" where
  [alu_ops]: "emu_macr_p_x1_y0_a = alu_macr DSP_REG_X1 DSP_REG_Y0 SIGN_PLUS ACC_A"

definition emu_macr_m_x1_y0_a :: "'a dsp_core_scheme \<Rightarrow> 'a dsp_core_scheme" where
  [alu_ops]: "emu_macr_m_x1_y0_a = alu_macr DSP_REG_X1 DSP_REG_Y0 SIGN_MINUS ACC_A"

text \<open>\<open>emu_macr_p_x1_y0_b\<close> rounds the uninitialised \<open>dest\<close> before it loads the accumulator into
  it; the sum is not rounded.\<close>

definition emu_macr_p_x1_y0_b :: "'a dsp_core_scheme \<Rightarrow> 'a dsp_core_scheme" where
  [alu_ops]: "emu_macr_p_x1_y0_b = alu_mac DSP_REG_X1 DSP_REG_Y0 SIGN_PLUS ACC_B"

definition emu_macr_m_x1_y0_b :: "'a dsp_core_scheme \<Rightarrow> 'a dsp_core_scheme" where
  [alu_ops]: "emu_macr_m_x1_y0_b = alu_macr DSP_REG_X1 DSP_REG_Y0 SIGN_MINUS ACC_B"

definition emu_macr_p_y1_x1_a :: "'a dsp_core_scheme \<Rightarrow> 'a dsp_core_scheme" where
  [alu_ops]: "emu_macr_p_y1_x1_a = alu_macr DSP_REG_Y1 DSP_REG_X1 SIGN_PLUS ACC_A"

definition emu_macr_m_y1_x1_a :: "'a dsp_core_scheme \<Rightarrow> 'a dsp_core_scheme" where
  [alu_ops]: "emu_macr_m_y1_x1_a = alu_macr DSP_REG_Y1 DSP_REG_X1 SIGN_MINUS ACC_A"

definition emu_macr_p_y1_x1_b :: "'a dsp_core_scheme \<Rightarrow> 'a dsp_core_scheme" where
  [alu_ops]: "emu_macr_p_y1_x1_b = alu_macr DSP_REG_Y1 DSP_REG_X1 SIGN_PLUS ACC_B"

definition emu_macr_m_y1_x1_b :: "'a dsp_core_scheme \<Rightarrow> 'a dsp_core_scheme" where
  [alu_ops]: "emu_macr_m_y1_x1_b = alu_macr DSP_REG_Y1 DSP_REG_X1 SIGN_MINUS ACC_B"

definition emu_mpy_p_x0_x0_a :: "'a dsp_core_scheme \<Rightarrow> 'a dsp_core_scheme" where
  [alu_ops]: "emu_mpy_p_x0_x0_a = alu_mpy DSP_REG_X0 DSP_REG_X0 SIGN_PLUS ACC_A"

definition emu_mpy_m_x0_x0_a :: "'a dsp_core_scheme \<Rightarrow> 'a dsp_core_scheme" where
  [alu_ops]: "emu_mpy_m_x0_x0_a = alu_mpy DSP_REG_X0 DSP_REG_X0 SIGN_MINUS ACC_A"

definition emu_mpy_p_x0_x0_b :: "'a dsp_core_scheme \<Rightarrow> 'a dsp_core_scheme" where
  [alu_ops]: "emu_mpy_p_x0_x0_b = alu_mpy DSP_REG_X0 DSP_REG_X0 SIGN_PLUS ACC_B"

definition emu_mpy_m_x0_x0_b :: "'a dsp_core_scheme \<Rightarrow> 'a dsp_core_scheme" where
  [alu_ops]: "emu_mpy_m_x0_x0_b = alu_mpy DSP_REG_X0 DSP_REG_X0 SIGN_MINUS ACC_B"

definition emu_mpy_p_y0_y0_a :: "'a dsp_core_scheme \<Rightarrow> 'a dsp_core_scheme" where
  [alu_ops]: "emu_mpy_p_y0_y0_a = alu_mpy DSP_REG_Y0 DSP_REG_Y0 SIGN_PLUS ACC_A"

definition emu_mpy_m_y0_y0_a :: "'a dsp_core_scheme \<Rightarrow> 'a dsp_core_scheme" where
  [alu_ops]: "emu_mpy_m_y0_y0_a = alu_mpy DSP_REG_Y0 DSP_REG_Y0 SIGN_MINUS ACC_A"

definition emu_mpy_p_y0_y0_b :: "'a dsp_core_scheme \<Rightarrow> 'a dsp_core_scheme" where
  [alu_ops]: "emu_mpy_p_y0_y0_b = alu_mpy DSP_REG_Y0 DSP_REG_Y0 SIGN_PLUS ACC_B"

definition emu_mpy_m_y0_y0_b :: "'a dsp_core_scheme \<Rightarrow> 'a dsp_core_scheme" where
  [alu_ops]: "emu_mpy_m_y0_y0_b = alu_mpy DSP_REG_Y0 DSP_REG_Y0 SIGN_MINUS ACC_B"

definition emu_mpy_p_x1_x0_a :: "'a dsp_core_scheme \<Rightarrow> 'a dsp_core_scheme" where
  [alu_ops]: "emu_mpy_p_x1_x0_a = alu_mpy DSP_REG_X1 DSP_REG_X0 SIGN_PLUS ACC_A"

definition emu_mpy_m_x1_x0_a :: "'a dsp_core_scheme \<Rightarrow> 'a dsp_core_scheme" where
  [alu_ops]: "emu_mpy_m_x1_x0_a = alu_mpy DSP_REG_X1 DSP_REG_X0 SIGN_MINUS ACC_A"

definition emu_mpy_p_x1_x0_b :: "'a dsp_core_scheme \<Rightarrow> 'a dsp_core_scheme" where
  [alu_ops]: "emu_mpy_p_x1_x0_b = alu_mpy DSP_REG_X1 DSP_REG_X0 SIGN_PLUS ACC_B"

definition emu_mpy_m_x1_x0_b :: "'a dsp_core_scheme \<Rightarrow> 'a dsp_core_scheme" where
  [alu_ops]: "emu_mpy_m_x1_x0_b = alu_mpy DSP_REG_X1 DSP_REG_X0 SIGN_MINUS ACC_B"

definition emu_mpy_p_y1_y0_a :: "'a dsp_core_scheme \<Rightarrow> 'a dsp_core_scheme" where
  [alu_ops]: "emu_mpy_p_y1_y0_a = alu_mpy DSP_REG_Y1 DSP_REG_Y0 SIGN_PLUS ACC_A"

definition emu_mpy_m_y1_y0_a :: "'a dsp_core_scheme \<Rightarrow> 'a dsp_core_scheme" where
  [alu_ops]: "emu_mpy_m_y1_y0_a = alu_mpy DSP_REG_Y1 DSP_REG_Y0 SIGN_MINUS ACC_A"

definition emu_mpy_p_y1_y0_b :: "'a dsp_core_scheme \<Rightarrow> 'a dsp_core_scheme" where
  [alu_ops]: "emu_mpy_p_y1_y0_b = alu_mpy DSP_REG_Y1 DSP_REG_Y0 SIGN_PLUS ACC_B"

definition emu_mpy_m_y1_y0_b :: "'a dsp_core_scheme \<Rightarrow> 'a dsp_core_scheme" where
  [alu_ops]: "emu_mpy_m_y1_y0_b = alu_mpy DSP_REG_Y1 DSP_REG_Y0 SIGN_MINUS ACC_B"

definition emu_mpy_p_x0_y1_a :: "'a dsp_core_scheme \<Rightarrow> 'a dsp_core_scheme" where
  [alu_ops]: "emu_mpy_p_x0_y1_a = alu_mpy DSP_REG_X0 DSP_REG_Y1 SIGN_PLUS ACC_A"

definition emu_mpy_m_x0_y1_a :: "'a dsp_core_scheme \<Rightarrow> 'a dsp_core_scheme" where
  [alu_ops]: "emu_mpy_m_x0_y1_a = alu_mpy DSP_REG_X0 DSP_REG_Y1 SIGN_MINUS ACC_A"

definition emu_mpy_p_x0_y1_b :: "'a dsp_core_scheme \<Rightarrow> 'a dsp_core_scheme" where
  [alu_ops]: "emu_mpy_p_x0_y1_b = alu_mpy DSP_REG_X0 DSP_REG_Y1 SIGN_PLUS ACC_B"

definition emu_mpy_m_x0_y1_b :: "'a dsp_core_scheme \<Rightarrow> 'a dsp_core_scheme" where
  [alu_ops]: "emu_mpy_m_x0_y1_b = alu_mpy DSP_REG_X0 DSP_REG_Y1 SIGN_MINUS ACC_B"

definition emu_mpy_p_y0_x0_a :: "'a dsp_core_scheme \<Rightarrow> 'a dsp_core_scheme" where
  [alu_ops]: "emu_mpy_p_y0_x0_a = alu_mpy DSP_REG_Y0 DSP_REG_X0 SIGN_PLUS ACC_A"

definition emu_mpy_m_y0_x0_a :: "'a dsp_core_scheme \<Rightarrow> 'a dsp_core_scheme" where
  [alu_ops]: "emu_mpy_m_y0_x0_a = alu_mpy DSP_REG_Y0 DSP_REG_X0 SIGN_MINUS ACC_A"

definition emu_mpy_p_y0_x0_b :: "'a dsp_core_scheme \<Rightarrow> 'a dsp_core_scheme" where
  [alu_ops]: "emu_mpy_p_y0_x0_b = alu_mpy DSP_REG_Y0 DSP_REG_X0 SIGN_PLUS ACC_B"

definition emu_mpy_m_y0_x0_b :: "'a dsp_core_scheme \<Rightarrow> 'a dsp_core_scheme" where
  [alu_ops]: "emu_mpy_m_y0_x0_b = alu_mpy DSP_REG_Y0 DSP_REG_X0 SIGN_MINUS ACC_B"

definition emu_mpy_p_x1_y0_a :: "'a dsp_core_scheme \<Rightarrow> 'a dsp_core_scheme" where
  [alu_ops]: "emu_mpy_p_x1_y0_a = alu_mpy DSP_REG_X1 DSP_REG_Y0 SIGN_PLUS ACC_A"

definition emu_mpy_m_x1_y0_a :: "'a dsp_core_scheme \<Rightarrow> 'a dsp_core_scheme" where
  [alu_ops]: "emu_mpy_m_x1_y0_a = alu_mpy DSP_REG_X1 DSP_REG_Y0 SIGN_MINUS ACC_A"

definition emu_mpy_p_x1_y0_b :: "'a dsp_core_scheme \<Rightarrow> 'a dsp_core_scheme" where
  [alu_ops]: "emu_mpy_p_x1_y0_b = alu_mpy DSP_REG_X1 DSP_REG_Y0 SIGN_PLUS ACC_B"

definition emu_mpy_m_x1_y0_b :: "'a dsp_core_scheme \<Rightarrow> 'a dsp_core_scheme" where
  [alu_ops]: "emu_mpy_m_x1_y0_b = alu_mpy DSP_REG_X1 DSP_REG_Y0 SIGN_MINUS ACC_B"

definition emu_mpy_p_y1_x1_a :: "'a dsp_core_scheme \<Rightarrow> 'a dsp_core_scheme" where
  [alu_ops]: "emu_mpy_p_y1_x1_a = alu_mpy DSP_REG_Y1 DSP_REG_X1 SIGN_PLUS ACC_A"

definition emu_mpy_m_y1_x1_a :: "'a dsp_core_scheme \<Rightarrow> 'a dsp_core_scheme" where
  [alu_ops]: "emu_mpy_m_y1_x1_a = alu_mpy DSP_REG_Y1 DSP_REG_X1 SIGN_MINUS ACC_A"

definition emu_mpy_p_y1_x1_b :: "'a dsp_core_scheme \<Rightarrow> 'a dsp_core_scheme" where
  [alu_ops]: "emu_mpy_p_y1_x1_b = alu_mpy DSP_REG_Y1 DSP_REG_X1 SIGN_PLUS ACC_B"

definition emu_mpy_m_y1_x1_b :: "'a dsp_core_scheme \<Rightarrow> 'a dsp_core_scheme" where
  [alu_ops]: "emu_mpy_m_y1_x1_b = alu_mpy DSP_REG_Y1 DSP_REG_X1 SIGN_MINUS ACC_B"

definition emu_mpyr_p_x0_x0_a :: "'a dsp_core_scheme \<Rightarrow> 'a dsp_core_scheme" where
  [alu_ops]: "emu_mpyr_p_x0_x0_a = alu_mpyr DSP_REG_X0 DSP_REG_X0 SIGN_PLUS ACC_A"

definition emu_mpyr_m_x0_x0_a :: "'a dsp_core_scheme \<Rightarrow> 'a dsp_core_scheme" where
  [alu_ops]: "emu_mpyr_m_x0_x0_a = alu_mpyr DSP_REG_X0 DSP_REG_X0 SIGN_MINUS ACC_A"

definition emu_mpyr_p_x0_x0_b :: "'a dsp_core_scheme \<Rightarrow> 'a dsp_core_scheme" where
  [alu_ops]: "emu_mpyr_p_x0_x0_b = alu_mpyr DSP_REG_X0 DSP_REG_X0 SIGN_PLUS ACC_B"

definition emu_mpyr_m_x0_x0_b :: "'a dsp_core_scheme \<Rightarrow> 'a dsp_core_scheme" where
  [alu_ops]: "emu_mpyr_m_x0_x0_b = alu_mpyr DSP_REG_X0 DSP_REG_X0 SIGN_MINUS ACC_B"

definition emu_mpyr_p_y0_y0_a :: "'a dsp_core_scheme \<Rightarrow> 'a dsp_core_scheme" where
  [alu_ops]: "emu_mpyr_p_y0_y0_a = alu_mpyr DSP_REG_Y0 DSP_REG_Y0 SIGN_PLUS ACC_A"

definition emu_mpyr_m_y0_y0_a :: "'a dsp_core_scheme \<Rightarrow> 'a dsp_core_scheme" where
  [alu_ops]: "emu_mpyr_m_y0_y0_a = alu_mpyr DSP_REG_Y0 DSP_REG_Y0 SIGN_MINUS ACC_A"

definition emu_mpyr_p_y0_y0_b :: "'a dsp_core_scheme \<Rightarrow> 'a dsp_core_scheme" where
  [alu_ops]: "emu_mpyr_p_y0_y0_b = alu_mpyr DSP_REG_Y0 DSP_REG_Y0 SIGN_PLUS ACC_B"

definition emu_mpyr_m_y0_y0_b :: "'a dsp_core_scheme \<Rightarrow> 'a dsp_core_scheme" where
  [alu_ops]: "emu_mpyr_m_y0_y0_b = alu_mpyr DSP_REG_Y0 DSP_REG_Y0 SIGN_MINUS ACC_B"

definition emu_mpyr_p_x1_x0_a :: "'a dsp_core_scheme \<Rightarrow> 'a dsp_core_scheme" where
  [alu_ops]: "emu_mpyr_p_x1_x0_a = alu_mpyr DSP_REG_X1 DSP_REG_X0 SIGN_PLUS ACC_A"

definition emu_mpyr_m_x1_x0_a :: "'a dsp_core_scheme \<Rightarrow> 'a dsp_core_scheme" where
  [alu_ops]: "emu_mpyr_m_x1_x0_a = alu_mpyr DSP_REG_X1 DSP_REG_X0 SIGN_MINUS ACC_A"

definition emu_mpyr_p_x1_x0_b :: "'a dsp_core_scheme \<Rightarrow> 'a dsp_core_scheme" where
  [alu_ops]: "emu_mpyr_p_x1_x0_b = alu_mpyr DSP_REG_X1 DSP_REG_X0 SIGN_PLUS ACC_B"

definition emu_mpyr_m_x1_x0_b :: "'a dsp_core_scheme \<Rightarrow> 'a dsp_core_scheme" where
  [alu_ops]: "emu_mpyr_m_x1_x0_b = alu_mpyr DSP_REG_X1 DSP_REG_X0 SIGN_MINUS ACC_B"

definition emu_mpyr_p_y1_y0_a :: "'a dsp_core_scheme \<Rightarrow> 'a dsp_core_scheme" where
  [alu_ops]: "emu_mpyr_p_y1_y0_a = alu_mpyr DSP_REG_Y1 DSP_REG_Y0 SIGN_PLUS ACC_A"

definition emu_mpyr_m_y1_y0_a :: "'a dsp_core_scheme \<Rightarrow> 'a dsp_core_scheme" where
  [alu_ops]: "emu_mpyr_m_y1_y0_a = alu_mpyr DSP_REG_Y1 DSP_REG_Y0 SIGN_MINUS ACC_A"

definition emu_mpyr_p_y1_y0_b :: "'a dsp_core_scheme \<Rightarrow> 'a dsp_core_scheme" where
  [alu_ops]: "emu_mpyr_p_y1_y0_b = alu_mpyr DSP_REG_Y1 DSP_REG_Y0 SIGN_PLUS ACC_B"

definition emu_mpyr_m_y1_y0_b :: "'a dsp_core_scheme \<Rightarrow> 'a dsp_core_scheme" where
  [alu_ops]: "emu_mpyr_m_y1_y0_b = alu_mpyr DSP_REG_Y1 DSP_REG_Y0 SIGN_MINUS ACC_B"

definition emu_mpyr_p_x0_y1_a :: "'a dsp_core_scheme \<Rightarrow> 'a dsp_core_scheme" where
  [alu_ops]: "emu_mpyr_p_x0_y1_a = alu_mpyr DSP_REG_X0 DSP_REG_Y1 SIGN_PLUS ACC_A"

definition emu_mpyr_m_x0_y1_a :: "'a dsp_core_scheme \<Rightarrow> 'a dsp_core_scheme" where
  [alu_ops]: "emu_mpyr_m_x0_y1_a = alu_mpyr DSP_REG_X0 DSP_REG_Y1 SIGN_MINUS ACC_A"

definition emu_mpyr_p_x0_y1_b :: "'a dsp_core_scheme \<Rightarrow> 'a dsp_core_scheme" where
  [alu_ops]: "emu_mpyr_p_x0_y1_b = alu_mpyr DSP_REG_X0 DSP_REG_Y1 SIGN_PLUS ACC_B"

definition emu_mpyr_m_x0_y1_b :: "'a dsp_core_scheme \<Rightarrow> 'a dsp_core_scheme" where
  [alu_ops]: "emu_mpyr_m_x0_y1_b = alu_mpyr DSP_REG_X0 DSP_REG_Y1 SIGN_MINUS ACC_B"

definition emu_mpyr_p_y0_x0_a :: "'a dsp_core_scheme \<Rightarrow> 'a dsp_core_scheme" where
  [alu_ops]: "emu_mpyr_p_y0_x0_a = alu_mpyr DSP_REG_Y0 DSP_REG_X0 SIGN_PLUS ACC_A"

definition emu_mpyr_m_y0_x0_a :: "'a dsp_core_scheme \<Rightarrow> 'a dsp_core_scheme" where
  [alu_ops]: "emu_mpyr_m_y0_x0_a = alu_mpyr DSP_REG_Y0 DSP_REG_X0 SIGN_MINUS ACC_A"

definition emu_mpyr_p_y0_x0_b :: "'a dsp_core_scheme \<Rightarrow> 'a dsp_core_scheme" where
  [alu_ops]: "emu_mpyr_p_y0_x0_b = alu_mpyr DSP_REG_Y0 DSP_REG_X0 SIGN_PLUS ACC_B"

definition emu_mpyr_m_y0_x0_b :: "'a dsp_core_scheme \<Rightarrow> 'a dsp_core_scheme" where
  [alu_ops]: "emu_mpyr_m_y0_x0_b = alu_mpyr DSP_REG_Y0 DSP_REG_X0 SIGN_MINUS ACC_B"

definition emu_mpyr_p_x1_y0_a :: "'a dsp_core_scheme \<Rightarrow> 'a dsp_core_scheme" where
  [alu_ops]: "emu_mpyr_p_x1_y0_a = alu_mpyr DSP_REG_X1 DSP_REG_Y0 SIGN_PLUS ACC_A"

definition emu_mpyr_m_x1_y0_a :: "'a dsp_core_scheme \<Rightarrow> 'a dsp_core_scheme" where
  [alu_ops]: "emu_mpyr_m_x1_y0_a = alu_mpyr DSP_REG_X1 DSP_REG_Y0 SIGN_MINUS ACC_A"

definition emu_mpyr_p_x1_y0_b :: "'a dsp_core_scheme \<Rightarrow> 'a dsp_core_scheme" where
  [alu_ops]: "emu_mpyr_p_x1_y0_b = alu_mpyr DSP_REG_X1 DSP_REG_Y0 SIGN_PLUS ACC_B"

definition emu_mpyr_m_x1_y0_b :: "'a dsp_core_scheme \<Rightarrow> 'a dsp_core_scheme" where
  [alu_ops]: "emu_mpyr_m_x1_y0_b = alu_mpyr DSP_REG_X1 DSP_REG_Y0 SIGN_MINUS ACC_B"

definition emu_mpyr_p_y1_x1_a :: "'a dsp_core_scheme \<Rightarrow> 'a dsp_core_scheme" where
  [alu_ops]: "emu_mpyr_p_y1_x1_a = alu_mpyr DSP_REG_Y1 DSP_REG_X1 SIGN_PLUS ACC_A"

definition emu_mpyr_m_y1_x1_a :: "'a dsp_core_scheme \<Rightarrow> 'a dsp_core_scheme" where
  [alu_ops]: "emu_mpyr_m_y1_x1_a = alu_mpyr DSP_REG_Y1 DSP_REG_X1 SIGN_MINUS ACC_A"

definition emu_mpyr_p_y1_x1_b :: "'a dsp_core_scheme \<Rightarrow> 'a dsp_core_scheme" where
  [alu_ops]: "emu_mpyr_p_y1_x1_b = alu_mpyr DSP_REG_Y1 DSP_REG_X1 SIGN_PLUS ACC_B"

definition emu_mpyr_m_y1_x1_b :: "'a dsp_core_scheme \<Rightarrow> 'a dsp_core_scheme" where
  [alu_ops]: "emu_mpyr_m_y1_x1_b = alu_mpyr DSP_REG_Y1 DSP_REG_X1 SIGN_MINUS ACC_B"

definition emu_neg_a :: "'a dsp_core_scheme \<Rightarrow> 'a dsp_core_scheme" where
  [alu_ops]: "emu_neg_a = alu_neg ACC_A"

definition emu_neg_b :: "'a dsp_core_scheme \<Rightarrow> 'a dsp_core_scheme" where
  [alu_ops]: "emu_neg_b = alu_neg ACC_B"

definition emu_not_a :: "'a dsp_core_scheme \<Rightarrow> 'a dsp_core_scheme" where
  [alu_ops]: "emu_not_a = alu_not ACC_A"

definition emu_not_b :: "'a dsp_core_scheme \<Rightarrow> 'a dsp_core_scheme" where
  [alu_ops]: "emu_not_b = alu_not ACC_B"

definition emu_or_x0_a :: "'a dsp_core_scheme \<Rightarrow> 'a dsp_core_scheme" where
  [alu_ops]: "emu_or_x0_a = alu_or ACC_A DSP_REG_X0"

definition emu_or_x0_b :: "'a dsp_core_scheme \<Rightarrow> 'a dsp_core_scheme" where
  [alu_ops]: "emu_or_x0_b = alu_or ACC_B DSP_REG_X0"

definition emu_or_y0_a :: "'a dsp_core_scheme \<Rightarrow> 'a dsp_core_scheme" where
  [alu_ops]: "emu_or_y0_a = alu_or ACC_A DSP_REG_Y0"

definition emu_or_y0_b :: "'a dsp_core_scheme \<Rightarrow> 'a dsp_core_scheme" where
  [alu_ops]: "emu_or_y0_b = alu_or ACC_B DSP_REG_Y0"

definition emu_or_x1_a :: "'a dsp_core_scheme \<Rightarrow> 'a dsp_core_scheme" where
  [alu_ops]: "emu_or_x1_a = alu_or ACC_A DSP_REG_X1"

definition emu_or_x1_b :: "'a dsp_core_scheme \<Rightarrow> 'a dsp_core_scheme" where
  [alu_ops]: "emu_or_x1_b = alu_or ACC_B DSP_REG_X1"

definition emu_or_y1_a :: "'a dsp_core_scheme \<Rightarrow> 'a dsp_core_scheme" where
  [alu_ops]: "emu_or_y1_a = alu_or ACC_A DSP_REG_Y1"

definition emu_or_y1_b :: "'a dsp_core_scheme \<Rightarrow> 'a dsp_core_scheme" where
  [alu_ops]: "emu_or_y1_b = alu_or ACC_B DSP_REG_Y1"

definition emu_rnd_a :: "'a dsp_core_scheme \<Rightarrow> 'a dsp_core_scheme" where
  [alu_ops]: "emu_rnd_a = alu_rnd ACC_A"

definition emu_rnd_b :: "'a dsp_core_scheme \<Rightarrow> 'a dsp_core_scheme" where
  [alu_ops]: "emu_rnd_b = alu_rnd ACC_B"

definition emu_rol_a :: "'a dsp_core_scheme \<Rightarrow> 'a dsp_core_scheme" where
  [alu_ops]: "emu_rol_a = alu_rol ACC_A"

definition emu_rol_b :: "'a dsp_core_scheme \<Rightarrow> 'a dsp_core_scheme" where
  [alu_ops]: "emu_rol_b = alu_rol ACC_B"

definition emu_ror_a :: "'a dsp_core_scheme \<Rightarrow> 'a dsp_core_scheme" where
  [alu_ops]: "emu_ror_a = alu_ror ACC_A"

definition emu_ror_b :: "'a dsp_core_scheme \<Rightarrow> 'a dsp_core_scheme" where
  [alu_ops]: "emu_ror_b = alu_ror ACC_B"

definition emu_sbc_x_a :: "'a dsp_core_scheme \<Rightarrow> 'a dsp_core_scheme" where
  [alu_ops]: "emu_sbc_x_a = alu_sbc ACC_A src_x"

definition emu_sbc_x_b :: "'a dsp_core_scheme \<Rightarrow> 'a dsp_core_scheme" where
  [alu_ops]: "emu_sbc_x_b = alu_sbc ACC_B src_x"

definition emu_sbc_y_a :: "'a dsp_core_scheme \<Rightarrow> 'a dsp_core_scheme" where
  [alu_ops]: "emu_sbc_y_a = alu_sbc ACC_A src_y"

definition emu_sbc_y_b :: "'a dsp_core_scheme \<Rightarrow> 'a dsp_core_scheme" where
  [alu_ops]: "emu_sbc_y_b = alu_sbc ACC_B src_y"

definition emu_sub_b_a :: "'a dsp_core_scheme \<Rightarrow> 'a dsp_core_scheme" where
  [alu_ops]: "emu_sub_b_a = alu_sub ACC_A (load56 ACC_B)"

definition emu_sub_a_b :: "'a dsp_core_scheme \<Rightarrow> 'a dsp_core_scheme" where
  [alu_ops]: "emu_sub_a_b = alu_sub ACC_B (load56 ACC_A)"

definition emu_sub_x_a :: "'a dsp_core_scheme \<Rightarrow> 'a dsp_core_scheme" where
  [alu_ops]: "emu_sub_x_a = alu_sub ACC_A src_x"

definition emu_sub_x_b :: "'a dsp_core_scheme \<Rightarrow> 'a dsp_core_scheme" where
  [alu_ops]: "emu_sub_x_b = alu_sub ACC_B src_x"

definition emu_sub_y_a :: "'a dsp_core_scheme \<Rightarrow> 'a dsp_core_scheme" where
  [alu_ops]: "emu_sub_y_a = alu_sub ACC_A src_y"

definition emu_sub_y_b :: "'a dsp_core_scheme \<Rightarrow> 'a dsp_core_scheme" where
  [alu_ops]: "emu_sub_y_b = alu_sub ACC_B src_y"

definition emu_sub_x0_a :: "'a dsp_core_scheme \<Rightarrow> 'a dsp_core_scheme" where
  [alu_ops]: "emu_sub_x0_a = alu_sub ACC_A (src_reg DSP_REG_X0)"

definition emu_sub_x0_b :: "'a dsp_core_scheme \<Rightarrow> 'a dsp_core_scheme" where
  [alu_ops]: "emu_sub_x0_b = alu_sub ACC_B (src_reg DSP_REG_X0)"

definition emu_sub_y0_a :: "'a dsp_core_scheme \<Rightarrow> 'a dsp_core_scheme" where
  [alu_ops]: "emu_sub_y0_a = alu_sub ACC_A (src_reg DSP_REG_Y0)"

definition emu_sub_y0_b :: "'a dsp_core_scheme \<Rightarrow> 'a dsp_core_scheme" where
  [alu_ops]: "emu_sub_y0_b = alu_sub ACC_B (src_reg DSP_REG_Y0)"

definition emu_sub_x1_a :: "'a dsp_core_scheme \<Rightarrow> 'a dsp_core_scheme" where
  [alu_ops]: "emu_sub_x1_a = alu_sub ACC_A (src_reg DSP_REG_X1)"

definition emu_sub_x1_b :: "'a dsp_core_scheme \<Rightarrow> 'a dsp_core_scheme" where
  [alu_ops]: "emu_sub_x1_b = alu_sub ACC_B (src_reg DSP_REG_X1)"

definition emu_sub_y1_a :: "'a dsp_core_scheme \<Rightarrow> 'a dsp_core_scheme" where
  [alu_ops]: "emu_sub_y1_a = alu_sub ACC_A (src_reg DSP_REG_Y1)"

definition emu_sub_y1_b :: "'a dsp_core_scheme \<Rightarrow> 'a dsp_core_scheme" where
  [alu_ops]: "emu_sub_y1_b = alu_sub ACC_B (src_reg DSP_REG_Y1)"

definition emu_subl_a :: "'a dsp_core_scheme \<Rightarrow> 'a dsp_core_scheme" where
  [alu_ops]: "emu_subl_a = alu_subl ACC_A ACC_B"

definition emu_subl_b :: "'a dsp_core_scheme \<Rightarrow> 'a dsp_core_scheme" where
  [alu_ops]: "emu_subl_b = alu_subl ACC_B ACC_A"

definition emu_subr_a :: "'a dsp_core_scheme \<Rightarrow> 'a dsp_core_scheme" where
  [alu_ops]: "emu_subr_a = alu_subr ACC_A ACC_B"

definition emu_subr_b :: "'a dsp_core_scheme \<Rightarrow> 'a dsp_core_scheme" where
  [alu_ops]: "emu_subr_b = alu_subr ACC_B ACC_A"

definition emu_tfr_b_a :: "'a dsp_core_scheme \<Rightarrow> 'a dsp_core_scheme" where
  [alu_ops]: "emu_tfr_b_a = alu_tfr ACC_A (load56 ACC_B)"

definition emu_tfr_a_b :: "'a dsp_core_scheme \<Rightarrow> 'a dsp_core_scheme" where
  [alu_ops]: "emu_tfr_a_b = alu_tfr ACC_B (load56 ACC_A)"

definition emu_tfr_x0_a :: "'a dsp_core_scheme \<Rightarrow> 'a dsp_core_scheme" where
  [alu_ops]: "emu_tfr_x0_a = alu_tfr ACC_A (src_reg DSP_REG_X0)"

definition emu_tfr_x0_b :: "'a dsp_core_scheme \<Rightarrow> 'a dsp_core_scheme" where
  [alu_ops]: "emu_tfr_x0_b = alu_tfr ACC_B (src_reg DSP_REG_X0)"

definition emu_tfr_y0_a :: "'a dsp_core_scheme \<Rightarrow> 'a dsp_core_scheme" where
  [alu_ops]: "emu_tfr_y0_a = alu_tfr ACC_A (src_reg DSP_REG_Y0)"

definition emu_tfr_y0_b :: "'a dsp_core_scheme \<Rightarrow> 'a dsp_core_scheme" where
  [alu_ops]: "emu_tfr_y0_b = alu_tfr ACC_B (src_reg DSP_REG_Y0)"

definition emu_tfr_x1_a :: "'a dsp_core_scheme \<Rightarrow> 'a dsp_core_scheme" where
  [alu_ops]: "emu_tfr_x1_a = alu_tfr ACC_A (src_reg DSP_REG_X1)"

definition emu_tfr_x1_b :: "'a dsp_core_scheme \<Rightarrow> 'a dsp_core_scheme" where
  [alu_ops]: "emu_tfr_x1_b = alu_tfr ACC_B (src_reg DSP_REG_X1)"

definition emu_tfr_y1_a :: "'a dsp_core_scheme \<Rightarrow> 'a dsp_core_scheme" where
  [alu_ops]: "emu_tfr_y1_a = alu_tfr ACC_A (src_reg DSP_REG_Y1)"

definition emu_tfr_y1_b :: "'a dsp_core_scheme \<Rightarrow> 'a dsp_core_scheme" where
  [alu_ops]: "emu_tfr_y1_b = alu_tfr ACC_B (src_reg DSP_REG_Y1)"

definition emu_tst_a :: "'a dsp_core_scheme \<Rightarrow> 'a dsp_core_scheme" where
  [alu_ops]: "emu_tst_a = alu_tst ACC_A"

definition emu_tst_b :: "'a dsp_core_scheme \<Rightarrow> 'a dsp_core_scheme" where
  [alu_ops]: "emu_tst_b = alu_tst ACC_B"

subsection \<open>Dispatch\<close>

definition opcodes_alu :: "('a dsp_core_scheme \<Rightarrow> 'a dsp_core_scheme option) list" where
  "opcodes_alu = [
     Some \<circ> emu_move, Some \<circ> emu_tfr_b_a, Some \<circ> emu_addr_b_a, Some \<circ> emu_tst_a,
     emu_undefined, Some \<circ> emu_cmp_b_a, Some \<circ> emu_subr_a, Some \<circ> emu_cmpm_b_a,
     emu_undefined, Some \<circ> emu_tfr_a_b, Some \<circ> emu_addr_a_b, Some \<circ> emu_tst_b,
     emu_undefined, Some \<circ> emu_cmp_a_b, Some \<circ> emu_subr_b, Some \<circ> emu_cmpm_a_b,
     Some \<circ> emu_add_b_a, Some \<circ> emu_rnd_a, Some \<circ> emu_addl_b_a, Some \<circ> emu_clr_a,
     Some \<circ> emu_sub_b_a, emu_undefined, Some \<circ> emu_subl_a, Some \<circ> emu_not_a,
     Some \<circ> emu_add_a_b, Some \<circ> emu_rnd_b, Some \<circ> emu_addl_a_b, Some \<circ> emu_clr_b,
     Some \<circ> emu_sub_a_b, Some \<circ> emu_max, Some \<circ> emu_subl_b, Some \<circ> emu_not_b,
     Some \<circ> emu_add_x_a, Some \<circ> emu_adc_x_a, Some \<circ> emu_asr_a, Some \<circ> emu_lsr_a,
     Some \<circ> emu_sub_x_a, Some \<circ> emu_sbc_x_a, Some \<circ> emu_abs_a, Some \<circ> emu_ror_a,
     Some \<circ> emu_add_x_b, Some \<circ> emu_adc_x_b, Some \<circ> emu_asr_b, Some \<circ> emu_lsr_b,
     Some \<circ> emu_sub_x_b, Some \<circ> emu_sbc_x_b, Some \<circ> emu_abs_b, Some \<circ> emu_ror_b,
     Some \<circ> emu_add_y_a, Some \<circ> emu_adc_y_a, Some \<circ> emu_asl_a, Some \<circ> emu_lsl_a,
     Some \<circ> emu_sub_y_a, Some \<circ> emu_sbc_y_a, Some \<circ> emu_neg_a, Some \<circ> emu_rol_a,
     Some \<circ> emu_add_y_b, Some \<circ> emu_adc_y_b, Some \<circ> emu_asl_b, Some \<circ> emu_lsl_b,
     Some \<circ> emu_sub_y_b, Some \<circ> emu_sbc_y_b, Some \<circ> emu_neg_b, Some \<circ> emu_rol_b,
     Some \<circ> emu_add_x0_a, Some \<circ> emu_tfr_x0_a, Some \<circ> emu_or_x0_a, Some \<circ> emu_eor_x0_a,
     Some \<circ> emu_sub_x0_a, Some \<circ> emu_cmp_x0_a, Some \<circ> emu_and_x0_a, Some \<circ> emu_cmpm_x0_a,
     Some \<circ> emu_add_x0_b, Some \<circ> emu_tfr_x0_b, Some \<circ> emu_or_x0_b, Some \<circ> emu_eor_x0_b,
     Some \<circ> emu_sub_x0_b, Some \<circ> emu_cmp_x0_b, Some \<circ> emu_and_x0_b, Some \<circ> emu_cmpm_x0_b,
     Some \<circ> emu_add_y0_a, Some \<circ> emu_tfr_y0_a, Some \<circ> emu_or_y0_a, Some \<circ> emu_eor_y0_a,
     Some \<circ> emu_sub_y0_a, Some \<circ> emu_cmp_y0_a, Some \<circ> emu_and_y0_a, Some \<circ> emu_cmpm_y0_a,
     Some \<circ> emu_add_y0_b, Some \<circ> emu_tfr_y0_b, Some \<circ> emu_or_y0_b, Some \<circ> emu_eor_y0_b,
     Some \<circ> emu_sub_y0_b, Some \<circ> emu_cmp_y0_b, Some \<circ> emu_and_y0_b, Some \<circ> emu_cmpm_y0_b,
     Some \<circ> emu_add_x1_a, Some \<circ> emu_tfr_x1_a, Some \<circ> emu_or_x1_a, Some \<circ> emu_eor_x1_a,
     Some \<circ> emu_sub_x1_a, Some \<circ> emu_cmp_x1_a, Some \<circ> emu_and_x1_a, Some \<circ> emu_cmpm_x1_a,
     Some \<circ> emu_add_x1_b, Some \<circ> emu_tfr_x1_b, Some \<circ> emu_or_x1_b, Some \<circ> emu_eor_x1_b,
     Some \<circ> emu_sub_x1_b, Some \<circ> emu_cmp_x1_b, Some \<circ> emu_and_x1_b, Some \<circ> emu_cmpm_x1_b,
     Some \<circ> emu_add_y1_a, Some \<circ> emu_tfr_y1_a, Some \<circ> emu_or_y1_a, Some \<circ> emu_eor_y1_a,
     Some \<circ> emu_sub_y1_a, Some \<circ> emu_cmp_y1_a, Some \<circ> emu_and_y1_a, Some \<circ> emu_cmpm_y1_a,
     Some \<circ> emu_add_y1_b, Some \<circ> emu_tfr_y1_b, Some \<circ> emu_or_y1_b, Some \<circ> emu_eor_y1_b,
     Some \<circ> emu_sub_y1_b, Some \<circ> emu_cmp_y1_b, Some \<circ> emu_and_y1_b, Some \<circ> emu_cmpm_y1_b,
     Some \<circ> emu_mpy_p_x0_x0_a, Some \<circ> emu_mpyr_p_x0_x0_a, Some \<circ> emu_mac_p_x0_x0_a, Some \<circ> emu_macr_p_x0_x0_a,
     Some \<circ> emu_mpy_m_x0_x0_a, Some \<circ> emu_mpyr_m_x0_x0_a, Some \<circ> emu_mac_m_x0_x0_a, Some \<circ> emu_macr_m_x0_x0_a,
     Some \<circ> emu_mpy_p_x0_x0_b, Some \<circ> emu_mpyr_p_x0_x0_b, Some \<circ> emu_mac_p_x0_x0_b, Some \<circ> emu_macr_p_x0_x0_b,
     Some \<circ> emu_mpy_m_x0_x0_b, Some \<circ> emu_mpyr_m_x0_x0_b, Some \<circ> emu_mac_m_x0_x0_b, Some \<circ> emu_macr_m_x0_x0_b,
     Some \<circ> emu_mpy_p_y0_y0_a, Some \<circ> emu_mpyr_p_y0_y0_a, Some \<circ> emu_mac_p_y0_y0_a, Some \<circ> emu_macr_p_y0_y0_a,
     Some \<circ> emu_mpy_m_y0_y0_a, Some \<circ> emu_mpyr_m_y0_y0_a, Some \<circ> emu_mac_m_y0_y0_a, Some \<circ> emu_macr_m_y0_y0_a,
     Some \<circ> emu_mpy_p_y0_y0_b, Some \<circ> emu_mpyr_p_y0_y0_b, Some \<circ> emu_mac_p_y0_y0_b, Some \<circ> emu_macr_p_y0_y0_b,
     Some \<circ> emu_mpy_m_y0_y0_b, Some \<circ> emu_mpyr_m_y0_y0_b, Some \<circ> emu_mac_m_y0_y0_b, Some \<circ> emu_macr_m_y0_y0_b,
     Some \<circ> emu_mpy_p_x1_x0_a, Some \<circ> emu_mpyr_p_x1_x0_a, Some \<circ> emu_mac_p_x1_x0_a, Some \<circ> emu_macr_p_x1_x0_a,
     Some \<circ> emu_mpy_m_x1_x0_a, Some \<circ> emu_mpyr_m_x1_x0_a, Some \<circ> emu_mac_m_x1_x0_a, Some \<circ> emu_macr_m_x1_x0_a,
     Some \<circ> emu_mpy_p_x1_x0_b, Some \<circ> emu_mpyr_p_x1_x0_b, Some \<circ> emu_mac_p_x1_x0_b, Some \<circ> emu_macr_p_x1_x0_b,
     Some \<circ> emu_mpy_m_x1_x0_b, Some \<circ> emu_mpyr_m_x1_x0_b, Some \<circ> emu_mac_m_x1_x0_b, Some \<circ> emu_macr_m_x1_x0_b,
     Some \<circ> emu_mpy_p_y1_y0_a, Some \<circ> emu_mpyr_p_y1_y0_a, Some \<circ> emu_mac_p_y1_y0_a, Some \<circ> emu_macr_p_y1_y0_a,
     Some \<circ> emu_mpy_m_y1_y0_a, Some \<circ> emu_mpyr_m_y1_y0_a, Some \<circ> emu_mac_m_y1_y0_a, Some \<circ> emu_macr_m_y1_y0_a,
     Some \<circ> emu_mpy_p_y1_y0_b, Some \<circ> emu_mpyr_p_y1_y0_b, Some \<circ> emu_mac_p_y1_y0_b, Some \<circ> emu_macr_p_y1_y0_b,
     Some \<circ> emu_mpy_m_y1_y0_b, Some \<circ> emu_mpyr_m_y1_y0_b, Some \<circ> emu_mac_m_y1_y0_b, Some \<circ> emu_macr_m_y1_y0_b,
     Some \<circ> emu_mpy_p_x0_y1_a, Some \<circ> emu_mpyr_p_x0_y1_a, Some \<circ> emu_mac_p_x0_y1_a, Some \<circ> emu_macr_p_x0_y1_a,
     Some \<circ> emu_mpy_m_x0_y1_a, Some \<circ> emu_mpyr_m_x0_y1_a, Some \<circ> emu_mac_m_x0_y1_a, Some \<circ> emu_macr_m_x0_y1_a,
     Some \<circ> emu_mpy_p_x0_y1_b, Some \<circ> emu_mpyr_p_x0_y1_b, Some \<circ> emu_mac_p_x0_y1_b, Some \<circ> emu_macr_p_x0_y1_b,
     Some \<circ> emu_mpy_m_x0_y1_b, Some \<circ> emu_mpyr_m_x0_y1_b, Some \<circ> emu_mac_m_x0_y1_b, Some \<circ> emu_macr_m_x0_y1_b,
     Some \<circ> emu_mpy_p_y0_x0_a, Some \<circ> emu_mpyr_p_y0_x0_a, Some \<circ> emu_mac_p_y0_x0_a, Some \<circ> emu_macr_p_y0_x0_a,
     Some \<circ> emu_mpy_m_y0_x0_a, Some \<circ> emu_mpyr_m_y0_x0_a, Some \<circ> emu_mac_m_y0_x0_a, Some \<circ> emu_macr_m_y0_x0_a,
     Some \<circ> emu_mpy_p_y0_x0_b, Some \<circ> emu_mpyr_p_y0_x0_b, Some \<circ> emu_mac_p_y0_x0_b, Some \<circ> emu_macr_p_y0_x0_b,
     Some \<circ> emu_mpy_m_y0_x0_b, Some \<circ> emu_mpyr_m_y0_x0_b, Some \<circ> emu_mac_m_y0_x0_b, Some \<circ> emu_macr_m_y0_x0_b,
     Some \<circ> emu_mpy_p_x1_y0_a, Some \<circ> emu_mpyr_p_x1_y0_a, Some \<circ> emu_mac_p_x1_y0_a, Some \<circ> emu_macr_p_x1_y0_a,
     Some \<circ> emu_mpy_m_x1_y0_a, Some \<circ> emu_mpyr_m_x1_y0_a, Some \<circ> emu_mac_m_x1_y0_a, Some \<circ> emu_macr_m_x1_y0_a,
     Some \<circ> emu_mpy_p_x1_y0_b, Some \<circ> emu_mpyr_p_x1_y0_b, Some \<circ> emu_mac_p_x1_y0_b, Some \<circ> emu_macr_p_x1_y0_b,
     Some \<circ> emu_mpy_m_x1_y0_b, Some \<circ> emu_mpyr_m_x1_y0_b, Some \<circ> emu_mac_m_x1_y0_b, Some \<circ> emu_macr_m_x1_y0_b,
     Some \<circ> emu_mpy_p_y1_x1_a, Some \<circ> emu_mpyr_p_y1_x1_a, Some \<circ> emu_mac_p_y1_x1_a, Some \<circ> emu_macr_p_y1_x1_a,
     Some \<circ> emu_mpy_m_y1_x1_a, Some \<circ> emu_mpyr_m_y1_x1_a, Some \<circ> emu_mac_m_y1_x1_a, Some \<circ> emu_macr_m_y1_x1_a,
     Some \<circ> emu_mpy_p_y1_x1_b, Some \<circ> emu_mpyr_p_y1_x1_b, Some \<circ> emu_mac_p_y1_x1_b, Some \<circ> emu_macr_p_y1_x1_b,
     Some \<circ> emu_mpy_m_y1_x1_b, Some \<circ> emu_mpyr_m_y1_x1_b, Some \<circ> emu_mac_m_y1_x1_b, Some \<circ> emu_macr_m_y1_x1_b
  ]"

text \<open>\<open>opcodes_alu[dsp->cur_inst & BITMASK(8)](dsp)\<close>.\<close>

definition exec_alu :: "'a dsp_core_scheme \<Rightarrow> 'a dsp_core_scheme option" where
  "exec_alu s = (opcodes_alu ! unat (cur_inst s AND BITMASK 8)) s"

lemma length_opcodes_alu: "length opcodes_alu = 256"
  by (simp add: opcodes_alu_def)

lemma exec_alu_member: "opcodes_alu ! unat (cur_inst s AND BITMASK 8) \<in> set opcodes_alu"
  unfolding length_opcodes_alu [symmetric] by (rule nth_mem) (simp add: length_opcodes_alu unat_and_numeral_masks)

end
