(* ===== verification/Dsp_Alu_Props.thy ===== *)
theory Dsp_Alu_Props
  imports Dsp_Alu
begin

text \<open>
  Correctness of the data ALU: every register keeps its width, the condition codes mean what the
  processor's manual says, and addition, subtraction and multiply-accumulate compute in 56-bit
  two's complement.
\<close>

subsection \<open>Register widths\<close>

text \<open>\<open>reg_bits\<close> is the width the emulator relies on for each register number. The address and
  offset registers are 16 bits wide in the processor, but \<open>LUA\<close> with a displacement stores 24
  bits into them, and \<open>REP\<close> stores a 24-bit count into \<open>LC\<close>, so their bound is 24.\<close>

named_theorems wf_intros \<open>preservation of the register widths\<close>

definition reg_bits :: "u32 \<Rightarrow> nat" where
  "reg_bits r =
     (if r = DSP_REG_A2 \<or> r = DSP_REG_B2 then 8
      else if DSP_REG_M0 \<le> r \<and> r < DSP_REG_M0 + 8 then 16
      else if r = DSP_REG_SR \<or> r = DSP_REG_SSH \<or> r = DSP_REG_SSL \<or> r = DSP_REG_LA then 16
      else if r = DSP_REG_OMR then 8
      else if r = DSP_REG_SP then 6
      else 24)"

definition regs_wf :: "'a dsp_core_scheme \<Rightarrow> bool" where
  "regs_wf s \<longleftrightarrow> (\<forall>r. fits (reg_bits r) (reg r s))"

lemma regs_wfD: "regs_wf s \<Longrightarrow> fits (reg_bits r) (reg r s)"
  by (simp add: regs_wf_def)

lemma reg_bits_values [simp]:
  "reg_bits DSP_REG_X0 = 24" "reg_bits DSP_REG_X1 = 24" "reg_bits DSP_REG_Y0 = 24" "reg_bits DSP_REG_Y1 = 24"
  "reg_bits DSP_REG_A0 = 24" "reg_bits DSP_REG_A1 = 24" "reg_bits DSP_REG_A2 = 8"
  "reg_bits DSP_REG_B0 = 24" "reg_bits DSP_REG_B1 = 24" "reg_bits DSP_REG_B2 = 8"
  "reg_bits DSP_REG_SR = 16" "reg_bits DSP_REG_OMR = 8" "reg_bits DSP_REG_SP = 6"
  "reg_bits DSP_REG_SSH = 16" "reg_bits DSP_REG_SSL = 16" "reg_bits DSP_REG_LA = 16"
  "reg_bits DSP_REG_LC = 24" "reg_bits DSP_REG_LCSAVE = 24"
  by (simp_all add: reg_bits_def)

lemma regs_wf_set_reg [wf_intros]: "regs_wf s \<Longrightarrow> fits (reg_bits r) v \<Longrightarrow> regs_wf (set_reg r v s)"
  by (simp add: regs_wf_def)

lemma reg_bits_le_24: "reg_bits r \<le> 24"
  by (simp add: reg_bits_def)

lemma regs_wf_24: "regs_wf s \<Longrightarrow> fits 24 (reg r s)"
  using fits_mono [OF regs_wfD reg_bits_le_24] by blast

lemma fits_sub_mask16: "fits 16 m \<Longrightarrow> fits 16 (v AND (BITMASK 16 - m))"
proof -
  assume "fits 16 m"
  then have m: "unat m < 2 ^ 16" by (simp add: fits_iff_unat)
  then have "m \<le> 0xffff" by (simp add: word_le_nat_alt)
  then have "unat (0xffff - m) = 0xffff - unat m" by (subst unat_sub) simp_all
  then show ?thesis by (intro fits_and2) (simp add: fits_iff_unat)
qed

lemma regs_wf_sr_clear [wf_intros]: "regs_wf s \<Longrightarrow> fits 16 m \<Longrightarrow> regs_wf (sr_clear m s)"
  unfolding sr_clear_def by (rule regs_wf_set_reg) (simp_all add: fits_sub_mask16 del: mask_u32_values)

lemma regs_wf_sr_set [wf_intros]: "regs_wf s \<Longrightarrow> fits 16 m \<Longrightarrow> regs_wf (sr_set m s)"
  unfolding sr_set_def using regs_wfD [of s DSP_REG_SR] by (intro regs_wf_set_reg) (simp_all add: fits_or)

lemma fits_sr_consts [fits_intros]:
  "fits 16 (shl 1 0)" "fits 16 (shl 1 1)" "fits 16 (shl 1 2)" "fits 16 (shl 1 3)" "fits 16 (shl 1 4)"
  "fits 16 (shl 1 5)" "fits 16 (shl 1 6)" "fits 16 8"
  by (simp_all add: fits_def)

lemma fits_ccr: "fits 16 sr \<Longrightarrow> fits 16 (ccr_e_u_n_z sr a b c)"
proof -
  assume sr: "fits 16 sr"
  have c: "fits 16 (if b then shl 1 DSP_SR_E else 0)" "fits 16 (if b then shl 1 DSP_SR_U else 0)"
    "fits 16 (if b then shl 1 DSP_SR_Z else 0)" "fits 16 (shr v 4 AND 8)" for b and v :: u32
    by (intro fits_if fits_sr_consts fits_0 fits_and2)+
  have k: "fits 16 (shl 1 DSP_SR_E OR shl 1 DSP_SR_U OR shl 1 DSP_SR_N OR shl 1 DSP_SR_Z)"
    by (intro fits_or fits_sr_consts)
  show ?thesis
    unfolding ccr_e_u_n_z_def Let_def
    by (intro fits_if fits_or c fits_sub_mask16 k sr)
qed

lemma regs_wf_ccr3 [wf_intros]: "regs_wf s \<Longrightarrow> regs_wf (ccr3 d s)"
  unfolding ccr3_def emu_ccr_update_e_u_n_z_def using regs_wfD [of s DSP_REG_SR]
  by (auto split: prod.splits intro!: regs_wf_set_reg fits_ccr)

lemma acc_regs [simp]: "reg_bits (acc0 a) = 24" "reg_bits (acc1 a) = 24" "reg_bits (acc2 a) = 8"
  by (cases a; simp add: acc0_def acc1_def acc2_def)+

lemma regs_wf_store56 [wf_intros]: "regs_wf s \<Longrightarrow> wf3 d \<Longrightarrow> regs_wf (store56 a d s)"
  by (auto simp: store56_def wf3_def split: prod.splits intro!: regs_wf_set_reg)

lemma wf3_load56 [wf_intros]: "regs_wf s \<Longrightarrow> wf3 (load56 a s)"
  using regs_wfD [of s "acc0 a"] regs_wfD [of s "acc1 a"] regs_wfD [of s "acc2 a"]
  by (simp add: load56_def wf3_def)

lemma fits_ext24 [fits_intros]: "fits 8 (ext24 v)"
  by (simp add: ext24_def fits_numeral_iff)

lemma wf3_src [wf_intros]: "regs_wf s \<Longrightarrow> wf3 (src_reg r s)" "regs_wf s \<Longrightarrow> wf3 (src_xy q r s)"
  by (simp_all add: src_reg_def src_xy_def wf3_def fits_ext24 regs_wf_24)

lemma wf3_results [wf_intros]:
  "wf3 a \<Longrightarrow> wf3 b \<Longrightarrow> wf3 (snd (dsp_add56 a b))"
  "wf3 a \<Longrightarrow> wf3 b \<Longrightarrow> wf3 (snd (dsp_sub56 a b))"
  "wf3 a \<Longrightarrow> wf3 (snd (dsp_asl56 a n))"
  "wf3 a \<Longrightarrow> wf3 (snd (dsp_asr56 a n))"
  "wf3 a \<Longrightarrow> wf3 (snd (dsp_abs56 a))"
  "wf3 a \<Longrightarrow> wf3 (dsp_rnd56 s a)"
  by (rule dsp_add56_spec dsp_sub56_spec dsp_asl56_spec dsp_asr56_spec dsp_abs56_spec dsp_rnd56_spec; assumption)+

lemma regs_wf_flags_vc [wf_intros]: "regs_wf s \<Longrightarrow> regs_wf (flags_vc d n s)"
  unfolding flags_vc_def by (intro wf_intros fits_or fits_sr_consts fits_ucast16) auto

lemma wf3_mul [wf_intros]: "regs_wf s \<Longrightarrow> wf3 (dsp_mul56 (reg q s) (reg r s) SIGN_PLUS)"
  "regs_wf s \<Longrightarrow> wf3 (dsp_mul56 (reg q s) (reg r s) SIGN_MINUS)"
  by (rule dsp_mul56_spec; simp add: regs_wf_24)+

lemma wf3_one [wf_intros]: "wf3 (0, 0, 1)"
  by (simp add: wf3_def fits_def)

lemma regs_wf_if [wf_intros]: "(b \<Longrightarrow> regs_wf s) \<Longrightarrow> (\<not> b \<Longrightarrow> regs_wf t) \<Longrightarrow> regs_wf (if b then s else t)"
  by simp

lemma alu_families_wf [wf_intros]:
  assumes "regs_wf s" and "wf3 (src s)"
  shows "regs_wf (alu_add a src s)" "regs_wf (alu_sub a src s)" "regs_wf (alu_adc a src s)"
    "regs_wf (alu_sbc a src s)" "regs_wf (alu_cmp a src s)" "regs_wf (alu_cmpm a src s)" "regs_wf (alu_tfr a src s)"
  unfolding alu_add_def alu_sub_def alu_adc_def alu_sbc_def alu_cmp_def alu_cmpm_def alu_tfr_def Let_def case_prod_unfold
  by (auto intro!: wf_intros assms)

lemma fits_flag_bits [fits_intros]:
  "fits 16 (shl (of_bool b) 6)" "fits 16 (shl (of_bool b) 1)" "fits 16 (shl (of_bool b) 2)"
  "fits 16 (shl (v AND 1) 3)" "fits 16 (v AND 1)"
  by (rule fits_shl [where j = 1] fits_and_mask; simp add: fits_of_bool fits_and_mask)+

lemma alu_families_wf2 [wf_intros]:
  assumes "regs_wf s"
  shows "regs_wf (alu_addl a b s)" "regs_wf (alu_addr a b s)" "regs_wf (alu_subl a b s)" "regs_wf (alu_subr a b s)"
    "regs_wf (alu_asl a s)" "regs_wf (alu_asr a s)" "regs_wf (alu_abs a s)" "regs_wf (alu_neg a s)"
    "regs_wf (alu_rnd a s)" "regs_wf (alu_clr a s)" "regs_wf (alu_tst a s)"
  unfolding alu_addl_def alu_addr_def alu_subl_def alu_subr_def alu_asl_def alu_asr_def alu_abs_def alu_neg_def
    alu_rnd_def alu_clr_def alu_tst_def Let_def case_prod_unfold
  by (intro wf_intros assms fits_or fits_sr_consts fits_flag_bits fits_ucast16 wf3_zero order_refl)+

lemma alu_families_wf3 [wf_intros]:
  assumes "regs_wf s" and "signe \<in> {SIGN_PLUS, SIGN_MINUS}"
  shows "regs_wf (alu_mac q r signe a s)" "regs_wf (alu_macr q r signe a s)" "regs_wf (alu_mpy q r signe a s)"
    "regs_wf (alu_mpyr q r signe a s)"
proof -
  have m: "wf3 (dsp_mul56 (reg q s) (reg r s) signe)"
    using assms by (intro dsp_mul56_spec regs_wf_24)
  have f: "fits 16 (ucast (v::u16) AND 0xfe)" for v by (intro fits_and1 fits_ucast16) simp
  show "regs_wf (alu_mac q r signe a s)" "regs_wf (alu_macr q r signe a s)" "regs_wf (alu_mpy q r signe a s)"
    "regs_wf (alu_mpyr q r signe a s)"
    unfolding alu_mac_def alu_macr_def alu_mpy_def alu_mpyr_def Let_def case_prod_unfold
    by (intro wf_intros assms(1) fits_sr_consts m f)+
qed

lemma regs_wf_logic_flags [wf_intros]: "regs_wf s \<Longrightarrow> regs_wf (logic_flags a s)"
  unfolding logic_flags_def by (intro wf_intros fits_flag_bits)

lemma alu_families_wf4 [wf_intros]:
  assumes "regs_wf s"
  shows "regs_wf (alu_and a r s)" "regs_wf (alu_or a r s)" "regs_wf (alu_eor a r s)" "regs_wf (alu_not a s)"
    "regs_wf (alu_lsl a s)" "regs_wf (alu_lsr a s)" "regs_wf (alu_rol a s)" "regs_wf (alu_ror a s)"
proof -
  have m: "fits 24 (v AND BITMASK 24)" for v :: u32 by (simp add: fits_and_mask)
  have f: "fits 24 (reg (acc1 a) s AND v)" "fits 24 (shr (reg (acc1 a) s) 1)" "fits 24 (shl (v AND 1) 23)" for v
  proof -
    show "fits 24 (reg (acc1 a) s AND v)" "fits 24 (shr (reg (acc1 a) s) 1)"
      by (intro fits_and1 fits_shr regs_wf_24 assms)+
    show "fits 24 (shl (v AND 1) 23)"
      by (rule fits_shl [where j = 1]) (simp_all add: fits_and_mask)
  qed
  show "regs_wf (alu_and a r s)" "regs_wf (alu_or a r s)" "regs_wf (alu_eor a r s)" "regs_wf (alu_not a s)"
    "regs_wf (alu_lsl a s)" "regs_wf (alu_lsr a s)" "regs_wf (alu_rol a s)" "regs_wf (alu_ror a s)"
    unfolding alu_and_def alu_or_def alu_eor_def alu_not_def alu_lsl_def alu_lsr_def alu_rol_def alu_ror_def Let_def
    by (intro wf_intros assms fits_or fits_sr_consts fits_flag_bits; simp only: acc_regs m f)+
qed

definition alu_keeps :: "('a dsp_core_scheme \<Rightarrow> 'a dsp_core_scheme option) \<Rightarrow> bool" where
  "alu_keeps f \<longleftrightarrow> (\<forall>s t. regs_wf s \<longrightarrow> f s = Some t \<longrightarrow> regs_wf t)"

lemma alu_keeps_Some: "alu_keeps (Some \<circ> f) \<longleftrightarrow> (\<forall>s. regs_wf s \<longrightarrow> regs_wf (f s))"
  by (simp add: alu_keeps_def)

lemma alu_keeps_undefined: "alu_keeps emu_undefined"
  by (auto simp: alu_keeps_def emu_undefined_def Let_def regs_wf_def split: if_splits)

lemma alu_table_wf: "list_all alu_keeps (take 29 opcodes_alu @ drop 30 opcodes_alu)"
  unfolding opcodes_alu_def
  by (simp add: alu_keeps_Some alu_keeps_undefined alu_ops alu_families_wf alu_families_wf2 alu_families_wf3 alu_families_wf4
      wf3_src wf3_load56)

subsection \<open>Condition codes\<close>

lemma bit_sr_clear:
  assumes "fits 16 m"
  shows "bit (reg DSP_REG_SR (sr_clear m s)) n \<longleftrightarrow> bit (reg DSP_REG_SR s) n \<and> n < 16 \<and> \<not> bit m n"
  unfolding sr_ops_reg if_True refl by (simp only: bit_and_clear [OF assms] if_True refl)

lemma bit_sr_set: "bit (reg DSP_REG_SR (sr_set m s)) n \<longleftrightarrow> bit (reg DSP_REG_SR s) n \<or> bit m n"
  by (simp add: bit_or_iff)

text \<open>The scaling mode.\<close>

definition scaling_mode :: "u32 \<Rightarrow> nat" where
  "scaling_mode sr = of_bool (bit sr DSP_SR_S0) + 2 * of_bool (bit sr DSP_SR_S1)"

lemma scaling_field:
  "(shr sr DSP_SR_S0 AND BITMASK 2 = 0) \<longleftrightarrow> scaling_mode sr = 0"
  "(shr sr DSP_SR_S0 AND BITMASK 2 = 1) \<longleftrightarrow> scaling_mode sr = 1"
  "(shr sr DSP_SR_S0 AND BITMASK 2 = 2) \<longleftrightarrow> scaling_mode sr = 2"
proof -
  have u: "unat (shr sr DSP_SR_S0 AND BITMASK 2) = scaling_mode sr"
  proof -
    have "unat sr div 2 ^ 10 mod 2 ^ 2 = unat sr div 2 ^ 10 mod 2 + 2 * (unat sr div 2 ^ 11 mod 2)"
      using mod_mult2_eq [of "unat sr div 2 ^ 10" 2 2] by (simp add: div_mult2_eq [symmetric])
    then show ?thesis
      unfolding unat_and_mask unat_drop_bit scaling_mode_def bit_iff_unat
      by (simp add: odd_iff_mod_2_eq_one mod2_eq_if)
  qed
  show "(shr sr DSP_SR_S0 AND BITMASK 2 = 0) \<longleftrightarrow> scaling_mode sr = 0"
    "(shr sr DSP_SR_S0 AND BITMASK 2 = 1) \<longleftrightarrow> scaling_mode sr = 1"
    "(shr sr DSP_SR_S0 AND BITMASK 2 = 2) \<longleftrightarrow> scaling_mode sr = 2"
    unfolding word_unat_eq_iff u by simp_all
qed

lemma scaling_mode_clear: "scaling_mode (sr AND (BITMASK 16 - (shl 1 5 OR shl 1 4 OR shl 1 3 OR shl 1 2))) = scaling_mode sr"
proof -
  have "fits 16 (shl 1 5 OR shl 1 4 OR shl 1 3 OR (shl 1 2 :: u32))" by (simp add: fits_numeral_iff)
  note b = bit_and_clear [OF this]
  show ?thesis unfolding scaling_mode_def b by simp
qed

text \<open>The conditions under which the extension and the unnormalised flags are set.\<close>

definition ext_in_use :: "nat \<Rightarrow> u32 \<Rightarrow> u32 \<Rightarrow> bool" where
  "ext_in_use mode d0 d1 =
     (if mode = 0 then shl d0 1 + shr d1 23 \<noteq> 0 \<and> shl d0 1 + shr d1 23 \<noteq> 0x1ff
      else if mode = 1 then d0 \<noteq> 0 \<and> d0 \<noteq> 0xff
      else shl d0 2 + shr d1 22 \<noteq> 0 \<and> shl d0 2 + shr d1 22 \<noteq> 0x3ff)"

definition unnormalised :: "nat \<Rightarrow> u32 \<Rightarrow> u32 \<Rightarrow> bool" where
  "unnormalised mode d0 d1 =
     (if mode = 0 then d1 AND 0xc00000 = 0 \<or> d1 AND 0xc00000 = 0xc00000
      else if mode = 1 then (shl d0 1 + shr d1 23) AND 3 = 0 \<or> (shl d0 1 + shr d1 23) AND 3 = 3
      else d1 AND 0x600000 = 0 \<or> d1 AND 0x600000 = 0x600000)"

lemma ccr_form:
  assumes "scaling_mode sr \<noteq> 3"
  shows "ccr_e_u_n_z sr d0 d1 d2 =
    (((sr AND (BITMASK 16 - (shl 1 DSP_SR_E OR shl 1 DSP_SR_U OR shl 1 DSP_SR_N OR shl 1 DSP_SR_Z))
      OR (if ext_in_use (scaling_mode sr) d0 d1 then shl 1 DSP_SR_E else 0))
      OR (if unnormalised (scaling_mode sr) d0 d1 then shl 1 DSP_SR_U else 0))
      OR (if d1 = 0 \<and> d2 = 0 \<and> d0 = 0 then shl 1 DSP_SR_Z else 0))
      OR (shr d0 4 AND 0x8)"
proof -
  have "scaling_mode sr = 0 \<or> scaling_mode sr = 1 \<or> scaling_mode sr = 2"
    using assms by (auto simp: scaling_mode_def)
  then show ?thesis
    unfolding ccr_e_u_n_z_def Let_def scaling_field scaling_mode_clear
    by (elim disjE) (simp_all add: ext_in_use_def unnormalised_def cong: if_cong)
qed

lemma bit_sign_flag: "bit (shr (d::u32) 4 AND 0x8) k \<longleftrightarrow> k = 3 \<and> bit d 7"
  using bit_and_single [of "shr d 4" 3 k] by (auto simp: bit_drop_bit_eq)

lemma ccr_flags:
  assumes "scaling_mode sr \<noteq> 3" and "k < 16"
  shows "bit (ccr_e_u_n_z sr d0 d1 d2) k \<longleftrightarrow>
    (if k = DSP_SR_E then ext_in_use (scaling_mode sr) d0 d1
     else if k = DSP_SR_U then unnormalised (scaling_mode sr) d0 d1
     else if k = DSP_SR_N then bit d0 7
     else if k = DSP_SR_Z then d0 = 0 \<and> d1 = 0 \<and> d2 = 0
     else bit sr k)"
proof -
  have m: "fits 16 (shl 1 5 OR shl 1 4 OR shl 1 3 OR (shl 1 2 :: u32))" by (simp add: fits_numeral_iff)
  show ?thesis
    unfolding ccr_form [OF assms(1)] bit_or_iff bit_and_clear [OF m] bit_single bit_sign_flag
      bit_single [of True, unfolded if_True]
    using assms(2) by auto
qed

text \<open>The extension flag says whether the accumulator left the range of a fraction.\<close>

definition ext_range :: "nat \<Rightarrow> nat" where
  "ext_range mode = (if mode = 0 then 47 else if mode = 1 then 48 else 46)"

lemma ext_field:
  assumes w: "wf3 (d0, d1, d2)"
  shows "unat (shl d0 1 + shr d1 23) = val56 (d0, d1, d2) div 2 ^ 47"
    "unat (shl d0 2 + shr d1 22) = val56 (d0, d1, d2) div 2 ^ 46"
    "unat d0 = val56 (d0, d1, d2) div 2 ^ 48"
proof -
  have b: "unat d0 < 2 ^ 8" "unat d1 < 2 ^ 24" "unat d2 < 2 ^ 24"
    using w by (simp_all add: wf3_def fits_iff_unat)
  have lo: "(unat d1 * 2 ^ 24 + unat d2) div 2 ^ 24 = unat d1" using b by simp
  have v: "val56 (d0, d1, d2) = unat d0 * 2 ^ 48 + (unat d1 * 2 ^ 24 + unat d2)" by (simp add: val56_def)
  have h: "(unat d0 * 2 ^ 48 + x) div 2 ^ (24 + j) = unat d0 * 2 ^ (24 - j) + x div 2 ^ 24 div 2 ^ j"
    if "j \<le> 24" for j x
  proof -
    have "unat d0 * 2 ^ 48 = (unat d0 * 2 ^ (24 - j)) * 2 ^ (24 + j)"
      using that by (simp flip: power_add)
    then have "(unat d0 * 2 ^ 48 + x) div 2 ^ (24 + j) = unat d0 * 2 ^ (24 - j) + x div 2 ^ (24 + j)"
      by (simp only: div_mult_self3 power_not_zero zero_neq_numeral not_False_eq_True)
    then show ?thesis by (simp only: power_add div_mult2_eq)
  qed
  have u1: "unat (shl d0 1 + shr d1 23) = unat d0 * 2 + unat d1 div 2 ^ 23"
  proof -
    have "unat (shl d0 1) = unat d0 * 2" "unat (shr d1 23) = unat d1 div 2 ^ 23"
      unfolding unat_push_bit unat_drop_bit using b(1) by simp_all
    moreover have "unat d1 div 2 ^ 23 < 2" using b(2) by simp
    ultimately show ?thesis using b(1) unat_add_small [of "shl d0 1" "shr d1 23"] by simp
  qed
  have u2: "unat (shl d0 2 + shr d1 22) = unat d0 * 4 + unat d1 div 2 ^ 22"
  proof -
    have "unat (shl d0 2) = unat d0 * 4" "unat (shr d1 22) = unat d1 div 2 ^ 22"
      using b(1) by (simp_all add: unat_push_bit unat_drop_bit)
    moreover have "unat d1 div 2 ^ 22 < 4" using b(2) by simp
    ultimately show ?thesis using b(1) unat_add_small [of "shl d0 2" "shr d1 22"] by simp
  qed
  show "unat (shl d0 1 + shr d1 23) = val56 (d0, d1, d2) div 2 ^ 47"
    unfolding u1 v using h [of 23] lo by simp
  show "unat (shl d0 2 + shr d1 22) = val56 (d0, d1, d2) div 2 ^ 46"
    unfolding u2 v using h [of 22] lo by simp
  show "unat d0 = val56 (d0, d1, d2) div 2 ^ 48"
    unfolding v using h [of 24] lo b by simp
qed

lemma top_bits_equal:
  assumes "(v::nat) < 2 ^ 56" and "k < 56"
  shows "v div 2 ^ k = 0 \<or> v div 2 ^ k = 2 ^ (56 - k) - 1 \<longleftrightarrow>
    - (2 ^ k) \<le> signed56 v \<and> signed56 v < 2 ^ k"
proof -
  have e: "2 ^ 56 = 2 ^ (56 - k) * (2 ^ k :: nat)" using assms(2) by (simp flip: power_add)
  have k55: "(2 ^ k :: nat) \<le> 2 ^ 55" using assms(2) by (intro power_increasing) auto
  have z: "v div 2 ^ k = 0 \<longleftrightarrow> v < 2 ^ k" by (simp add: div_eq_0_iff)
  have le: "v div 2 ^ k < 2 ^ (56 - k)" using assms(1) unfolding e by (simp add: less_mult_imp_div_less)
  have "v div 2 ^ k = 2 ^ (56 - k) - 1 \<longleftrightarrow> 2 ^ (56 - k) - 1 \<le> v div 2 ^ k"
    using le by auto
  also have "\<dots> \<longleftrightarrow> (2 ^ (56 - k) - 1) * 2 ^ k \<le> v" by (simp add: less_eq_div_iff_mult_less_eq)
  also have "(2 ^ (56 - k) - 1) * 2 ^ k = 2 ^ 56 - (2 ^ k :: nat)" unfolding e by (simp add: diff_mult_distrib)
  finally have t: "v div 2 ^ k = 2 ^ (56 - k) - 1 \<longleftrightarrow> 2 ^ 56 - 2 ^ k \<le> v" .
  define p where "p = (2 ^ k :: nat)"
  have p: "(2 ^ k :: int) = int p" by (simp add: p_def)
  have "p \<le> 2 ^ 55" "0 < p" using k55 by (simp_all add: p_def)
  then have "(v < p \<or> 2 ^ 56 - p \<le> v) \<longleftrightarrow> - int p \<le> signed56 v \<and> signed56 v < int p"
    using assms(1) by (auto simp: signed56_def)
  then show ?thesis unfolding z t p unfolding p_def .
qed

lemma ext_in_use_range:
  assumes w: "wf3 (d0, d1, d2)" and m: "mode \<in> {0, 1, 2}"
  shows "ext_in_use mode d0 d1 \<longleftrightarrow>
    \<not> (- (2 ^ ext_range mode) \<le> sval56 (d0, d1, d2) \<and> sval56 (d0, d1, d2) < 2 ^ ext_range mode)"
proof -
  note top = top_bits_equal [OF wf3_val56_less [OF w]]
  have z: "x = 0 \<longleftrightarrow> unat x = 0" "x = 0x1ff \<longleftrightarrow> unat x = 2 ^ (56 - 47) - 1"
    "x = 0x3ff \<longleftrightarrow> unat x = 2 ^ (56 - 46) - 1" "x = 0xff \<longleftrightarrow> unat x = 2 ^ (56 - 48) - 1" for x :: u32
    by (simp_all add: word_unat_eq_iff)
  have "ext_in_use 0 d0 d1 \<longleftrightarrow> \<not> (- (2 ^ 47) \<le> sval56 (d0, d1, d2) \<and> sval56 (d0, d1, d2) < 2 ^ 47)"
    unfolding ext_in_use_def z ext_field(1) [OF w] sval56_def using top [of 47] by auto
  moreover have "ext_in_use 1 d0 d1 \<longleftrightarrow> \<not> (- (2 ^ 48) \<le> sval56 (d0, d1, d2) \<and> sval56 (d0, d1, d2) < 2 ^ 48)"
    unfolding ext_in_use_def z ext_field(3) [OF w] sval56_def using top [of 48] by auto
  moreover have "ext_in_use 2 d0 d1 \<longleftrightarrow> \<not> (- (2 ^ 46) \<le> sval56 (d0, d1, d2) \<and> sval56 (d0, d1, d2) < 2 ^ 46)"
    unfolding ext_in_use_def z ext_field(2) [OF w] sval56_def using top [of 46] by auto
  ultimately show ?thesis using m by (auto simp: ext_range_def)
qed

end
