(* ===== verification/Dsp_Alu_Correct.thy ===== *)
theory Dsp_Alu_Correct
  imports Dsp_Alu_Props
begin

text \<open>
  Functional correctness of the data ALU: addition, subtraction, comparison and
  multiply-accumulate compute in 56-bit two's complement and set the condition codes as the
  processor's manual describes them; every instruction of the dispatch table but MAX keeps the
  register widths.
\<close>

subsection \<open>Two's complement results\<close>

definition wrap56 :: "int \<Rightarrow> int" where
  "wrap56 x = (x + 2 ^ 55) mod 2 ^ 56 - 2 ^ 55"

lemma wrap56_cong: "x mod 2 ^ 56 = y mod 2 ^ 56 \<Longrightarrow> wrap56 x = wrap56 y"
  unfolding wrap56_def by (metis mod_add_left_eq)

lemma signed56_wrap: "v < 2 ^ 56 \<Longrightarrow> signed56 v = wrap56 (int v)"
proof -
  assume v: "v < 2 ^ 56"
  show ?thesis
  proof (cases "v < 2 ^ 55")
    case True
    then show ?thesis by (simp add: signed56_def wrap56_def)
  next
    case False
    have "(int v + 2 ^ 55) mod 2 ^ 56 = (int v + 2 ^ 55 - 2 ^ 56) mod 2 ^ 56"
      by (rule minus_mod_self2 [symmetric])
    also have "\<dots> = int v + 2 ^ 55 - 2 ^ 56"
      using v False by (intro mod_pos_pos_trivial) simp_all
    finally have "(int v + 2 ^ 55) mod 2 ^ 56 = int v + 2 ^ 55 - 2 ^ 56" .
    then show ?thesis using False by (simp add: signed56_def wrap56_def)
  qed
qed

lemma sval56_mod: "wf3 d \<Longrightarrow> sval56 d mod 2 ^ 56 = int (val56 d) mod 2 ^ 56"
  by (auto simp: sval56_def signed56_def)

lemma add56_signed:
  assumes "wf3 s" "wf3 d"
  shows "sval56 (snd (dsp_add56 s d)) = wrap56 (sval56 d + sval56 s)"
proof -
  have "sval56 (snd (dsp_add56 s d)) = wrap56 (int ((val56 d + val56 s) mod 2 ^ 56))"
    unfolding sval56_def dsp_add56_spec(2) [OF assms] by (rule signed56_wrap) simp
  also have "\<dots> = wrap56 (sval56 d + sval56 s)"
  proof (rule wrap56_cong)
    have "int ((val56 d + val56 s) mod 2 ^ 56) mod 2 ^ 56 = (int (val56 d) + int (val56 s)) mod 2 ^ 56"
      by (simp add: of_nat_mod)
    also have "\<dots> = (sval56 d + sval56 s) mod 2 ^ 56"
      using sval56_mod [OF assms(1)] sval56_mod [OF assms(2)] by (metis mod_add_eq)
    finally show "int ((val56 d + val56 s) mod 2 ^ 56) mod 2 ^ 56 = (sval56 d + sval56 s) mod 2 ^ 56" .
  qed
  finally show ?thesis .
qed

lemma sub56_signed:
  assumes "wf3 s" "wf3 d"
  shows "sval56 (snd (dsp_sub56 s d)) = wrap56 (sval56 d - sval56 s)"
proof -
  have le: "val56 s \<le> val56 d + 2 ^ 56" using wf3_val56_less [OF assms(1)] by simp
  have "sval56 (snd (dsp_sub56 s d)) = wrap56 (int ((val56 d + 2 ^ 56 - val56 s) mod 2 ^ 56))"
    unfolding sval56_def dsp_sub56_spec(2) [OF assms] by (rule signed56_wrap) simp
  also have "\<dots> = wrap56 (sval56 d - sval56 s)"
  proof (rule wrap56_cong)
    have "int ((val56 d + 2 ^ 56 - val56 s) mod 2 ^ 56) mod 2 ^ 56 = (int (val56 d) + 2 ^ 56 - int (val56 s)) mod 2 ^ 56"
      using le by (simp add: of_nat_mod of_nat_diff)
    also have "\<dots> = (int (val56 d) - int (val56 s)) mod 2 ^ 56"
      using mod_add_self2 [of "int (val56 d) - int (val56 s)" "2 ^ 56"] by (simp add: algebra_simps)
    also have "\<dots> = (sval56 d - sval56 s) mod 2 ^ 56"
      using sval56_mod [OF assms(1)] sval56_mod [OF assms(2)] by (metis mod_diff_eq)
    finally show "int ((val56 d + 2 ^ 56 - val56 s) mod 2 ^ 56) mod 2 ^ 56 = (sval56 d - sval56 s) mod 2 ^ 56" .
  qed
  finally show ?thesis .
qed

text \<open>Where the results end up.\<close>

lemma acc_not_sr [simp]: "acc0 a \<noteq> DSP_REG_SR" "acc1 a \<noteq> DSP_REG_SR" "acc2 a \<noteq> DSP_REG_SR"
  "DSP_REG_SR \<noteq> acc0 a" "DSP_REG_SR \<noteq> acc1 a" "DSP_REG_SR \<noteq> acc2 a"
  by (cases a; simp add: acc0_def acc1_def acc2_def)+

lemma acc_distinct [simp]: "acc0 a \<noteq> acc1 b" "acc0 a \<noteq> acc2 b" "acc1 a \<noteq> acc2 b"
  "acc1 a \<noteq> acc0 b" "acc2 a \<noteq> acc0 b" "acc2 a \<noteq> acc1 b"
  by (cases a; cases b; simp add: acc0_def acc1_def acc2_def)+

lemma acc_inj: "acc0 a = acc0 b \<longleftrightarrow> a = b" "acc1 a = acc1 b \<longleftrightarrow> a = b" "acc2 a = acc2 b \<longleftrightarrow> a = b"
  by (cases a; cases b; simp add: acc0_def acc1_def acc2_def)+

lemma load56_frame [simp]:
  "load56 a (sr_set m s) = load56 a s" "load56 a (sr_clear m s) = load56 a s" "load56 a (ccr3 d s) = load56 a s"
  by (simp_all add: load56_def ccr3_def split: prod.splits)

lemma load56_store56: "load56 b (store56 a d s) = (if a = b then d else load56 b s)"
  by (auto simp: load56_def store56_def acc_inj split: prod.splits)

lemma load56_flags_vc [simp]: "load56 a (flags_vc d n s) = load56 a s"
  by (simp add: flags_vc_def)

lemma reg_sr_store56 [simp]: "reg DSP_REG_SR (store56 a d s) = reg DSP_REG_SR s"
  by (simp add: store56_def split: prod.splits)

text \<open>The flags as the manual describes them.\<close>

definition flag :: "nat \<Rightarrow> 'a dsp_core_scheme \<Rightarrow> bool" where
  "flag k s = bit (reg DSP_REG_SR s) k"

definition scaling :: "'a dsp_core_scheme \<Rightarrow> nat" where
  "scaling s = scaling_mode (reg DSP_REG_SR s)"

lemma flag_ccr3:
  assumes "scaling s \<noteq> 3" and "wf3 d"
  shows "flag DSP_SR_Z (ccr3 d s) \<longleftrightarrow> sval56 d = 0"
    and "flag DSP_SR_N (ccr3 d s) \<longleftrightarrow> sval56 d < 0"
    and "flag DSP_SR_E (ccr3 d s) \<longleftrightarrow> \<not> (- (2 ^ ext_range (scaling s)) \<le> sval56 d \<and> sval56 d < 2 ^ ext_range (scaling s))"
    and "k < 16 \<Longrightarrow> k \<notin> {2, 3, 4, 5} \<Longrightarrow> flag k (ccr3 d s) = flag k s"
proof -
  obtain d0 d1 d2 where d: "d = (d0, d1, d2)" by (metis prod_cases3)
  have w: "wf3 (d0, d1, d2)" using assms(2) d by simp
  have r: "reg DSP_REG_SR (ccr3 d s) = ccr_e_u_n_z (reg DSP_REG_SR s) d0 d1 d2"
    by (simp add: d ccr3_def emu_ccr_update_e_u_n_z_def)
  have m: "scaling_mode (reg DSP_REG_SR s) \<noteq> 3" using assms(1) by (simp add: scaling_def)
  have m2: "scaling_mode (reg DSP_REG_SR s) \<in> {0, 1, 2}" using m by (auto simp: scaling_mode_def)
  note f = ccr_flags [OF m]
  have lt: "val56 d < 2 ^ 56" by (rule wf3_val56_less [OF assms(2)])
  have z: "val56 d = 0 \<longleftrightarrow> d0 = 0 \<and> d1 = 0 \<and> d2 = 0" by (simp add: d val56_def unat_eq_zero)
  show "flag DSP_SR_Z (ccr3 d s) \<longleftrightarrow> sval56 d = 0"
    unfolding flag_def r using f [of 2 d0 d1 d2] z lt by (auto simp: sval56_def signed56_def)
  show "flag DSP_SR_N (ccr3 d s) \<longleftrightarrow> sval56 d < 0"
    unfolding flag_def r using f [of 3 d0 d1 d2] sign_bit_iff [OF w] lt by (auto simp: sval56_def signed56_def d)
  show "flag DSP_SR_E (ccr3 d s) \<longleftrightarrow> \<not> (- (2 ^ ext_range (scaling s)) \<le> sval56 d \<and> sval56 d < 2 ^ ext_range (scaling s))"
    unfolding flag_def r scaling_def using f [of 5 d0 d1 d2] ext_in_use_range [OF w m2] by (simp add: d)
  show "k < 16 \<Longrightarrow> k \<notin> {2, 3, 4, 5} \<Longrightarrow> flag k (ccr3 d s) = flag k s"
    unfolding flag_def r using f [of k d0 d1 d2] by simp
qed

lemma bit_ucast16: "bit (ucast (n :: u16) :: u32) k \<longleftrightarrow> bit n k"
  by (auto simp: bit_simps dest: bit_imp_le_length)

lemma flag_vc:
  assumes "scaling s \<noteq> 3" and "wf3 d"
  shows "flag DSP_SR_Z (flags_vc d (ccr_bits l v c) s) \<longleftrightarrow> sval56 d = 0"
    and "flag DSP_SR_N (flags_vc d (ccr_bits l v c) s) \<longleftrightarrow> sval56 d < 0"
    and "flag DSP_SR_E (flags_vc d (ccr_bits l v c) s) \<longleftrightarrow>
      \<not> (- (2 ^ ext_range (scaling s)) \<le> sval56 d \<and> sval56 d < 2 ^ ext_range (scaling s))"
    and "flag DSP_SR_V (flags_vc d (ccr_bits l v c) s) \<longleftrightarrow> v"
    and "flag DSP_SR_C (flags_vc d (ccr_bits l v c) s) \<longleftrightarrow> c"
    and "flag DSP_SR_L (flags_vc d (ccr_bits l v c) s) \<longleftrightarrow> l \<or> flag DSP_SR_L s"
proof -
  have m: "fits 16 (shl 1 1 OR (shl 1 0 :: u32))" by (simp add: fits_numeral_iff)
  have b: "flag k (flags_vc d n s) \<longleftrightarrow> (k < 16 \<and> k \<noteq> 0 \<and> k \<noteq> 1 \<and> flag k (ccr3 d s)) \<or> bit n k" for k n
    unfolding flag_def flags_vc_def bit_sr_set bit_sr_clear [OF m] bit_ucast16 bit_or_iff
      bit_single [of True, unfolded if_True] by auto
  have n: "\<not> bit (ccr_bits l v c) 2" "\<not> bit (ccr_bits l v c) 3" "\<not> bit (ccr_bits l v c) 5"
    by (cases l; cases v; cases c; simp add: ccr_bits_def)+
  show "flag DSP_SR_Z (flags_vc d (ccr_bits l v c) s) \<longleftrightarrow> sval56 d = 0"
    "flag DSP_SR_N (flags_vc d (ccr_bits l v c) s) \<longleftrightarrow> sval56 d < 0"
    "flag DSP_SR_E (flags_vc d (ccr_bits l v c) s) \<longleftrightarrow>
      \<not> (- (2 ^ ext_range (scaling s)) \<le> sval56 d \<and> sval56 d < 2 ^ ext_range (scaling s))"
    "flag DSP_SR_V (flags_vc d (ccr_bits l v c) s) \<longleftrightarrow> v"
    "flag DSP_SR_C (flags_vc d (ccr_bits l v c) s) \<longleftrightarrow> c"
    "flag DSP_SR_L (flags_vc d (ccr_bits l v c) s) \<longleftrightarrow> l \<or> flag DSP_SR_L s"
    unfolding b using flag_ccr3 [OF assms] n by auto
qed

text \<open>Instructions that end with \<open>flags_vc\<close> on the value they store.\<close>

lemma scaling_store56 [simp]: "scaling (store56 a d s) = scaling s" "flag k (store56 a d s) = flag k s"
  by (simp_all add: scaling_def flag_def)

lemma reg_flags_vc_other: "r \<noteq> DSP_REG_SR \<Longrightarrow> reg r (flags_vc d n s) = reg r s"
  by (simp add: flags_vc_def ccr3_def split: prod.splits)

lemma reg_store56_other: "r \<notin> {acc0 a, acc1 a, acc2 a} \<Longrightarrow> reg r (store56 a d s) = reg r s"
  by (auto simp: store56_def split: prod.splits)

lemma flags_store_frame:
  "q \<in> {acc0 a, acc1 a, acc2 a, DSP_REG_SR} \<or> reg q (flags_vc d n (store56 a d' s)) = reg q s"
  "q = DSP_REG_SR \<or> reg q (flags_vc d n s) = reg q s"
proof -
  show v: "q = DSP_REG_SR \<or> reg q (flags_vc d n s) = reg q s" for s :: "'b dsp_core_scheme"
    using reg_flags_vc_other by blast
  have "q \<in> {acc0 a, acc1 a, acc2 a} \<or> reg q (store56 a d' s) = reg q s" using reg_store56_other by blast
  then show "q \<in> {acc0 a, acc1 a, acc2 a, DSP_REG_SR} \<or> reg q (flags_vc d n (store56 a d' s)) = reg q s"
    using v [of "store56 a d' s"] by auto
qed

definition out_of_56 :: "int \<Rightarrow> bool" where
  "out_of_56 x \<longleftrightarrow> x < - (2 ^ 55) \<or> 2 ^ 55 \<le> x"

definition in_fraction :: "'a dsp_core_scheme \<Rightarrow> int \<Rightarrow> bool" where
  "in_fraction s x \<longleftrightarrow> - (2 ^ ext_range (scaling s)) \<le> x \<and> x < 2 ^ ext_range (scaling s)"

text \<open>A state for the witnesses: A holds the largest positive accumulator, X1:X0 holds 1.5.\<close>

definition alu_sample :: "unit DSPState" where
  "alu_sample = set_reg DSP_REG_X0 0x800000 (set_reg DSP_REG_X1 0x400000
     (set_reg DSP_REG_A0 0xffffff (set_reg DSP_REG_A1 0xffffff (set_reg DSP_REG_A2 0x7f fresh_dsp))))"

lemma regs_wf_fresh: "regs_wf fresh_dsp"
  by (auto simp: regs_wf_def fresh_dsp_def dsp_init_defs reg_def reg_bits_def fits_numeral_iff)

lemma regs_wf_sample: "regs_wf alu_sample"
  unfolding alu_sample_def by (intro regs_wf_set_reg regs_wf_fresh) (simp_all add: fits_numeral_iff)

lemma sample_values:
  "load56 ACC_A alu_sample = (0x7f, 0xffffff, 0xffffff)"
  "src_reg DSP_REG_X0 alu_sample = (0xff, 0x800000, 0)" "src_reg DSP_REG_X1 alu_sample = (0, 0x400000, 0)"
  "reg DSP_REG_X0 alu_sample = 0x800000" "reg DSP_REG_X1 alu_sample = 0x400000"
  by code_simp+

lemmas value56 = sval56_def val56_def signed56_def wrap56_def signed24_def

lemma scaling_sample: "scaling alu_sample \<noteq> 3"
  by code_simp

text \<open>C2: ADD (all operands). In every scaling mode but the reserved one, the destination
  accumulator receives the 56-bit two's complement sum; V is set exactly on signed overflow, C
  exactly on unsigned overflow, Z and N describe the stored result, E says that it is not a
  fraction of the scaling mode, L is sticky, and no other register changes.\<close>

theorem alu_add_correct:
  assumes "regs_wf s" and "wf3 (src s)" and "scaling s \<noteq> 3"
  shows "let t = alu_add a src s; x = sval56 (load56 a s) + sval56 (src s); r = wrap56 x in
    sval56 (load56 a t) = r
    \<and> (flag DSP_SR_V t \<longleftrightarrow> out_of_56 x)
    \<and> (flag DSP_SR_C t \<longleftrightarrow> 2 ^ 56 \<le> val56 (load56 a s) + val56 (src s))
    \<and> (flag DSP_SR_Z t \<longleftrightarrow> r = 0) \<and> (flag DSP_SR_N t \<longleftrightarrow> r < 0)
    \<and> (flag DSP_SR_E t \<longleftrightarrow> \<not> in_fraction s r)
    \<and> (flag DSP_SR_L t \<longleftrightarrow> out_of_56 x \<or> flag DSP_SR_L s)
    \<and> (\<forall>q. q \<in> {acc0 a, acc1 a, acc2 a, DSP_REG_SR} \<or> reg q t = reg q s)"
proof -
  have l: "wf3 (load56 a s)" by (rule wf3_load56 [OF assms(1)])
  let ?d = "snd (dsp_add56 (src s) (load56 a s))"
  have d: "wf3 ?d" "sval56 ?d = wrap56 (sval56 (load56 a s) + sval56 (src s))"
    by (rule dsp_add56_spec add56_signed; fact assms(2) l)+
  have t: "alu_add a src s = flags_vc ?d (ccr_bits (out_of_56 (sval56 (load56 a s) + sval56 (src s)))
      (out_of_56 (sval56 (load56 a s) + sval56 (src s))) (2 ^ 56 \<le> val56 (load56 a s) + val56 (src s)))
      (store56 a ?d s)"
    unfolding alu_add_def case_prod_unfold Let_def dsp_add56_spec(3) [OF assms(2) l] out_of_56_def ..
  have sc: "scaling (store56 a ?d s) \<noteq> 3" using assms(3) by simp
  show ?thesis
    unfolding Let_def t in_fraction_def
    by (intro conjI allI flags_store_frame) (simp_all add: flag_vc [OF sc d(1)] d(2) load56_store56 del: One_nat_def)
qed

theorem alu_add_correct_witness:
  "let t = emu_add_x1_a alu_sample in
     sval56 (load56 ACC_A t) = - (2 ^ 55) + 0x400000 * 2 ^ 24 - 1 \<and> flag DSP_SR_V t \<and> flag DSP_SR_L t
     \<and> \<not> flag DSP_SR_C t \<and> flag DSP_SR_N t"
proof -
  have "wf3 (src_reg DSP_REG_X1 alu_sample)" by (intro wf3_src regs_wf_sample)
  from alu_add_correct [where src = "src_reg DSP_REG_X1" and a = ACC_A, OF regs_wf_sample this scaling_sample]
  have a: "sval56 (load56 ACC_A (alu_add ACC_A (src_reg DSP_REG_X1) alu_sample)) =
      wrap56 (sval56 (load56 ACC_A alu_sample) + sval56 (src_reg DSP_REG_X1 alu_sample))"
    by (simp only: Let_def simp_thms)
  have "flag DSP_SR_V t \<and> flag DSP_SR_L t \<and> \<not> flag DSP_SR_C t \<and> flag DSP_SR_N t"
    if "t = alu_add ACC_A (src_reg DSP_REG_X1) alu_sample" for t
    unfolding that by code_simp
  then show ?thesis unfolding Let_def emu_add_x1_a_def a sample_values by (simp add: value56)
qed

text \<open>C3: SUB (all operands), likewise in every scaling mode but the reserved one, with C as the borrow. CMP sets the same flags and
  changes nothing else.\<close>

theorem alu_sub_correct:
  assumes "regs_wf s" and "wf3 (src s)" and "scaling s \<noteq> 3"
  shows "let t = alu_sub a src s; x = sval56 (load56 a s) - sval56 (src s); r = wrap56 x in
    sval56 (load56 a t) = r
    \<and> (flag DSP_SR_V t \<longleftrightarrow> out_of_56 x)
    \<and> (flag DSP_SR_C t \<longleftrightarrow> val56 (load56 a s) < val56 (src s))
    \<and> (flag DSP_SR_Z t \<longleftrightarrow> r = 0) \<and> (flag DSP_SR_N t \<longleftrightarrow> r < 0)
    \<and> (flag DSP_SR_E t \<longleftrightarrow> \<not> in_fraction s r)
    \<and> (flag DSP_SR_L t \<longleftrightarrow> out_of_56 x \<or> flag DSP_SR_L s)
    \<and> (\<forall>q. q \<in> {acc0 a, acc1 a, acc2 a, DSP_REG_SR} \<or> reg q t = reg q s)
    \<and> reg DSP_REG_SR (alu_cmp a src s) = reg DSP_REG_SR t
    \<and> (\<forall>q. q = DSP_REG_SR \<or> reg q (alu_cmp a src s) = reg q s)"
proof -
  have l: "wf3 (load56 a s)" by (rule wf3_load56 [OF assms(1)])
  let ?d = "snd (dsp_sub56 (src s) (load56 a s))"
  have d: "wf3 ?d" "sval56 ?d = wrap56 (sval56 (load56 a s) - sval56 (src s))"
    by (rule dsp_sub56_spec sub56_signed; fact assms(2) l)+
  let ?n = "ccr_bits (out_of_56 (sval56 (load56 a s) - sval56 (src s)))
      (out_of_56 (sval56 (load56 a s) - sval56 (src s))) (val56 (load56 a s) < val56 (src s))"
  have t: "alu_sub a src s = flags_vc ?d ?n (store56 a ?d s)" and c: "alu_cmp a src s = flags_vc ?d ?n s"
    unfolding alu_sub_def alu_cmp_def case_prod_unfold Let_def dsp_sub56_spec(3) [OF assms(2) l] out_of_56_def by (rule refl)+
  have sc: "scaling (store56 a ?d s) \<noteq> 3" using assms(3) by simp
  have "reg DSP_REG_SR (flags_vc ?d ?n s) = reg DSP_REG_SR (flags_vc ?d ?n (store56 a ?d s))"
    by (simp add: flags_vc_def ccr3_def emu_ccr_update_e_u_n_z_def split: prod.splits)
  then show ?thesis
    unfolding Let_def t c in_fraction_def
    by (intro conjI allI flags_store_frame) (simp_all add: flag_vc [OF sc d(1)] d(2) load56_store56 del: One_nat_def)
qed

theorem alu_sub_correct_witness:
  "let t = emu_sub_x0_a alu_sample in
     sval56 (load56 ACC_A t) = - (2 ^ 55) + 0x800000 * 2 ^ 24 - 1 \<and> flag DSP_SR_V t \<and> flag DSP_SR_C t"
proof -
  have "wf3 (src_reg DSP_REG_X0 alu_sample)" by (intro wf3_src regs_wf_sample)
  from alu_sub_correct [where src = "src_reg DSP_REG_X0" and a = ACC_A, OF regs_wf_sample this scaling_sample]
  have a: "sval56 (load56 ACC_A (alu_sub ACC_A (src_reg DSP_REG_X0) alu_sample)) =
      wrap56 (sval56 (load56 ACC_A alu_sample) - sval56 (src_reg DSP_REG_X0 alu_sample))"
    by (simp only: Let_def simp_thms)
  have "flag DSP_SR_V t \<and> flag DSP_SR_C t"
    if "t = alu_sub ACC_A (src_reg DSP_REG_X0) alu_sample" for t
    unfolding that by code_simp
  then show ?thesis unfolding Let_def emu_sub_x0_a_def a sample_values by (simp add: value56)
qed

lemma bit_ccr_bits_iff: "bit (ccr_bits l v c) k \<longleftrightarrow> k = 6 \<and> l \<or> k = 1 \<and> v \<or> k = 0 \<and> c"
proof -
  have "bit (shl (of_bool b :: u16) j) k \<longleftrightarrow> b \<and> k = j" if "j < 16" for b j
    using that by (auto simp: bit_simps bit_1_iff)
  from this [of 6 l] this [of 1 v] this [of 0 c] show ?thesis
    unfolding ccr_bits_shl [symmetric] bit_or_iff by auto
qed

lemma bit_mac_flags: "bit (ucast (ccr_bits v v c) AND (0xfe::u32)) k \<longleftrightarrow> (k = 1 \<or> k = 6) \<and> v"
proof -
  have "bit (0xfe::u32) 1" "bit (0xfe::u32) 6" "\<not> bit (0xfe::u32) 0" by simp_all
  then show ?thesis unfolding bit_and_iff bit_ucast16 bit_ccr_bits_iff by metis
qed

text \<open>C1: MAC (all operands, both signs). The accumulator receives, in 56-bit two's complement,
  the sum of its value and twice the exact product of the two signed 24-bit operands (the product
  of two fractions); V is set exactly on signed overflow. The scaling mode is not the reserved one.\<close>

theorem alu_mac_correct:
  assumes "regs_wf s" and "scaling s \<noteq> 3" and "signe = SIGN_PLUS \<or> signe = SIGN_MINUS"
  shows "let t = alu_mac q r signe a s;
             prod = 2 * signed24 (reg q s) * signed24 (reg r s);
             x = (if signe = SIGN_PLUS then sval56 (load56 a s) + prod else sval56 (load56 a s) - prod) in
    sval56 (load56 a t) = wrap56 x
    \<and> (flag DSP_SR_V t \<longleftrightarrow> out_of_56 x)
    \<and> (flag DSP_SR_Z t \<longleftrightarrow> wrap56 x = 0) \<and> (flag DSP_SR_N t \<longleftrightarrow> wrap56 x < 0)
    \<and> (flag DSP_SR_C t \<longleftrightarrow> flag DSP_SR_C s)"
proof -
  let ?m = "dsp_mul56 (reg q s) (reg r s) signe"
  have se: "signe \<in> {SIGN_PLUS, SIGN_MINUS}" using assms(3) by simp
  note mul = dsp_mul56_spec [OF regs_wf_24 [OF assms(1)] regs_wf_24 [OF assms(1)] se, of q r]
  have l: "wf3 (load56 a s)" by (rule wf3_load56 [OF assms(1)])
  let ?x = "sval56 (load56 a s) + sval56 ?m"
  let ?d = "snd (dsp_add56 ?m (load56 a s))"
  let ?n = "ccr_bits (out_of_56 ?x) (out_of_56 ?x) (2 ^ 56 \<le> val56 (load56 a s) + val56 ?m)"
  have d: "wf3 ?d" "sval56 ?d = wrap56 ?x" by (rule dsp_add56_spec add56_signed; fact mul l)+
  have t: "alu_mac q r signe a s =
      sr_set (ucast ?n AND 0xfe) (sr_clear (shl 1 DSP_SR_V) (ccr3 ?d (store56 a ?d s)))"
    unfolding alu_mac_def case_prod_unfold Let_def dsp_add56_spec(3) [OF mul(1) l] out_of_56_def ..
  have m: "fits 16 (shl 1 1 :: u32)" by (simp add: fits_numeral_iff)
  have f: "flag k (alu_mac q r signe a s) \<longleftrightarrow>
      (k \<noteq> 1 \<and> flag k (ccr3 ?d (store56 a ?d s))) \<or> ((k = 1 \<or> k = 6) \<and> out_of_56 ?x)" if "k < 8" for k
    unfolding t flag_def bit_sr_set bit_sr_clear [OF m] bit_single [of True, unfolded if_True] bit_mac_flags
    using that by auto
  have sc: "scaling (store56 a ?d s) \<noteq> 3" using assms(2) by simp
  note fl = flag_ccr3 [OF sc d(1)]
  have x: "?x = (if signe = SIGN_PLUS then sval56 (load56 a s) + 2 * signed24 (reg q s) * signed24 (reg r s)
      else sval56 (load56 a s) - 2 * signed24 (reg q s) * signed24 (reg r s))"
    unfolding mul(2) by simp
  show ?thesis
    unfolding Let_def x [symmetric]
  proof (intro conjI)
    show "sval56 (load56 a (alu_mac q r signe a s)) = wrap56 ?x" unfolding t by (simp add: load56_store56 d(2))
    show "flag 1 (alu_mac q r signe a s) = out_of_56 ?x" by (subst f) simp_all
    show "flag 2 (alu_mac q r signe a s) = (wrap56 ?x = 0)" by (subst f) (simp_all add: fl d(2))
    show "flag 3 (alu_mac q r signe a s) = (wrap56 ?x < 0)" by (subst f) (simp_all add: fl d(2))
    show "flag 0 (alu_mac q r signe a s) = flag 0 s" by (subst f) (simp_all add: fl)
  qed
qed

theorem alu_mac_correct_witness:
  "let t = emu_mac_m_x1_x0_a alu_sample in
     sval56 (load56 ACC_A t) = - (2 ^ 55) + 2 ^ 46 - 1 \<and> flag DSP_SR_V t \<and> flag DSP_SR_N t"
proof -
  have "SIGN_MINUS = SIGN_PLUS \<or> SIGN_MINUS = SIGN_MINUS" by simp
  from alu_mac_correct [OF regs_wf_sample scaling_sample this, of DSP_REG_X1 DSP_REG_X0 ACC_A]
  have a: "sval56 (load56 ACC_A (alu_mac DSP_REG_X1 DSP_REG_X0 SIGN_MINUS ACC_A alu_sample)) =
      wrap56 (if SIGN_MINUS = SIGN_PLUS then
          sval56 (load56 ACC_A alu_sample) + 2 * signed24 (reg DSP_REG_X1 alu_sample) * signed24 (reg DSP_REG_X0 alu_sample)
        else sval56 (load56 ACC_A alu_sample) - 2 * signed24 (reg DSP_REG_X1 alu_sample) * signed24 (reg DSP_REG_X0 alu_sample))"
    by (simp only: Let_def simp_thms)
  have "flag DSP_SR_V t \<and> flag DSP_SR_N t"
    if "t = alu_mac DSP_REG_X1 DSP_REG_X0 SIGN_MINUS ACC_A alu_sample" for t
    unfolding that by code_simp
  then show ?thesis unfolding Let_def emu_mac_m_x1_x0_a_def a sample_values by (simp add: value56)
qed

subsection \<open>The dispatch table\<close>

lemma nth_in_take_drop:
  assumes "i < length xs" and "i \<noteq> k"
  shows "xs ! i \<in> set (take k xs @ drop (Suc k) xs)"
proof (cases "i < k")
  case True
  then have "xs ! i = take k xs ! i" "i < length (take k xs)" using assms by simp_all
  then show ?thesis by (metis UnCI nth_mem set_append)
next
  case False
  then have "xs ! i = drop (Suc k) xs ! (i - Suc k)" "i - Suc k < length (drop (Suc k) xs)" using assms by simp_all
  then show ?thesis by (metis UnCI nth_mem set_append)
qed

lemma exec_alu_keeps:
  fixes s :: "'a dsp_core_scheme"
  assumes "cur_inst s AND BITMASK 8 \<noteq> 0x1d"
  shows "alu_keeps (opcodes_alu ! unat (cur_inst s AND BITMASK 8) :: 'a dsp_core_scheme \<Rightarrow> 'a dsp_core_scheme option)"
proof -
  have "unat (cur_inst s AND BITMASK 8) < 256" by (simp add: unat_and_numeral_masks)
  then have "unat (cur_inst s AND BITMASK 8) < length (opcodes_alu :: ('a dsp_core_scheme \<Rightarrow> 'a dsp_core_scheme option) list)"
    unfolding length_opcodes_alu .
  moreover have "unat (cur_inst s AND BITMASK 8) \<noteq> 29" using assms by (simp add: word_unat_eq_iff)
  ultimately have "(opcodes_alu ! unat (cur_inst s AND BITMASK 8) :: 'a dsp_core_scheme \<Rightarrow> 'a dsp_core_scheme option)
      \<in> set (take 29 opcodes_alu @ drop (Suc 29) opcodes_alu)"
    by (rule nth_in_take_drop)
  then show ?thesis using alu_table_wf [where ?'a = 'a] unfolding list_all_iff by auto
qed

text \<open>C4: every data ALU instruction but MAX keeps the register widths: extension parts stay within
  8 bits, data registers and accumulator parts within 24, status, mode and stack registers within
  theirs.\<close>

theorem exec_alu_widths:
  assumes "regs_wf s" and "cur_inst s AND BITMASK 8 \<noteq> 0x1d" and "exec_alu s = Some t"
  shows "regs_wf t"
  using exec_alu_keeps [OF assms(2)] assms(1,3) unfolding alu_keeps_def exec_alu_def by blast

theorem exec_alu_widths_witness:
  "\<exists>t. exec_alu (alu_sample\<lparr>cur_inst := 0x60\<rparr>) = Some t \<and> regs_wf t"
proof -
  have "exec_alu (alu_sample\<lparr>cur_inst := 0x60\<rparr>) \<noteq> None" by (simp add: exec_alu_def opcodes_alu_def)
  then obtain t where t: "exec_alu (alu_sample\<lparr>cur_inst := 0x60\<rparr>) = Some t" by blast
  have "regs_wf (alu_sample\<lparr>cur_inst := 0x60\<rparr>)" using regs_wf_sample by (simp add: regs_wf_def)
  then have "regs_wf t" by (rule exec_alu_widths [OF _ _ t]) simp
  then show ?thesis using t by blast
qed

lemma max_passes:
  assumes "regs_wf s"
  shows "(case snd (dsp_sub56 (load56 ACC_B s) (load56 ACC_A s)) of (d0, d1, d2) \<Rightarrow> d0 AND shl 1 7 \<noteq> 0 \<or> d0 = 0 \<and> d1 = 0 \<and> d2 = 0)
    \<longleftrightarrow> wrap56 (sval56 (load56 ACC_A s) - sval56 (load56 ACC_B s)) \<le> 0"
proof -
  let ?d = "snd (dsp_sub56 (load56 ACC_B s) (load56 ACC_A s))"
  note w = wf3_load56 [OF assms, of ACC_B] wf3_load56 [OF assms, of ACC_A]
  have d: "wf3 ?d" "sval56 ?d = wrap56 (sval56 (load56 ACC_A s) - sval56 (load56 ACC_B s))"
    by (rule dsp_sub56_spec sub56_signed; fact w)+
  obtain d0 d1 d2 where e: "?d = (d0, d1, d2)" by (metis prod_cases3)
  have "d0 AND shl 1 7 \<noteq> 0 \<longleftrightarrow> 2 ^ 55 \<le> val56 ?d" unfolding test_bit_shl using sign_bit_iff [of d0 d1 d2] d(1) e by simp
  moreover have "d0 = 0 \<and> d1 = 0 \<and> d2 = 0 \<longleftrightarrow> val56 ?d = 0" by (auto simp: e val56_def unsigned_eq_0_iff)
  moreover have "val56 ?d < 2 ^ 56" by (rule wf3_val56_less [OF d(1)])
  moreover from this have "sval56 ?d \<le> 0 \<longleftrightarrow> 2 ^ 55 \<le> val56 ?d \<or> val56 ?d = 0" by (auto simp: sval56_def signed56_def)
  ultimately show ?thesis unfolding d(2) [symmetric] e prod.case by argo
qed

text \<open>C11: MAX does not compute a maximum, and does not keep the register widths. It copies A over B exactly if A - B, in 56-bit
  two's complement, is negative or zero, so if A is the smaller one, and sets C exactly then; and it copies it with the two ends
  exchanged: the 8-bit B2 receives the 24-bit A0, and B0 receives A2. Nothing else changes. The registers keep their widths
  exactly if nothing is copied or A0 happens to fit 8 bits.\<close>

theorem emu_max_swaps_limbs:
  assumes "regs_wf s"
  shows "let t = emu_max s; pass = (wrap56 (sval56 (load56 ACC_A s) - sval56 (load56 ACC_B s)) \<le> 0) in
    load56 ACC_B t = (if pass then (reg DSP_REG_A0 s, reg DSP_REG_A1 s, reg DSP_REG_A2 s) else load56 ACC_B s)
    \<and> (\<forall>q. q \<in> {DSP_REG_B0, DSP_REG_B1, DSP_REG_B2, DSP_REG_SR} \<or> reg q t = reg q s)
    \<and> (\<forall>k. flag k t = (if k = DSP_SR_C then pass else flag k s))
    \<and> (regs_wf t \<longleftrightarrow> \<not> pass \<or> fits 8 (reg DSP_REG_A0 s))"
proof -
  let ?p = "wrap56 (sval56 (load56 ACC_A s) - sval56 (load56 ACC_B s)) \<le> 0"
  let ?u = "if ?p then set_reg DSP_REG_B2 (reg DSP_REG_A0 s) (set_reg DSP_REG_B1 (reg DSP_REG_A1 s) (set_reg DSP_REG_B0 (reg DSP_REG_A2 s) s)) else s"
  have m: "emu_max s = sr_set (shl (cbool ?p) DSP_SR_C) (sr_clear (shl 1 DSP_SR_C) ?u)"
    unfolding emu_max_def max_passes [OF assms, symmetric] by (simp add: Let_def case_prod_unfold)
  have b: "load56 ACC_B (emu_max s) = (if ?p then (reg DSP_REG_A0 s, reg DSP_REG_A1 s, reg DSP_REG_A2 s) else load56 ACC_B s)"
    unfolding m by (simp add: load56_def acc0_def acc1_def acc2_def sr_set_def sr_clear_def)
  have f: "\<forall>q. q \<in> {DSP_REG_B0, DSP_REG_B1, DSP_REG_B2, DSP_REG_SR} \<or> reg q (emu_max s) = reg q s"
    unfolding m by (simp add: sr_set_def sr_clear_def)
  have c: "flag k (emu_max s) = (if k = DSP_SR_C then ?p else flag k s)" for k
  proof -
    have "fits 16 (reg DSP_REG_SR s)" using regs_wfD [OF assms, of DSP_REG_SR] by simp
    then have "\<not> bit (reg DSP_REG_SR s) k" if "16 \<le> k" using that unfolding fits_iff_bit by (meson not_le)
    moreover have "reg DSP_REG_SR (emu_max s) = (reg DSP_REG_SR s AND 0xfffe) OR of_bool ?p"
      unfolding m by (simp add: sr_set_def sr_clear_def)
    moreover have "bit (0xfffe::u32) k \<longleftrightarrow> 0 < k \<and> k < 16"
    proof -
      have "(0xfffe::u32) = mask 16 XOR mask 1" by (simp add: mask_numeral)
      then show ?thesis by (simp only: bit_xor_iff bit_mask_iff) auto
    qed
    ultimately show ?thesis unfolding flag_def by (auto simp: bit_simps bit_1_iff)
  qed
  have w: "regs_wf (emu_max s) \<longleftrightarrow> \<not> ?p \<or> fits 8 (reg DSP_REG_A0 s)"
  proof
    assume "regs_wf (emu_max s)"
    from wf3_load56 [OF this, of ACC_B] show "\<not> ?p \<or> fits 8 (reg DSP_REG_A0 s)" unfolding b by (auto simp: wf3_def)
  next
    assume "\<not> ?p \<or> fits 8 (reg DSP_REG_A0 s)"
    then have "regs_wf ?u" using assms regs_wfD [OF assms, of DSP_REG_A1] regs_wfD [OF assms, of DSP_REG_A2]
      by (auto intro!: regs_wf_set_reg intro: fits_mono)
    then show "regs_wf (emu_max s)" unfolding m by (intro regs_wf_sr_set regs_wf_sr_clear) (simp_all add: fits_iff_unat)
  qed
  show ?thesis unfolding Let_def using b f c w by blast
qed

theorem emu_max_swaps_limbs_witness:
  "load56 ACC_B (emu_max (set_reg DSP_REG_A2 0xff (set_reg DSP_REG_A1 0xffffff (set_reg DSP_REG_A0 0xabcdef fresh_dsp))))
    = (0xabcdef, 0xffffff, 0xff)"
proof -
  let ?s = "set_reg DSP_REG_A2 0xff (set_reg DSP_REG_A1 0xffffff (set_reg DSP_REG_A0 0xabcdef fresh_dsp))"
  have r: "reg DSP_REG_A2 ?s = 0xff" "reg DSP_REG_A1 ?s = 0xffffff" "reg DSP_REG_A0 ?s = 0xabcdef"
    "load56 ACC_A ?s = (0xff, 0xffffff, 0xabcdef)" "load56 ACC_B ?s = (0, 0, 0)" by code_simp+
  have "regs_wf fresh_dsp" by (rule regs_wf_fresh)
  then have "regs_wf ?s" by (intro regs_wf_set_reg) (simp_all add: fits_numeral_iff)
  from emu_max_swaps_limbs [OF this] show ?thesis unfolding Let_def r by (simp add: value56)
qed

end
