(* ===== verification/Dsp_Pm.thy ===== *)
theory Dsp_Pm
  imports Dsp_Alu Dsp_Dma
begin

text \<open>
  Parallel moves of \<open>dsp_emu.inl\<close> (\<open>emu_pm_read_accu24\<close>, \<open>emu_pm_0\<close> to \<open>emu_pm_8\<close> and the
  table \<open>opcodes_parmove\<close>). Each of them reads its sources, executes the data ALU instruction in
  the low byte of the instruction word, and then writes its destinations.

  The moves access memory through the callbacks that \<open>dsp_init\<close> installs, so from here on the
  state is the enclosing structure \<open>DSPState\<close>.
\<close>

subsection \<open>Reading an accumulator through the limiter\<close>

text \<open>The result is C's return value, the value stored to \<open>*dest\<close>, and the state.\<close>

definition emu_pm_read_accu24 :: "'a dsp_core_scheme \<Rightarrow> u32 \<Rightarrow> bool \<times> u32 \<times> 'a dsp_core_scheme" where
  "emu_pm_read_accu24 s numreg =
     (let scaling = shr (reg DSP_REG_SR s) DSP_SR_S0 AND BITMASK 2;
          r = numreg AND 1;
          value = shl (reg (DSP_REG_A2 + r) s) 24;
          value = value + reg (DSP_REG_A1 + r) s;
          value = (if scaling = 1 then shr value 1
                   else if scaling = 2 then shl value 1 OR (shr (reg (DSP_REG_A0 + r) s) 23 AND 1)
                   else value);
          value = value AND BITMASK 24;
          limited = sr_set (shl 1 DSP_SR_L) s
      in if reg (DSP_REG_A2 + r) s = 0 \<and> value \<le> 0x007fffff then (False, value, s)
         else if reg (DSP_REG_A2 + r) s = 0xff \<and> value \<ge> 0x00800000 then (False, value, s)
         else if reg (DSP_REG_A2 + r) s AND shl 1 7 \<noteq> 0 then (True, 0x00800000, limited)
         else (True, 0x007fffff, limited))"

text \<open>The source operand of a move: accumulators are limited to 24 bits, other registers are read
  as they are. The destination operand: accumulators are sign-extended and their low part is
  cleared; \<open>pm_write\<close> masks the other registers to their width, \<open>pm_write_raw\<close> does not.\<close>

definition pm_read :: "'a dsp_core_scheme \<Rightarrow> u32 \<Rightarrow> u32 \<times> 'a dsp_core_scheme" where
  "pm_read s numreg =
     (if numreg = DSP_REG_A \<or> numreg = DSP_REG_B then snd (emu_pm_read_accu24 s numreg)
      else (reg numreg s, s))"

definition pm_write_accu :: "acc \<Rightarrow> u32 \<Rightarrow> 'a dsp_core_scheme \<Rightarrow> 'a dsp_core_scheme" where
  "pm_write_accu a v s = set_reg (acc2 a) (ext24 v) (set_reg (acc1 a) v (set_reg (acc0 a) 0 s))"

definition pm_write :: "u32 \<Rightarrow> u32 \<Rightarrow> 'a dsp_core_scheme \<Rightarrow> 'a dsp_core_scheme" where
  "pm_write numreg v s =
     (if numreg = DSP_REG_A then pm_write_accu ACC_A v s
      else if numreg = DSP_REG_B then pm_write_accu ACC_B v s
      else set_reg numreg (v AND BITMASK (registers_mask numreg)) s)"

definition pm_write_raw :: "u32 \<Rightarrow> u32 \<Rightarrow> 'a dsp_core_scheme \<Rightarrow> 'a dsp_core_scheme" where
  "pm_write_raw numreg v s =
     (if numreg = DSP_REG_A then pm_write_accu ACC_A v s
      else if numreg = DSP_REG_B then pm_write_accu ACC_B v s
      else set_reg numreg v s)"

subsection \<open>The moves\<close>

definition emu_pm_0 :: "'o DSPState \<Rightarrow> 'o DSPState option" where
  "emu_pm_0 s = do {
     let memspace = shr (cur_inst s) 15 AND 1;
     let numreg = shr (cur_inst s) 16 AND 1;
     (_, addr, s) \<leftarrow> emu_calc_ea s (shr (cur_inst s) 8 AND BITMASK 6);
     let (_, save_accu, s) = emu_pm_read_accu24 s numreg;
     let save_xy0 = reg (DSP_REG_X0 + shl memspace 1) s;
     s \<leftarrow> exec_alu s;
     s \<leftarrow> dsp56k_write_memory s memspace addr save_accu;
     let s = set_reg (DSP_REG_A0 + numreg) 0 s;
     let s = set_reg (DSP_REG_A1 + numreg) save_xy0 s;
     Some (set_reg (DSP_REG_A2 + numreg) (ext24 save_xy0) s) }"

text \<open>The four operands of a two-bit register field.\<close>

definition pm_reg_x :: "u32 \<Rightarrow> u32" where
  "pm_reg_x f = (if f = 0 then DSP_REG_X0 else if f = 1 then DSP_REG_X1 else if f = 2 then DSP_REG_A else DSP_REG_B)"

definition pm_reg_y :: "u32 \<Rightarrow> u32" where
  "pm_reg_y f = (if f = 0 then DSP_REG_Y0 else if f = 1 then DSP_REG_Y1 else if f = 2 then DSP_REG_A else DSP_REG_B)"

text \<open>In \<open>emu_pm_1\<close> the closing brace of the last \<open>else\<close> stands before the assignment, so that
  \<open>registers[numreg1]\<close> is written also when the destination is an accumulator.\<close>

definition emu_pm_1 :: "'o DSPState \<Rightarrow> 'o DSPState option" where
  "emu_pm_1 s = do {
     (retour, xy_addr, s) \<leftarrow> emu_calc_ea s (shr (cur_inst s) 8 AND BITMASK 6);
     let memspace = shr (cur_inst s) 14 AND 1;
     let numreg1 = (if memspace \<noteq> 0 then pm_reg_y (shr (cur_inst s) 16 AND BITMASK 2)
                    else pm_reg_x (shr (cur_inst s) 18 AND BITMASK 2));
     (save_1, s) \<leftarrow>
       (if cur_inst s AND shl 1 15 \<noteq> 0 then
          if retour then Some (xy_addr, s)
          else do { v \<leftarrow> dsp56k_read_memory s memspace xy_addr; Some (v, s) }
        else Some (pm_read s numreg1));
     let numreg2 = (if memspace \<noteq> 0 then DSP_REG_A + (shr (cur_inst s) 19 AND 1)
                    else DSP_REG_A + (shr (cur_inst s) 17 AND 1));
     let (_, save_2, s) = emu_pm_read_accu24 s numreg2;
     s \<leftarrow> exec_alu s;
     s \<leftarrow>
       (if cur_inst s AND shl 1 15 \<noteq> 0 then
          Some (set_reg numreg1 save_1
                 (if numreg1 = DSP_REG_A then pm_write_accu ACC_A save_1 s
                  else if numreg1 = DSP_REG_B then pm_write_accu ACC_B save_1 s
                  else s))
        else dsp56k_write_memory s memspace xy_addr save_1);
     let numreg2 = (if memspace \<noteq> 0 then DSP_REG_X0 + (shr (cur_inst s) 18 AND 1)
                    else DSP_REG_Y0 + (shr (cur_inst s) 16 AND 1));
     Some (set_reg numreg2 save_2 s) }"

definition emu_pm_2_2 :: "'o DSPState \<Rightarrow> 'o DSPState option" where
  "emu_pm_2_2 s = do {
     let srcreg = shr (cur_inst s) 13 AND BITMASK 5;
     let dstreg = shr (cur_inst s) 8 AND BITMASK 5;
     let (save_reg, s) = pm_read s srcreg;
     s \<leftarrow> exec_alu s;
     Some (pm_write dstreg save_reg s) }"

definition emu_pm_3 :: "'o DSPState \<Rightarrow> 'o DSPState option" where
  "emu_pm_3 s = do {
     s \<leftarrow> exec_alu s;
     let dstreg = shr (cur_inst s) 16 AND BITMASK 5;
     let srcvalue = shr (cur_inst s) 8 AND BITMASK 8;
     let srcvalue = (if dstreg \<in> {DSP_REG_X0, DSP_REG_X1, DSP_REG_Y0, DSP_REG_Y1, DSP_REG_A, DSP_REG_B}
                     then shl srcvalue 16 else srcvalue);
     Some (pm_write dstreg srcvalue s) }"

definition emu_pm_2 :: "'o DSPState \<Rightarrow> 'o DSPState option" where
  "emu_pm_2 s =
     (if cur_inst s AND 0xffff00 = 0x200000 then exec_alu s
      else if cur_inst s AND 0xffe000 = 0x204000 then do {
        (_, _, s) \<leftarrow> emu_calc_ea s (shr (cur_inst s) 8 AND BITMASK 5);
        exec_alu s }
      else if cur_inst s AND 0xfc0000 = 0x200000 then emu_pm_2_2 s
      else emu_pm_3 s)"

text \<open>The source and the destination of a long move.\<close>

definition pm_long_read :: "u32 \<Rightarrow> 'a dsp_core_scheme \<Rightarrow> u32 \<times> u32 \<times> 'a dsp_core_scheme" where
  "pm_long_read numreg s =
     (let accu = (\<lambda>r r0.
            let (limited, save_lx, s) = emu_pm_read_accu24 s r
            in (save_lx, if limited then (if save_lx AND shl 1 23 \<noteq> 0 then 0 else 0xffffff) else reg r0 s, s));
          both = (\<lambda>r q.
            let (_, save_lx, s) = emu_pm_read_accu24 s r;
                (_, save_ly, s) = emu_pm_read_accu24 s q
            in (save_lx, save_ly, s))
      in if numreg = 0 then (reg DSP_REG_A1 s, reg DSP_REG_A0 s, s)
         else if numreg = 1 then (reg DSP_REG_B1 s, reg DSP_REG_B0 s, s)
         else if numreg = 2 then (reg DSP_REG_X1 s, reg DSP_REG_X0 s, s)
         else if numreg = 3 then (reg DSP_REG_Y1 s, reg DSP_REG_Y0 s, s)
         else if numreg = 4 then accu DSP_REG_A DSP_REG_A0
         else if numreg = 5 then accu DSP_REG_B DSP_REG_B0
         else if numreg = 6 then both DSP_REG_A DSP_REG_B
         else both DSP_REG_B DSP_REG_A)"

definition pm_long_write :: "u32 \<Rightarrow> u32 \<Rightarrow> u32 \<Rightarrow> 'a dsp_core_scheme \<Rightarrow> 'a dsp_core_scheme" where
  "pm_long_write numreg save_lx save_ly s =
     (if numreg = 0 then set_reg DSP_REG_A0 save_ly (set_reg DSP_REG_A1 save_lx s)
      else if numreg = 1 then set_reg DSP_REG_B0 save_ly (set_reg DSP_REG_B1 save_lx s)
      else if numreg = 2 then set_reg DSP_REG_X0 save_ly (set_reg DSP_REG_X1 save_lx s)
      else if numreg = 3 then set_reg DSP_REG_Y0 save_ly (set_reg DSP_REG_Y1 save_lx s)
      else if numreg = 4 then store56 ACC_A (ext24 save_lx, save_lx, save_ly) s
      else if numreg = 5 then store56 ACC_B (ext24 save_lx, save_lx, save_ly) s
      else if numreg = 6 then pm_write_accu ACC_B save_ly (pm_write_accu ACC_A save_lx s)
      else pm_write_accu ACC_A save_ly (pm_write_accu ACC_B save_lx s))"

definition emu_pm_4x :: "'o DSPState \<Rightarrow> 'o DSPState option" where
  "emu_pm_4x s = do {
     let value = shr (cur_inst s) 8 AND BITMASK 6;
     (l_addr, s) \<leftarrow>
       (if cur_inst s AND shl 1 14 \<noteq> 0 then do { (_, a, s) \<leftarrow> emu_calc_ea s value; Some (a, s) }
        else Some (value, s));
     let numreg = (shr (cur_inst s) 16 AND BITMASK 2) OR (shr (cur_inst s) 17 AND shl 1 2);
     (save_lx, save_ly, s) \<leftarrow>
       (if cur_inst s AND shl 1 15 \<noteq> 0 then do {
          x \<leftarrow> dsp56k_read_memory s DSP_SPACE_X l_addr;
          y \<leftarrow> dsp56k_read_memory s DSP_SPACE_Y l_addr;
          Some (x, y, s) }
        else Some (pm_long_read numreg s));
     s \<leftarrow> exec_alu s;
     if cur_inst s AND shl 1 15 \<noteq> 0 then Some (pm_long_write numreg save_lx save_ly s)
     else do {
       s \<leftarrow> dsp56k_write_memory s DSP_SPACE_X l_addr save_lx;
       dsp56k_write_memory s DSP_SPACE_Y l_addr save_ly } }"

definition emu_pm_5 :: "'o DSPState \<Rightarrow> 'o DSPState option" where
  "emu_pm_5 s = do {
     let value = shr (cur_inst s) 8 AND BITMASK 6;
     (retour, xy_addr, s) \<leftarrow>
       (if cur_inst s AND shl 1 14 \<noteq> 0 then emu_calc_ea s value else Some (False, value, s));
     let memspace = shr (cur_inst s) 19 AND 1;
     let numreg = (shr (cur_inst s) 16 AND BITMASK 3) OR (shr (cur_inst s) 17 AND shl (BITMASK 2) 3);
     (value, s) \<leftarrow>
       (if cur_inst s AND shl 1 15 \<noteq> 0 then
          if retour then Some (xy_addr, s)
          else do { v \<leftarrow> dsp56k_read_memory s memspace xy_addr; Some (v, s) }
        else Some (pm_read s numreg));
     s \<leftarrow> exec_alu s;
     if cur_inst s AND shl 1 15 \<noteq> 0 then Some (pm_write numreg value s)
     else dsp56k_write_memory s memspace xy_addr value }"

definition emu_pm_4 :: "'o DSPState \<Rightarrow> 'o DSPState option" where
  "emu_pm_4 s = (if cur_inst s AND 0xf40000 = 0x400000 then emu_pm_4x s else emu_pm_5 s)"

text \<open>The two effective address fields of an XY move.\<close>

definition pm_8_ea1 :: "u32 \<Rightarrow> u32" where
  "pm_8_ea1 inst =
     (let ea1 = shr inst 8 AND BITMASK 5 in if shr ea1 3 = 0 then ea1 OR shl 1 5 else ea1)"

definition pm_8_ea2 :: "u32 \<Rightarrow> u32" where
  "pm_8_ea2 inst =
     (let ea2 = (shr inst 13 AND BITMASK 2) OR (shr inst 17 AND shl (BITMASK 2) 3);
          ea2 = (if pm_8_ea1 inst AND shl 1 2 = 0 then ea2 OR shl 1 2 else ea2)
      in if shr ea2 3 = 0 then ea2 OR shl 1 5 else ea2)"

definition emu_pm_8 :: "'o DSPState \<Rightarrow> 'o DSPState option" where
  "emu_pm_8 s = do {
     (_, x_addr, s) \<leftarrow> emu_calc_ea s (pm_8_ea1 (cur_inst s));
     (_, y_addr, s) \<leftarrow> emu_calc_ea s (pm_8_ea2 (cur_inst s));
     let numreg1 = pm_reg_x (shr (cur_inst s) 18 AND BITMASK 2);
     let numreg2 = pm_reg_y (shr (cur_inst s) 16 AND BITMASK 2);
     (save_reg1, s) \<leftarrow>
       (if cur_inst s AND shl 1 15 \<noteq> 0 then do { v \<leftarrow> dsp56k_read_memory s DSP_SPACE_X x_addr; Some (v, s) }
        else Some (pm_read s numreg1));
     (save_reg2, s) \<leftarrow>
       (if cur_inst s AND shl 1 22 \<noteq> 0 then do { v \<leftarrow> dsp56k_read_memory s DSP_SPACE_Y y_addr; Some (v, s) }
        else Some (pm_read s numreg2));
     s \<leftarrow> exec_alu s;
     s \<leftarrow>
       (if cur_inst s AND shl 1 15 \<noteq> 0 then Some (pm_write_raw numreg1 save_reg1 s)
        else dsp56k_write_memory s DSP_SPACE_X x_addr save_reg1);
     if cur_inst s AND shl 1 22 \<noteq> 0 then Some (pm_write_raw numreg2 save_reg2 s)
     else dsp56k_write_memory s DSP_SPACE_Y y_addr save_reg2 }"

subsection \<open>Dispatch\<close>

definition opcodes_parmove :: "('o DSPState \<Rightarrow> 'o DSPState option) list" where
  "opcodes_parmove =
     [emu_pm_0, emu_pm_1, emu_pm_2, emu_pm_3, emu_pm_4, emu_pm_5, emu_pm_5, emu_pm_5,
      emu_pm_8, emu_pm_8, emu_pm_8, emu_pm_8, emu_pm_8, emu_pm_8, emu_pm_8, emu_pm_8]"

text \<open>\<open>opcodes_parmove[(dsp->cur_inst>>20) & BITMASK(4)](dsp)\<close>.\<close>

definition exec_parmove :: "'o DSPState \<Rightarrow> 'o DSPState option" where
  "exec_parmove s = (opcodes_parmove ! unat (shr (cur_inst s) 20 AND BITMASK 4)) s"

end
