(* ===== verification/Dsp_Ctrl.thy ===== *)
theory Dsp_Ctrl
  imports Dsp_Pm
begin

text \<open>
  The instructions of \<open>dsp_emu.inl\<close> that have no parallel move (lines 5793 to 8119): immediate
  arithmetic, bit manipulation, branches, jumps and subroutine calls, hardware loops, moves to and
  from control registers, program memory and peripherals.

  The source repeats the same code for each addressing mode; here the operand of a bit
  instruction is a parameter, and every C function is an instance under its own name. A shift by
  a negative amount or by more than the width of the operand is undefined in C: \<open>ASR\<close> by 0 and
  \<open>ASL\<close> by more than 56 have no result in the model.
\<close>

subsection \<open>Instruction fields\<close>

text \<open>The extension word of an instruction: \<open>read_memory_p(dsp, dsp->pc+1); dsp->cur_inst_len++\<close>.\<close>

definition next_word :: "'o DSPState \<Rightarrow> (u32 \<times> 'o DSPState) option" where
  "next_word s = do {
     xxxx \<leftarrow> read_memory_p s (pc s + 1);
     Some (xxxx, s\<lparr>cur_inst_len := cur_inst_len s + 1\<rparr>) }"

definition add_cycles :: "u16 \<Rightarrow> 'o DSPState \<Rightarrow> 'o DSPState" where
  "add_cycles n s = s\<lparr>instr_cycle := instr_cycle s + n\<rparr>"

definition acc_of :: "u32 \<Rightarrow> acc" where
  "acc_of d = (if d \<noteq> 0 then ACC_B else ACC_A)"

definition inst_field :: "'o DSPState \<Rightarrow> nat \<Rightarrow> nat \<Rightarrow> u32" where
  "inst_field s n k = shr (cur_inst s) n AND BITMASK k"

text \<open>\<open>dsp->pc = newpc; dsp->cur_inst_len = 0\<close>, and the same for a displacement.\<close>

definition goto_pc :: "u32 \<Rightarrow> 'o DSPState \<Rightarrow> 'o DSPState" where
  "goto_pc newpc s = s\<lparr>pc := newpc, cur_inst_len := 0\<rparr>"

definition branch_by :: "u32 \<Rightarrow> 'o DSPState \<Rightarrow> 'o DSPState" where
  "branch_by off s = s\<lparr>pc := (pc s + off) AND BITMASK 24, cur_inst_len := 0\<rparr>"

definition branch_disp :: "'o DSPState \<Rightarrow> u32" where
  "branch_disp s = dsp_signextend 9 ((cur_inst s AND BITMASK 5) + shr (cur_inst s AND shl (BITMASK 4) 6) 1)"

definition push_return :: "u32 \<Rightarrow> 'o DSPState \<Rightarrow> 'o DSPState option" where
  "push_return ret s = dsp_stack_push s ret (reg DSP_REG_SR s) 0"

subsection \<open>Arithmetic and logic with immediate operands\<close>

definition emu_add_x :: "'o DSPState \<Rightarrow> u32 \<Rightarrow> u32 \<Rightarrow> 'o DSPState" where
  "emu_add_x s x d = alu_add (acc_of d) (\<lambda>_. (ext24 x, x, 0)) s"

definition emu_add_imm :: "'o DSPState \<Rightarrow> 'o DSPState option" where
  "emu_add_imm s = Some (emu_add_x s (inst_field s 8 6) (inst_field s 3 1))"

definition emu_add_long :: "'o DSPState \<Rightarrow> 'o DSPState option" where
  "emu_add_long s = do { (xxxx, s) \<leftarrow> next_word s; Some (emu_add_x s xxxx (inst_field s 3 1)) }"

definition emu_and_x :: "'o DSPState \<Rightarrow> u32 \<Rightarrow> u32 \<Rightarrow> 'o DSPState" where
  "emu_and_x s x d =
     (let a = acc_of d
      in logic_flags a (sr_clear SR_NZV (set_reg (acc1 a) (reg (acc1 a) s AND x) s)))"

definition emu_and_imm :: "'o DSPState \<Rightarrow> 'o DSPState option" where
  "emu_and_imm s = Some (emu_and_x s (inst_field s 8 6) (inst_field s 3 1))"

definition emu_and_long :: "'o DSPState \<Rightarrow> 'o DSPState option" where
  "emu_and_long s = do { (xxxx, s) \<leftarrow> next_word s; Some (emu_and_x s xxxx (inst_field s 3 1)) }"

definition emu_andi :: "'o DSPState \<Rightarrow> 'o DSPState option" where
  "emu_andi s =
     (let value = inst_field s 8 8; regnum = cur_inst s AND BITMASK 2
      in Some (if regnum = 0 then set_reg DSP_REG_SR (reg DSP_REG_SR s AND (shl value 8 OR BITMASK 8)) s
               else if regnum = 1 then set_reg DSP_REG_SR (reg DSP_REG_SR s AND (shl (BITMASK 8) 8 OR value)) s
               else if regnum = 2 then set_reg DSP_REG_OMR (reg DSP_REG_OMR s AND value) s
               else s))"

definition emu_asl_imm :: "'o DSPState \<Rightarrow> 'o DSPState option" where
  "emu_asl_imm s = do {
     let ii = unat (inst_field s 1 6);
     assert (ii \<le> 56);
     let (newsr, dest) = dsp_asl56 (load56 (acc_of (inst_field s 7 1)) s) ii;
     let s = store56 (acc_of (cur_inst s AND 1)) dest s;
     Some (ccr3 dest (sr_set (ucast newsr) (sr_clear SR_VC s))) }"

definition emu_asr_imm :: "'o DSPState \<Rightarrow> 'o DSPState option" where
  "emu_asr_imm s = do {
     let ii = unat (inst_field s 1 6);
     assert (1 \<le> ii);
     let (newsr, dest) = dsp_asr56 (load56 (acc_of (inst_field s 7 1)) s) ii;
     let s = store56 (acc_of (cur_inst s AND 1)) dest s;
     Some (ccr3 dest (sr_set (ucast newsr) (sr_clear SR_VC s))) }"

definition emu_cmp_imm :: "'o DSPState \<Rightarrow> 'o DSPState option" where
  "emu_cmp_imm s = Some (alu_cmp (acc_of (inst_field s 3 1)) (\<lambda>_. (0, inst_field s 8 6, 0)) s)"

definition emu_cmp_long :: "'o DSPState \<Rightarrow> 'o DSPState option" where
  "emu_cmp_long s = do {
     (xxxx, s) \<leftarrow> next_word s;
     Some (alu_cmp (acc_of (inst_field s 3 1)) (\<lambda>_. (0, xxxx, 0)) s) }"

definition emu_cmpu :: "'o DSPState \<Rightarrow> 'o DSPState option" where
  "emu_cmpu s =
     (let ggg = inst_field s 1 3; d = cur_inst s AND 1;
          srcreg = (if ggg = 0 then (if d \<noteq> 0 then DSP_REG_A else DSP_REG_B)
                    else if ggg = 4 then DSP_REG_X0 else if ggg = 5 then DSP_REG_Y0
                    else if ggg = 6 then DSP_REG_X1 else if ggg = 7 then DSP_REG_Y1 else DSP_REG_NULL);
          dest = load56 (acc_of d) s;
          (value, s) = pm_read s srcreg;
          (newsr, d0, d1, d2) = dsp_sub56 (ext24 value, value, 0) dest;
          s = sr_clear (shl 1 DSP_SR_V OR shl 1 DSP_SR_C OR shl 1 DSP_SR_Z OR shl 1 DSP_SR_N) s;
          s = sr_set (ucast newsr AND shl 1 DSP_SR_C) s;
          s = (if d0 = 0 \<and> d2 = 0 \<and> d1 = 0 then sr_set (shl 1 DSP_SR_Z) s else s)
      in Some (sr_set (shr d0 4 AND 0x8) s))"

definition emu_dec :: "'o DSPState \<Rightarrow> 'o DSPState option" where
  "emu_dec s = Some (alu_sub (acc_of (cur_inst s AND 1)) (\<lambda>_. (0, 0, 1)) s)"

definition emu_inc :: "'o DSPState \<Rightarrow> 'o DSPState option" where
  "emu_inc s = Some (alu_add (acc_of (cur_inst s AND 1)) (\<lambda>_. (0, 0, 1)) s)"

definition div_source :: "u32 \<Rightarrow> u32" where
  "div_source f = (if f = 0 then DSP_REG_X0 else if f = 1 then DSP_REG_Y0 else if f = 2 then DSP_REG_X1 else DSP_REG_Y1)"

definition emu_div :: "'o DSPState \<Rightarrow> 'o DSPState option" where
  "emu_div s =
     (let source = src_reg (div_source (inst_field s 4 2)) s;
          a = acc_of (inst_field s 3 1);
          dest = load56 a s;
          (newsr, shifted) = dsp_asl56 dest 1;
          (d0, d1, d2) =
            (if (shr (fst dest) 7 AND 1) XOR (shr (fst (snd source)) 23 AND 1) \<noteq> 0
             then snd (dsp_add56 source shifted) else snd (dsp_sub56 source shifted));
          d2 = d2 OR (shr (reg DSP_REG_SR s) DSP_SR_C AND 1);
          s = sr_clear SR_VC (store56 a (d0, d1, d2) s);
          s = sr_set (shl (1 - (shr d0 7 AND 1)) DSP_SR_C) s;
          s = sr_set (ucast newsr AND shl 1 DSP_SR_L) s
      in Some (sr_set (ucast newsr AND shl 1 DSP_SR_V) s))"

definition emu_mpyi :: "'o DSPState \<Rightarrow> 'o DSPState option" where
  "emu_mpyi s = do {
     (xxxx, s) \<leftarrow> next_word s;
     let source = dsp_mul56 xxxx (reg (div_source (inst_field s 4 2)) s)
           (if inst_field s 2 1 \<noteq> 0 then SIGN_MINUS else SIGN_PLUS);
     let s = store56 (acc_of (inst_field s 3 1)) source s;
     Some (sr_clear (shl 1 DSP_SR_V) (ccr3 source s)) }"

definition emu_norm :: "'o DSPState \<Rightarrow> 'o DSPState option" where
  "emu_norm s =
     (let cursr = reg DSP_REG_SR s;
          cur_e = shr cursr DSP_SR_E AND 1;
          cur_euz = NOT cur_e;
          cur_euz = cur_euz AND (shr cursr DSP_SR_U AND 1);
          cur_euz = cur_euz AND NOT (shr cursr DSP_SR_Z AND 1);
          cur_euz = cur_euz AND 1;
          a = acc_of (inst_field s 3 1);
          rreg = DSP_REG_R0 + inst_field s 8 3;
          ((newsr, dest), s) =
            (if cur_euz \<noteq> 0 then (dsp_asl56 (load56 a s) 1, set_reg rreg ((reg rreg s - 1) AND BITMASK 16) s)
             else if cur_e \<noteq> 0 then (dsp_asr56 (load56 a s) 1, set_reg rreg ((reg rreg s + 1) AND BITMASK 16) s)
             else ((0, load56 a s), s))
      in Some (flags_vc dest newsr (store56 a dest s)))"

definition emu_or_long :: "'o DSPState \<Rightarrow> 'o DSPState option" where
  "emu_or_long s = do {
     (xxxx, s) \<leftarrow> next_word s;
     let a = acc_of (inst_field s 3 1);
     Some (logic_flags a (sr_clear SR_NZV (set_reg (acc1 a) (reg (acc1 a) s OR xxxx) s))) }"

definition emu_ori :: "'o DSPState \<Rightarrow> 'o DSPState option" where
  "emu_ori s =
     (let value = inst_field s 8 8; regnum = cur_inst s AND BITMASK 2
      in Some (if regnum = 0 then sr_set (shl value 8) s
               else if regnum = 1 then sr_set value s
               else if regnum = 2 then set_reg DSP_REG_OMR (reg DSP_REG_OMR s OR value) s
               else s))"

definition emu_sub_x :: "'o DSPState \<Rightarrow> u32 \<Rightarrow> u32 \<Rightarrow> 'o DSPState" where
  "emu_sub_x s x d = alu_sub (acc_of d) (\<lambda>_. (ext24 x, x, 0)) s"

definition emu_sub_imm :: "'o DSPState \<Rightarrow> 'o DSPState option" where
  "emu_sub_imm s = Some (emu_sub_x s (inst_field s 8 6) (inst_field s 3 1))"

definition emu_sub_long :: "'o DSPState \<Rightarrow> 'o DSPState option" where
  "emu_sub_long s = do { (xxxx, s) \<leftarrow> next_word s; Some (emu_sub_x s xxxx (inst_field s 3 1)) }"

text \<open>\<open>registers_tcc\<close>: source and destination of a conditional transfer. A destination that is
  not A is B.\<close>

definition registers_tcc :: "u32 \<Rightarrow> u32 \<times> u32" where
  "registers_tcc f =
     [(DSP_REG_B, DSP_REG_A), (DSP_REG_A, DSP_REG_B), (DSP_REG_NULL, DSP_REG_NULL), (DSP_REG_NULL, DSP_REG_NULL),
      (DSP_REG_NULL, DSP_REG_NULL), (DSP_REG_NULL, DSP_REG_NULL), (DSP_REG_NULL, DSP_REG_NULL), (DSP_REG_NULL, DSP_REG_NULL),
      (DSP_REG_X0, DSP_REG_A), (DSP_REG_X0, DSP_REG_B), (DSP_REG_Y0, DSP_REG_A), (DSP_REG_Y0, DSP_REG_B),
      (DSP_REG_X1, DSP_REG_A), (DSP_REG_X1, DSP_REG_B), (DSP_REG_Y1, DSP_REG_A), (DSP_REG_Y1, DSP_REG_B)] ! unat f"

definition emu_tcc :: "'o DSPState \<Rightarrow> 'o DSPState option" where
  "emu_tcc s =
     (if emu_calc_cc s (inst_field s 12 4) then
        let (regsrc1, regdest1) = registers_tcc (inst_field s 3 4);
            v = (if regsrc1 = DSP_REG_A then load56 ACC_A s
                 else if regsrc1 = DSP_REG_B then load56 ACC_B s
                 else src_reg regsrc1 s);
            s = store56 (if regdest1 = DSP_REG_A then ACC_A else ACC_B) v s
        in Some (if cur_inst s AND shl 1 16 \<noteq> 0
                 then set_reg (DSP_REG_R0 + (cur_inst s AND BITMASK 3)) (reg (DSP_REG_R0 + inst_field s 8 3) s) s
                 else s)
      else Some s)"

subsection \<open>Operands of the bit instructions\<close>

text \<open>A memory operand is an address in X or Y memory: a six-bit absolute address, an effective
  address, or one of the last 64 words (peripherals).\<close>

definition bit_space :: "'o DSPState \<Rightarrow> u32" where
  "bit_space s = inst_field s 6 1"

definition bit_num :: "'o DSPState \<Rightarrow> nat" where
  "bit_num s = unat (cur_inst s AND BITMASK 5)"

definition operand_aa :: "'o DSPState \<Rightarrow> (u32 \<times> 'o DSPState) option" where
  "operand_aa s = Some (inst_field s 8 6, s)"

definition operand_ea :: "'o DSPState \<Rightarrow> (u32 \<times> 'o DSPState) option" where
  "operand_ea s = do { (_, addr, s) \<leftarrow> emu_calc_ea s (inst_field s 8 6); Some (addr, s) }"

definition operand_pp :: "'o DSPState \<Rightarrow> (u32 \<times> 'o DSPState) option" where
  "operand_pp s = Some (0xffffc0 + inst_field s 8 6, s)"

definition read_operand ::
  "('o DSPState \<Rightarrow> (u32 \<times> 'o DSPState) option) \<Rightarrow> 'o DSPState \<Rightarrow> (u32 \<times> 'o DSPState) option" where
  "read_operand operand s = do {
     (addr, s) \<leftarrow> operand s;
     value \<leftarrow> dsp56k_read_memory s (bit_space s) addr;
     Some (value, s) }"

definition read_operand_reg :: "'o DSPState \<Rightarrow> (u32 \<times> 'o DSPState) option" where
  "read_operand_reg s = Some (pm_read s (inst_field s 8 6))"

definition set_carry :: "u32 \<Rightarrow> 'o DSPState \<Rightarrow> 'o DSPState" where
  "set_carry newcarry s = sr_set (shl newcarry DSP_SR_C) (sr_clear (shl 1 DSP_SR_C) s)"

subsection \<open>Bit manipulation\<close>

definition flip_bit32 :: "nat \<Rightarrow> u32 \<Rightarrow> u32" where
  "flip_bit32 n value = (if shr value n AND 1 \<noteq> 0 then value - shl 1 n else value + shl 1 n)"

definition clear_bit32 :: "nat \<Rightarrow> u32 \<Rightarrow> u32" where
  "clear_bit32 n value = value AND (0xffffffff - shl 1 n)"

definition set_bit32 :: "nat \<Rightarrow> u32 \<Rightarrow> u32" where
  "set_bit32 n value = value OR shl 1 n"

definition bit_op_mem ::
  "('o DSPState \<Rightarrow> (u32 \<times> 'o DSPState) option) \<Rightarrow> (nat \<Rightarrow> u32 \<Rightarrow> u32) \<Rightarrow> 'o DSPState \<Rightarrow> 'o DSPState option" where
  "bit_op_mem operand f s = do {
     (addr, s) \<leftarrow> operand s;
     value \<leftarrow> dsp56k_read_memory s (bit_space s) addr;
     let newcarry = shr value (bit_num s) AND 1;
     s \<leftarrow> dsp56k_write_memory s (bit_space s) addr (f (bit_num s) value);
     Some (add_cycles 2 (set_carry newcarry s)) }"

definition bit_op_reg :: "(nat \<Rightarrow> u32 \<Rightarrow> u32) \<Rightarrow> 'o DSPState \<Rightarrow> 'o DSPState option" where
  "bit_op_reg f s = do {
     (value, s) \<leftarrow> read_operand_reg s;
     let newcarry = shr value (bit_num s) AND 1;
     s \<leftarrow> dsp_write_reg s (inst_field s 8 6) (f (bit_num s) value);
     Some (add_cycles 2 (set_carry newcarry s)) }"

definition bit_test ::
  "('o DSPState \<Rightarrow> (u32 \<times> 'o DSPState) option) \<Rightarrow> 'o DSPState \<Rightarrow> 'o DSPState option" where
  "bit_test rd s = do {
     (value, s) \<leftarrow> rd s;
     Some (add_cycles 2 (set_carry (shr value (bit_num s) AND 1) s)) }"

definition emu_bchg_aa :: "'o DSPState \<Rightarrow> 'o DSPState option" where "emu_bchg_aa = bit_op_mem operand_aa flip_bit32"
definition emu_bchg_ea :: "'o DSPState \<Rightarrow> 'o DSPState option" where "emu_bchg_ea = bit_op_mem operand_ea flip_bit32"
definition emu_bchg_pp :: "'o DSPState \<Rightarrow> 'o DSPState option" where "emu_bchg_pp = bit_op_mem operand_pp flip_bit32"
definition emu_bchg_reg :: "'o DSPState \<Rightarrow> 'o DSPState option" where "emu_bchg_reg = bit_op_reg flip_bit32"
definition emu_bclr_aa :: "'o DSPState \<Rightarrow> 'o DSPState option" where "emu_bclr_aa = bit_op_mem operand_aa clear_bit32"
definition emu_bclr_ea :: "'o DSPState \<Rightarrow> 'o DSPState option" where "emu_bclr_ea = bit_op_mem operand_ea clear_bit32"
definition emu_bclr_pp :: "'o DSPState \<Rightarrow> 'o DSPState option" where "emu_bclr_pp = bit_op_mem operand_pp clear_bit32"
definition emu_bclr_reg :: "'o DSPState \<Rightarrow> 'o DSPState option" where "emu_bclr_reg = bit_op_reg clear_bit32"
definition emu_bset_aa :: "'o DSPState \<Rightarrow> 'o DSPState option" where "emu_bset_aa = bit_op_mem operand_aa set_bit32"
definition emu_bset_ea :: "'o DSPState \<Rightarrow> 'o DSPState option" where "emu_bset_ea = bit_op_mem operand_ea set_bit32"
definition emu_bset_pp :: "'o DSPState \<Rightarrow> 'o DSPState option" where "emu_bset_pp = bit_op_mem operand_pp set_bit32"
definition emu_bset_reg :: "'o DSPState \<Rightarrow> 'o DSPState option" where "emu_bset_reg = bit_op_reg set_bit32"
definition emu_btst_aa :: "'o DSPState \<Rightarrow> 'o DSPState option" where "emu_btst_aa = bit_test (read_operand operand_aa)"
definition emu_btst_ea :: "'o DSPState \<Rightarrow> 'o DSPState option" where "emu_btst_ea = bit_test (read_operand operand_ea)"
definition emu_btst_pp :: "'o DSPState \<Rightarrow> 'o DSPState option" where "emu_btst_pp = bit_test (read_operand operand_pp)"
definition emu_btst_reg :: "'o DSPState \<Rightarrow> 'o DSPState option" where "emu_btst_reg = bit_test read_operand_reg"

end
