(* ===== verification/Dsp_Flow.thy ===== *)
theory Dsp_Flow
  imports Dsp_Ctrl
begin

text \<open>
  Control flow of \<open>dsp_emu.inl\<close>: branches, jumps and calls with their conditional and bit-test
  forms, the hardware \<open>DO\<close> and \<open>REP\<close> loops, returns and the instructions without effect on data.

  A bit-test jump reads its operand and the target from the next program word; the source does so
  in either order, which makes no difference since both only read.
\<close>

subsection \<open>Branches\<close>

definition emu_bcc_long :: "'o DSPState \<Rightarrow> 'o DSPState option" where
  "emu_bcc_long s = do {
     (xxxx, s) \<leftarrow> next_word s;
     Some (if emu_calc_cc s (cur_inst s AND BITMASK 4) then branch_by xxxx s else s) }"

definition emu_bcc_imm :: "'o DSPState \<Rightarrow> 'o DSPState option" where
  "emu_bcc_imm s = Some (if emu_calc_cc s (inst_field s 12 4) then branch_by (branch_disp s) s else s)"

definition emu_bra_long :: "'o DSPState \<Rightarrow> 'o DSPState option" where
  "emu_bra_long s = do { (xxxx, s) \<leftarrow> next_word s; Some (branch_by xxxx s) }"

definition emu_bra_imm :: "'o DSPState \<Rightarrow> 'o DSPState option" where
  "emu_bra_imm s = Some (branch_by (branch_disp s) s)"

definition branch_bit ::
  "('o DSPState \<Rightarrow> (u32 \<times> 'o DSPState) option) \<Rightarrow> bool \<Rightarrow> 'o DSPState \<Rightarrow> 'o DSPState option" where
  "branch_bit rd when_set s = do {
     (xxxx, s) \<leftarrow> next_word s;
     (value, s) \<leftarrow> rd s;
     let s = add_cycles 4 s;
     Some (if (value AND shl 1 (bit_num s) \<noteq> 0) = when_set then branch_by xxxx s else s) }"

definition emu_brclr_pp :: "'o DSPState \<Rightarrow> 'o DSPState option" where "emu_brclr_pp = branch_bit (read_operand operand_pp) False"
definition emu_brclr_reg :: "'o DSPState \<Rightarrow> 'o DSPState option" where "emu_brclr_reg = branch_bit read_operand_reg False"
definition emu_brset_pp :: "'o DSPState \<Rightarrow> 'o DSPState option" where "emu_brset_pp = branch_bit (read_operand operand_pp) True"
definition emu_brset_reg :: "'o DSPState \<Rightarrow> 'o DSPState option" where "emu_brset_reg = branch_bit read_operand_reg True"

text \<open>A call inside a long interrupt does not push: the interrupt already has.\<close>

definition call_push :: "'o DSPState \<Rightarrow> 'o DSPState option" where
  "call_push s =
     (if interrupt_state s \<noteq> DSP_INTERRUPT_LONG then push_return (pc s + cur_inst_len s) s
      else Some (s\<lparr>interrupt_state := DSP_INTERRUPT_DISABLED\<rparr>))"

definition emu_bsr_long :: "'o DSPState \<Rightarrow> 'o DSPState option" where
  "emu_bsr_long s = do {
     (xxxx, s) \<leftarrow> next_word s;
     s \<leftarrow> call_push s;
     Some (add_cycles 4 (branch_by xxxx s)) }"

definition emu_bsr_imm :: "'o DSPState \<Rightarrow> 'o DSPState option" where
  "emu_bsr_imm s = do {
     let xxx = branch_disp s;
     s \<leftarrow> call_push s;
     Some (add_cycles 2 (branch_by xxx s)) }"

subsection \<open>Jumps and calls\<close>

definition emu_jcc_imm :: "'o DSPState \<Rightarrow> 'o DSPState option" where
  "emu_jcc_imm s =
     (let newpc = cur_inst s AND BITMASK 12
      in Some (add_cycles 2 (if emu_calc_cc s (inst_field s 12 4) then goto_pc newpc s else s)))"

definition emu_jcc_ea :: "'o DSPState \<Rightarrow> 'o DSPState option" where
  "emu_jcc_ea s = do {
     (newpc, s) \<leftarrow> operand_ea s;
     Some (add_cycles 2 (if emu_calc_cc s (cur_inst s AND BITMASK 4) then goto_pc newpc s else s)) }"

definition emu_jmp_imm :: "'o DSPState \<Rightarrow> 'o DSPState option" where
  "emu_jmp_imm s = Some (add_cycles 2 (goto_pc (cur_inst s AND BITMASK 12) s))"

definition emu_jmp_ea :: "'o DSPState \<Rightarrow> 'o DSPState option" where
  "emu_jmp_ea s = do { (newpc, s) \<leftarrow> operand_ea s; Some (add_cycles 2 (goto_pc newpc s)) }"

definition emu_jscc_imm :: "'o DSPState \<Rightarrow> 'o DSPState option" where
  "emu_jscc_imm s = do {
     let newpc = cur_inst s AND BITMASK 12;
     s \<leftarrow> (if emu_calc_cc s (inst_field s 12 4) then do {
              s \<leftarrow> push_return (pc s + cur_inst_len s) s; Some (goto_pc newpc s) }
           else Some s);
     Some (add_cycles 2 s) }"

definition emu_jscc_ea :: "'o DSPState \<Rightarrow> 'o DSPState option" where
  "emu_jscc_ea s = do {
     (newpc, s) \<leftarrow> operand_ea s;
     s \<leftarrow> (if emu_calc_cc s (cur_inst s AND BITMASK 4) then do {
              s \<leftarrow> push_return (pc s + cur_inst_len s) s; Some (goto_pc newpc s) }
           else Some s);
     Some (add_cycles 2 s) }"

definition emu_jsr_imm :: "'o DSPState \<Rightarrow> 'o DSPState option" where
  "emu_jsr_imm s = do {
     let newpc = cur_inst s AND BITMASK 12;
     s \<leftarrow> call_push s;
     Some (add_cycles 2 (goto_pc newpc s)) }"

definition emu_jsr_ea :: "'o DSPState \<Rightarrow> 'o DSPState option" where
  "emu_jsr_ea s = do {
     (newpc, s) \<leftarrow> operand_ea s;
     s \<leftarrow> call_push s;
     Some (add_cycles 2 (goto_pc newpc s)) }"

text \<open>The jumps on a bit, without and with a call.\<close>

definition jump_bit ::
  "('o DSPState \<Rightarrow> (u32 \<times> 'o DSPState) option) \<Rightarrow> bool \<Rightarrow> 'o DSPState \<Rightarrow> 'o DSPState option" where
  "jump_bit rd when_set s = do {
     (value, s) \<leftarrow> rd s;
     newaddr \<leftarrow> read_memory_p s (pc s + 1);
     let s = add_cycles 4 s;
     Some (if (value AND shl 1 (bit_num s) \<noteq> 0) = when_set then goto_pc newaddr s
           else s\<lparr>cur_inst_len := cur_inst_len s + 1\<rparr>) }"

definition call_bit ::
  "('o DSPState \<Rightarrow> (u32 \<times> 'o DSPState) option) \<Rightarrow> bool \<Rightarrow> 'o DSPState \<Rightarrow> 'o DSPState option" where
  "call_bit rd when_set s = do {
     (value, s) \<leftarrow> rd s;
     newaddr \<leftarrow> read_memory_p s (pc s + 1);
     let s = add_cycles 4 s;
     if (value AND shl 1 (bit_num s) \<noteq> 0) = when_set then do {
       s \<leftarrow> push_return (pc s + 2) s;
       Some (goto_pc newaddr s) }
     else Some (s\<lparr>cur_inst_len := cur_inst_len s + 1\<rparr>) }"

definition emu_jclr_aa :: "'o DSPState \<Rightarrow> 'o DSPState option" where "emu_jclr_aa = jump_bit (read_operand operand_aa) False"
definition emu_jclr_ea :: "'o DSPState \<Rightarrow> 'o DSPState option" where "emu_jclr_ea = jump_bit (read_operand operand_ea) False"
definition emu_jclr_pp :: "'o DSPState \<Rightarrow> 'o DSPState option" where "emu_jclr_pp = jump_bit (read_operand operand_pp) False"
definition emu_jclr_reg :: "'o DSPState \<Rightarrow> 'o DSPState option" where "emu_jclr_reg = jump_bit read_operand_reg False"
definition emu_jset_aa :: "'o DSPState \<Rightarrow> 'o DSPState option" where "emu_jset_aa = jump_bit (read_operand operand_aa) True"
definition emu_jset_ea :: "'o DSPState \<Rightarrow> 'o DSPState option" where "emu_jset_ea = jump_bit (read_operand operand_ea) True"
definition emu_jset_pp :: "'o DSPState \<Rightarrow> 'o DSPState option" where "emu_jset_pp = jump_bit (read_operand operand_pp) True"
definition emu_jset_reg :: "'o DSPState \<Rightarrow> 'o DSPState option" where "emu_jset_reg = jump_bit read_operand_reg True"
definition emu_jsclr_aa :: "'o DSPState \<Rightarrow> 'o DSPState option" where "emu_jsclr_aa = call_bit (read_operand operand_aa) False"
definition emu_jsclr_ea :: "'o DSPState \<Rightarrow> 'o DSPState option" where "emu_jsclr_ea = call_bit (read_operand operand_ea) False"
definition emu_jsclr_pp :: "'o DSPState \<Rightarrow> 'o DSPState option" where "emu_jsclr_pp = call_bit (read_operand operand_pp) False"
definition emu_jsclr_reg :: "'o DSPState \<Rightarrow> 'o DSPState option" where "emu_jsclr_reg = call_bit read_operand_reg False"
definition emu_jsset_aa :: "'o DSPState \<Rightarrow> 'o DSPState option" where "emu_jsset_aa = call_bit (read_operand operand_aa) True"
definition emu_jsset_ea :: "'o DSPState \<Rightarrow> 'o DSPState option" where "emu_jsset_ea = call_bit (read_operand operand_ea) True"
definition emu_jsset_pp :: "'o DSPState \<Rightarrow> 'o DSPState option" where "emu_jsset_pp = call_bit (read_operand operand_pp) True"
definition emu_jsset_reg :: "'o DSPState \<Rightarrow> 'o DSPState option" where "emu_jsset_reg = call_bit read_operand_reg True"

subsection \<open>Hardware loops\<close>

text \<open>\<open>dsp_stack_push(dsp, LA, LC, 0)\<close>, and the push of the loop start together with the loop flag.\<close>

definition push_loop :: "'o DSPState \<Rightarrow> 'o DSPState option" where
  "push_loop s = dsp_stack_push s (reg DSP_REG_LA s) (reg DSP_REG_LC s) 0"

definition loop_flag_on :: "'o DSPState \<Rightarrow> 'o DSPState option" where
  "loop_flag_on s = do {
     s \<leftarrow> push_return (pc s + cur_inst_len s) s;
     Some (sr_set (shl 1 DSP_SR_LF) s) }"

definition do_absolute :: "'o DSPState \<Rightarrow> 'o DSPState option" where
  "do_absolute s = do {
     s \<leftarrow> push_loop s;
     la \<leftarrow> read_memory_p s (pc s + 1);
     let s = set_reg DSP_REG_LA (la AND BITMASK 16) s;
     Some (s\<lparr>cur_inst_len := cur_inst_len s + 1\<rparr>) }"

definition do_relative :: "'o DSPState \<Rightarrow> 'o DSPState option" where
  "do_relative s = do {
     (xxxx, s) \<leftarrow> next_word s;
     s \<leftarrow> push_loop s;
     Some (set_reg DSP_REG_LA ((pc s + xxxx) AND BITMASK 16) s) }"

definition loop_count_imm :: "'o DSPState \<Rightarrow> u32" where
  "loop_count_imm s = inst_field s 8 8 + shl (cur_inst s AND BITMASK 4) 8"

definition emu_do_aa :: "'o DSPState \<Rightarrow> 'o DSPState option" where
  "emu_do_aa s = do {
     s \<leftarrow> do_absolute s;
     s \<leftarrow> loop_flag_on s;
     (value, s) \<leftarrow> read_operand operand_aa s;
     Some (add_cycles 4 (set_reg DSP_REG_LC (value AND BITMASK 16) s)) }"

definition emu_do_imm :: "'o DSPState \<Rightarrow> 'o DSPState option" where
  "emu_do_imm s = do {
     s \<leftarrow> do_absolute s;
     s \<leftarrow> loop_flag_on s;
     Some (add_cycles 4 (set_reg DSP_REG_LC (loop_count_imm s) s)) }"

definition emu_do_ea :: "'o DSPState \<Rightarrow> 'o DSPState option" where
  "emu_do_ea s = do {
     s \<leftarrow> do_absolute s;
     s \<leftarrow> loop_flag_on s;
     (value, s) \<leftarrow> read_operand operand_ea s;
     Some (add_cycles 4 (set_reg DSP_REG_LC (value AND BITMASK 16) s)) }"

definition emu_do_reg :: "'o DSPState \<Rightarrow> 'o DSPState option" where
  "emu_do_reg s = do {
     s \<leftarrow> do_absolute s;
     (value, s) \<leftarrow> read_operand_reg s;
     let s = set_reg DSP_REG_LC (value AND BITMASK 16) s;
     s \<leftarrow> loop_flag_on s;
     Some (add_cycles 4 s) }"

definition emu_dor_imm :: "'o DSPState \<Rightarrow> 'o DSPState option" where
  "emu_dor_imm s = do {
     s \<leftarrow> do_relative s;
     s \<leftarrow> loop_flag_on s;
     Some (add_cycles 4 (set_reg DSP_REG_LC (loop_count_imm s) s)) }"

definition emu_dor_reg :: "'o DSPState \<Rightarrow> 'o DSPState option" where
  "emu_dor_reg s = do {
     s \<leftarrow> do_relative s;
     s \<leftarrow> loop_flag_on s;
     (value, s) \<leftarrow> read_operand_reg s;
     Some (add_cycles 4 (set_reg DSP_REG_LC (value AND BITMASK 16) s)) }"

text \<open>The end of a loop, by \<open>ENDDO\<close> or when the count is exhausted: the flag of the enclosing loop
  and its registers are restored. All of SR but its low seven bits and the loop flag is cleared.\<close>

definition loop_end :: "'o DSPState \<Rightarrow> 'o DSPState option" where
  "loop_end s = do {
     (saved_pc, saved_sr, s) \<leftarrow> dsp_stack_pop s;
     let s = set_reg DSP_REG_SR (reg DSP_REG_SR s AND 0x7f) s;
     let s = sr_set (saved_sr AND shl 1 DSP_SR_LF) s;
     (la, lc, s) \<leftarrow> dsp_stack_pop s;
     Some (set_reg DSP_REG_LC lc (set_reg DSP_REG_LA la s)) }"

definition emu_enddo :: "'o DSPState \<Rightarrow> 'o DSPState option" where
  "emu_enddo s = loop_end s"

definition rep_start :: "'o DSPState \<Rightarrow> 'o DSPState" where
  "rep_start s = (set_reg DSP_REG_LCSAVE (reg DSP_REG_LC s) s)\<lparr>pc_on_rep := 1, loop_rep := 1\<rparr>"

definition emu_rep_aa :: "'o DSPState \<Rightarrow> 'o DSPState option" where
  "emu_rep_aa s = do {
     (value, s) \<leftarrow> read_operand operand_aa (rep_start s);
     Some (add_cycles 2 (set_reg DSP_REG_LC value s)) }"

definition emu_rep_imm :: "'o DSPState \<Rightarrow> 'o DSPState option" where
  "emu_rep_imm s = (let s = rep_start s in Some (add_cycles 2 (set_reg DSP_REG_LC (loop_count_imm s) s)))"

definition emu_rep_ea :: "'o DSPState \<Rightarrow> 'o DSPState option" where
  "emu_rep_ea s = do {
     (value, s) \<leftarrow> read_operand operand_ea (rep_start s);
     Some (add_cycles 2 (set_reg DSP_REG_LC value s)) }"

definition emu_rep_reg :: "'o DSPState \<Rightarrow> 'o DSPState option" where
  "emu_rep_reg s = do {
     (value, s) \<leftarrow> read_operand_reg (rep_start s);
     Some (add_cycles 2 (set_reg DSP_REG_LC (value AND BITMASK 16) s)) }"

subsection \<open>Returns and other instructions\<close>

definition emu_rti :: "'o DSPState \<Rightarrow> 'o DSPState option" where
  "emu_rti s = do {
     (newpc, newsr, s) \<leftarrow> dsp_stack_pop s;
     Some (add_cycles 2 (goto_pc newpc (set_reg DSP_REG_SR newsr s))) }"

definition emu_rts :: "'o DSPState \<Rightarrow> 'o DSPState option" where
  "emu_rts s = do {
     (newpc, newsr, s) \<leftarrow> dsp_stack_pop s;
     Some (add_cycles 2 (goto_pc newpc s)) }"

definition emu_illegal :: "'o DSPState \<Rightarrow> 'o DSPState option" where
  "emu_illegal s = do {
     let s = dsp56k_add_interrupt s DSP_INTER_ILLEGAL;
     assert (\<not> exception_debugging s);
     Some s }"

definition emu_nop :: "'o DSPState \<Rightarrow> 'o DSPState option" where "emu_nop s = Some s"
definition emu_reset :: "'o DSPState \<Rightarrow> 'o DSPState option" where "emu_reset s = Some (add_cycles 2 s)"
definition emu_stop :: "'o DSPState \<Rightarrow> 'o DSPState option" where "emu_stop s = Some s"
definition emu_wait :: "'o DSPState \<Rightarrow> 'o DSPState option" where "emu_wait s = Some s"

end
