(* ===== verification/Dsp_Move.thy ===== *)
theory Dsp_Move
  imports Dsp_Ctrl
begin

text \<open>
  Moves without a parallel instruction (\<open>LUA\<close>, \<open>MOVEC\<close>, \<open>MOVEM\<close>, \<open>MOVEP\<close> and the moves with a
  displacement of \<open>dsp_emu.inl\<close>).
\<close>

subsection \<open>Address register arithmetic\<close>

definition lua_write :: "u32 \<Rightarrow> 'o DSPState \<Rightarrow> 'o DSPState" where
  "lua_write v s =
     (let dstreg = cur_inst s AND BITMASK 3
      in if cur_inst s AND shl 1 3 \<noteq> 0 then set_reg (DSP_REG_N0 + dstreg) v s
         else set_reg (DSP_REG_R0 + dstreg) v s)"

definition emu_lua :: "'o DSPState \<Rightarrow> 'o DSPState option" where
  "emu_lua s = do {
     let rn = DSP_REG_R0 + inst_field s 8 3;
     let srcsave = reg rn s;
     (_, _, s) \<leftarrow> emu_calc_ea s (inst_field s 8 5);
     let srcnew = reg rn s;
     let s = set_reg rn srcsave s;
     Some (add_cycles 2 (lua_write srcnew s)) }"

definition emu_lua_rel :: "'o DSPState \<Rightarrow> 'o DSPState option" where
  "emu_lua_rel s =
     (let aa = inst_field s 4 4 + shl (inst_field s 11 3) 4;
          v = (reg (DSP_REG_R0 + inst_field s 8 3) s + dsp_signextend 7 aa) AND BITMASK 24
      in Some (add_cycles 2 (lua_write v s)))"

subsection \<open>Sources and destinations\<close>

text \<open>Reading \<open>SSH\<close> pops the stack. \<open>MOVEC\<close> reads the other registers as they are, \<open>MOVEM\<close> and
  \<open>MOVEP\<close> limit the accumulators.\<close>

definition movec_read :: "'o DSPState \<Rightarrow> u32 \<Rightarrow> (u32 \<times> 'o DSPState) option" where
  "movec_read s numreg =
     (if numreg = DSP_REG_SSH then do { (value, _, s) \<leftarrow> dsp_stack_pop s; Some (value, s) }
      else Some (reg numreg s, s))"

definition movem_read :: "'o DSPState \<Rightarrow> u32 \<Rightarrow> (u32 \<times> 'o DSPState) option" where
  "movem_read s numreg =
     (if numreg = DSP_REG_SSH then do { (value, _, s) \<leftarrow> dsp_stack_pop s; Some (value, s) }
      else Some (pm_read s numreg))"

definition write_masked :: "'o DSPState \<Rightarrow> u32 \<Rightarrow> u32 \<Rightarrow> 'o DSPState option" where
  "write_masked s numreg value = dsp_write_reg s numreg (value AND BITMASK (registers_mask numreg))"

subsection \<open>MOVEC\<close>

definition emu_movec_reg :: "'o DSPState \<Rightarrow> 'o DSPState option" where
  "emu_movec_reg s =
     (let numreg2 = inst_field s 8 6; numreg1 = cur_inst s AND BITMASK 6
      in if cur_inst s AND shl 1 15 \<noteq> 0 then
           let (value, s) = pm_read s numreg2 in write_masked s numreg1 value
         else do {
           (value, s) \<leftarrow> movec_read s numreg1;
           Some (if numreg2 = DSP_REG_A then store56 ACC_A (ext24 value, value AND BITMASK 24, 0) s
                 else if numreg2 = DSP_REG_B then store56 ACC_B (ext24 value, value AND BITMASK 24, 0) s
                 else set_reg numreg2 (value AND BITMASK (registers_mask numreg2)) s) })"

definition emu_movec_aa :: "'o DSPState \<Rightarrow> 'o DSPState option" where
  "emu_movec_aa s =
     (let numreg = cur_inst s AND BITMASK 6; addr = inst_field s 8 6; memspace = inst_field s 6 1
      in if cur_inst s AND shl 1 15 \<noteq> 0 then do {
           value \<leftarrow> dsp56k_read_memory s memspace addr;
           write_masked s numreg value }
         else do {
           (value, s) \<leftarrow> movec_read s numreg;
           dsp56k_write_memory s memspace addr value })"

definition emu_movec_imm :: "'o DSPState \<Rightarrow> 'o DSPState option" where
  "emu_movec_imm s = write_masked s (cur_inst s AND BITMASK 6) (inst_field s 8 8)"

definition emu_movec_ea :: "'o DSPState \<Rightarrow> 'o DSPState option" where
  "emu_movec_ea s = do {
     let numreg = cur_inst s AND BITMASK 6;
     let memspace = inst_field s 6 1;
     (retour, addr, s) \<leftarrow> emu_calc_ea s (inst_field s 8 6);
     if cur_inst s AND shl 1 15 \<noteq> 0 then do {
       value \<leftarrow> (if retour then Some addr else dsp56k_read_memory s memspace addr);
       write_masked s numreg value }
     else do {
       (value, s) \<leftarrow> movec_read s numreg;
       dsp56k_write_memory s memspace addr value } }"

subsection \<open>MOVEM\<close>

definition movem_transfer :: "u32 \<Rightarrow> 'o DSPState \<Rightarrow> 'o DSPState option" where
  "movem_transfer addr s = do {
     let numreg = cur_inst s AND BITMASK 6;
     s \<leftarrow> (if cur_inst s AND shl 1 15 \<noteq> 0 then do {
              value \<leftarrow> read_memory_p s addr;
              write_masked s numreg value }
           else do {
              (value, s) \<leftarrow> movem_read s numreg;
              dsp56k_write_memory s DSP_SPACE_P addr value });
     Some (add_cycles 4 s) }"

definition emu_movem_aa :: "'o DSPState \<Rightarrow> 'o DSPState option" where
  "emu_movem_aa s = movem_transfer (inst_field s 8 6) s"

definition emu_movem_ea :: "'o DSPState \<Rightarrow> 'o DSPState option" where
  "emu_movem_ea s = do { (addr, s) \<leftarrow> operand_ea s; movem_transfer addr s }"

subsection \<open>MOVEP\<close>

definition pp_addr :: "'o DSPState \<Rightarrow> u32" where
  "pp_addr s = 0xffffc0 + (cur_inst s AND BITMASK 6)"

definition emu_movep_0 :: "'o DSPState \<Rightarrow> 'o DSPState option" where
  "emu_movep_0 s = do {
     let addr = pp_addr s;
     let memspace = inst_field s 16 1;
     let numreg = inst_field s 8 6;
     s \<leftarrow> (if cur_inst s AND shl 1 15 \<noteq> 0 then do {
              (value, s) \<leftarrow> movem_read s numreg;
              dsp56k_write_memory s memspace addr value }
           else do {
              value \<leftarrow> dsp56k_read_memory s memspace addr;
              write_masked s numreg value });
     Some (add_cycles 2 s) }"

definition emu_movep_1 :: "'o DSPState \<Rightarrow> 'o DSPState option" where
  "emu_movep_1 s = do {
     let xyaddr = pp_addr s;
     (paddr, s) \<leftarrow> operand_ea s;
     let memspace = inst_field s 16 1;
     s \<leftarrow> (if cur_inst s AND shl 1 15 \<noteq> 0 then do {
              value \<leftarrow> read_memory_p s paddr;
              dsp56k_write_memory s memspace xyaddr value }
           else do {
              value \<leftarrow> dsp56k_read_memory s memspace xyaddr;
              dsp56k_write_memory s DSP_SPACE_P paddr value });
     Some (add_cycles 4 s) }"

text \<open>A transfer between a peripheral word and an effective address or an immediate word.\<close>

definition movep_transfer :: "u32 \<Rightarrow> u32 \<Rightarrow> 'o DSPState \<Rightarrow> 'o DSPState option" where
  "movep_transfer perspace peraddr s = do {
     let easpace = inst_field s 6 1;
     (retour, addr, s) \<leftarrow> emu_calc_ea s (inst_field s 8 6);
     s \<leftarrow> (if cur_inst s AND shl 1 15 \<noteq> 0 then do {
              value \<leftarrow> (if retour then Some addr else dsp56k_read_memory s easpace addr);
              dsp56k_write_memory s perspace peraddr value }
           else do {
              value \<leftarrow> dsp56k_read_memory s perspace peraddr;
              dsp56k_write_memory s easpace addr value });
     Some (add_cycles 2 s) }"

definition emu_movep_23 :: "'o DSPState \<Rightarrow> 'o DSPState option" where
  "emu_movep_23 s = movep_transfer (inst_field s 16 1) (pp_addr s) s"

definition emu_movep_x_qq :: "'o DSPState \<Rightarrow> 'o DSPState option" where
  "emu_movep_x_qq s = movep_transfer DSP_SPACE_X (0xffff80 + (cur_inst s AND BITMASK 6)) s"

subsection \<open>Moves with a displacement\<close>

definition move_transfer :: "bool \<Rightarrow> u32 \<Rightarrow> u32 \<Rightarrow> u32 \<Rightarrow> 'o DSPState \<Rightarrow> 'o DSPState option" where
  "move_transfer W space addr numreg s =
     (if \<not> W then let (value, s) = pm_read s numreg in dsp56k_write_memory s space addr value
      else do {
        value \<leftarrow> dsp56k_read_memory s space addr;
        dsp_write_reg s numreg value })"

definition emu_move_x_long :: "'o DSPState \<Rightarrow> 'o DSPState option" where
  "emu_move_x_long s = do {
     (xxxx, s) \<leftarrow> next_word s;
     let x_addr = (reg (DSP_REG_R0 + inst_field s 8 3) s + xxxx) AND BITMASK 24;
     move_transfer (inst_field s 6 1 \<noteq> 0) DSP_SPACE_X x_addr (cur_inst s AND BITMASK 6) s }"

definition emu_move_xy_imm :: "'o DSPState \<Rightarrow> u32 \<Rightarrow> 'o DSPState option" where
  "emu_move_xy_imm s space =
     (let xxx = shl (inst_field s 11 6) 1 + inst_field s 6 1;
          addr = (reg (DSP_REG_R0 + inst_field s 8 3) s + dsp_signextend 7 xxx) AND BITMASK 24
      in move_transfer (inst_field s 4 1 \<noteq> 0) space addr (cur_inst s AND BITMASK 4) s)"

definition emu_move_x_imm :: "'o DSPState \<Rightarrow> 'o DSPState option" where
  "emu_move_x_imm s = emu_move_xy_imm s DSP_SPACE_X"

definition emu_move_y_imm :: "'o DSPState \<Rightarrow> 'o DSPState option" where
  "emu_move_y_imm s = emu_move_xy_imm s DSP_SPACE_Y"

end
