(* ===== verification/Dsp_Decode.thy ===== *)
theory Dsp_Decode
  imports Dsp_Flow Dsp_Move
begin

text \<open>
  Decoding of \<open>dsp_cpu.c\<close>: the table \<open>nonparallel_opcodes\<close> of instruction templates, the masks
  that \<open>dsp56k_reset_cpu\<close> derives from them, and \<open>lookup_opcode\<close>, which asserts that at most one
  template matches.

  The disassembler functions of the table are left out. An entry without an emulation function
  (\<open>NULL\<close>) is \<open>None\<close>, and so is an entry without a match function.
\<close>

subsection \<open>The table\<close>

record 'o OpcodeEntry =
  template :: string
  op_name :: string
  emu_func :: "('o DSPState \<Rightarrow> 'o DSPState option) option"
  match_func :: "(u32 \<Rightarrow> bool) option"

definition opcode ::
  "string \<Rightarrow> string \<Rightarrow> ('o DSPState \<Rightarrow> 'o DSPState option) option \<Rightarrow> (u32 \<Rightarrow> bool) option \<Rightarrow> 'o OpcodeEntry" where
  "opcode t n f m = \<lparr>template = t, op_name = n, emu_func = f, match_func = m\<rparr>"

definition match_MMMRRR :: "u32 \<Rightarrow> bool" where
  "match_MMMRRR op' =
     (let RRR = shr op' 8 AND BITMASK 3; MMM = shr op' 11 AND BITMASK 3
      in if MMM = 0x6 then RRR = 0x0 \<or> RRR = 0x4 else True)"

definition nonparallel_opcodes :: "'o OpcodeEntry list" where
  "nonparallel_opcodes = [
     opcode ''0000000101iiiiii1000d000'' ''add #xx, D'' (Some emu_add_imm) None,
     opcode ''00000001010000001100d000'' ''add #xxxx, D'' (Some emu_add_long) None,
     opcode ''0000000101iiiiii1000d110'' ''and #xx, D'' (Some emu_and_imm) None,
     opcode ''00000001010000001100d110'' ''and #xxxx, D'' (Some emu_and_long) None,
     opcode ''00000000iiiiiiii101110EE'' ''andi #xx, D'' (Some emu_andi) None,
     opcode ''0000110000011101SiiiiiiD'' ''asl #ii, S2, D'' (Some emu_asl_imm) None,
     opcode ''0000110000011110010SsssD'' ''asl S1, S2, D'' None None,
     opcode ''0000110000011100SiiiiiiD'' ''asr #ii, S2, D'' (Some emu_asr_imm) None,
     opcode ''0000110000011110011SsssD'' ''asr S1, S2, D'' None None,
     opcode ''00001101000100000100CCCC'' ''bcc xxxx'' (Some emu_bcc_long) None,
     opcode ''00000101CCCC01aaaa0aaaaa'' ''bcc xxx'' (Some emu_bcc_imm) None,
     opcode ''0000110100011RRR0100CCCC'' ''bcc Rn'' None None,
     opcode ''0000101101MMMRRR0S00bbbb'' ''bchg #n, [X or Y]:ea'' (Some emu_bchg_ea) (Some match_MMMRRR),
     opcode ''0000101100aaaaaa0S00bbbb'' ''bchg #n, [X or Y]:aa'' (Some emu_bchg_aa) None,
     opcode ''0000101110pppppp0S00bbbb'' ''bchg #n, [X or Y]:pp'' (Some emu_bchg_pp) None,
     opcode ''0000000101qqqqqq0S0bbbbb'' ''bchg #n, [X or Y]:qq'' None None,
     opcode ''0000101111DDDDDD010bbbbb'' ''bchg, #n, D'' (Some emu_bchg_reg) None,
     opcode ''0000101001MMMRRR0S00bbbb'' ''bclr #n, [X or Y]:ea'' (Some emu_bclr_ea) (Some match_MMMRRR),
     opcode ''0000101000aaaaaa0S00bbbb'' ''bclr #n, [X or Y]:aa'' (Some emu_bclr_aa) None,
     opcode ''0000101010pppppp0S00bbbb'' ''bclr #n, [X or Y]:pp'' (Some emu_bclr_pp) None,
     opcode ''0000000100qqqqqq0S00bbbb'' ''bclr #n, [X or Y]:qq'' None None,
     opcode ''0000101011DDDDDD010bbbbb'' ''bclr #n, D'' (Some emu_bclr_reg) None,
     opcode ''000011010001000011000000'' ''bra xxxx'' (Some emu_bra_long) None,
     opcode ''00000101000011aaaa0aaaaa'' ''bra xxx'' (Some emu_bra_imm) None,
     opcode ''0000110100011RRR11000000'' ''bra Rn'' None None,
     opcode ''0000110010MMMRRR0S0bbbbb'' ''brclr #n, [X or Y]:ea, xxxx'' None (Some match_MMMRRR),
     opcode ''0000110010aaaaaa1S0bbbbb'' ''brclr #n, [X or Y]:aa, xxxx'' None None,
     opcode ''0000110011pppppp0S0bbbbb'' ''brclr #n, [X or Y]:pp, xxxx'' (Some emu_brclr_pp) None,
     opcode ''0000010010qqqqqq0S0bbbbb'' ''brclr #n, [X or Y]:qq, xxxx'' None None,
     opcode ''0000110011DDDDDD100bbbbb'' ''brclr #n, S, xxxx'' (Some emu_brclr_reg) None,
     opcode ''00000000000000100001CCCC'' ''brkcc'' None None,
     opcode ''0000110010MMMRRR0S1bbbbb'' ''brset #n, [X or Y]:ea, xxxx'' None (Some match_MMMRRR),
     opcode ''0000110010aaaaaa1S1bbbbb'' ''brset #n, [X or Y]:aa, xxxx'' None None,
     opcode ''0000110011pppppp0S1bbbbb'' ''brset #n, [X or Y]:pp, xxxx'' (Some emu_brset_pp) None,
     opcode ''0000010010qqqqqq0S1bbbbb'' ''brset #n, [X or Y]:qq, xxxx'' None None,
     opcode ''0000110011DDDDDD101bbbbb'' ''brset #n, S, xxxx'' (Some emu_brset_reg) None,
     opcode ''00001101000100000000CCCC'' ''bscc xxxx'' None None,
     opcode ''00000101CCCC00aaaa0aaaaa'' ''bscc xxx'' None None,
     opcode ''0000110100011RRR0000CCCC'' ''bscc Rn'' None None,
     opcode ''0000110110MMMRRR0S0bbbbb'' ''bsclr #n, [X or Y]:ea, xxxx'' None (Some match_MMMRRR),
     opcode ''0000110110aaaaaa1S0bbbbb'' ''bsclr #n, [X or Y]:aa, xxxx'' None None,
     opcode ''0000010010qqqqqq1S0bbbbb'' ''bsclr #n, [X or Y]:qq, xxxx'' None None,
     opcode ''0000110111pppppp0S0bbbbb'' ''bsclr #n, [X or Y]:pp, xxxx'' None None,
     opcode ''0000110111DDDDDD100bbbbb'' ''bsclr, #n, S, xxxx'' None None,
     opcode ''0000101001MMMRRR0S1bbbbb'' ''bset #n, [X or Y]:ea'' (Some emu_bset_ea) (Some match_MMMRRR),
     opcode ''0000101000aaaaaa0S1bbbbb'' ''bset #n, [X or Y]:aa'' (Some emu_bset_aa) None,
     opcode ''0000101010pppppp0S1bbbbb'' ''bset #n, [X or Y]:pp'' (Some emu_bset_pp) None,
     opcode ''0000000100qqqqqq0S1bbbbb'' ''bset #n, [X or Y]:qq'' None None,
     opcode ''0000101011DDDDDD011bbbbb'' ''bset, #n, D'' (Some emu_bset_reg) None,
     opcode ''000011010001000010000000'' ''bsr xxxx'' (Some emu_bsr_long) None,
     opcode ''00000101000010aaaa0aaaaa'' ''bsr xxx'' (Some emu_bsr_imm) None,
     opcode ''0000110100011RRR10000000'' ''bsr Rn'' None None,
     opcode ''0000110110MMMRRR0S1bbbbb'' ''bsset #n, [X or Y]:ea, xxxx'' None (Some match_MMMRRR),
     opcode ''0000110110aaaaaa1S1bbbbb'' ''bsset #n, [X or Y]:aa, xxxx'' None None,
     opcode ''0000110111pppppp0S1bbbbb'' ''bsset #n, [X or Y]:pp, xxxx'' None None,
     opcode ''0000010010qqqqqq1S1bbbbb'' ''bsset #n, [X or Y]:qq, xxxx'' None None,
     opcode ''0000110111DDDDDD101bbbbb'' ''bsset #n, S, xxxx'' None None,
     opcode ''0000101101MMMRRR0S10bbbb'' ''btst #n, [X or Y]:ea'' (Some emu_btst_ea) (Some match_MMMRRR),
     opcode ''0000101100aaaaaa0S10bbbb'' ''btst #n, [X or Y]:aa'' (Some emu_btst_aa) None,
     opcode ''0000101110pppppp0S10bbbb'' ''btst #n, [X or Y]:pp'' (Some emu_btst_pp) None,
     opcode ''0000000101qqqqqq0S10bbbb'' ''btst #n, [X or Y]:qq'' None None,
     opcode ''0000101111DDDDDD0110bbbb'' ''btst #n, D'' (Some emu_btst_reg) None,
     opcode ''0000110000011110000000SD'' ''clb S, D'' None None,
     opcode ''0000000101iiiiii1000d101'' ''cmp #xx, S2'' (Some emu_cmp_imm) None,
     opcode ''00000001010000001100d101'' ''cmp #xxxx, S2'' (Some emu_cmp_long) None,
     opcode ''00001100000111111111gggd'' ''cmpu S1, S2'' (Some emu_cmpu) None,
     opcode ''000000000000001000000000'' ''debug'' None None,
     opcode ''00000000000000110000CCCC'' ''debugcc'' None None,
     opcode ''00000000000000000000101d'' ''dec D'' (Some emu_dec) None,
     opcode ''000000011000000001JJd000'' ''div S, D'' (Some emu_div) None,
     opcode ''000000010010010s1sdkQQQQ'' ''dmac S1, S2, D'' None None,
     opcode ''0000011001MMMRRR0S000000'' ''do [X or Y]:ea, expr'' (Some emu_do_ea) (Some match_MMMRRR),
     opcode ''0000011000aaaaaa0S000000'' ''do [X or Y]:aa, expr'' (Some emu_do_aa) None,
     opcode ''00000110iiiiiiii1000hhhh'' ''do #xxx, expr'' (Some emu_do_imm) None,
     opcode ''0000011011DDDDDD00000000'' ''do S, expr'' (Some emu_do_reg) None,
     opcode ''000000000000001000000011'' ''do_f'' None None,
     opcode ''0000011001MMMRRR0S010000'' ''dor [X or Y]:ea, label'' None (Some match_MMMRRR),
     opcode ''0000011000aaaaaa0S010000'' ''dor [X or Y]:aa, label'' None None,
     opcode ''00000110iiiiiiii1001hhhh'' ''dor #xxx, label'' (Some emu_dor_imm) None,
     opcode ''0000011011DDDDDD00010000'' ''dor S, label'' (Some emu_dor_reg) None,
     opcode ''000000000000001000000010'' ''dor_f'' None None,
     opcode ''000000000000000010001100'' ''enddo'' (Some emu_enddo) None,
     opcode ''0000000101iiiiii1000d011'' ''eor #xx, D'' None None,
     opcode ''00000001010000001100d011'' ''eor #xxxx, D'' None None,
     opcode ''0000110000011010000sSSSD'' ''extract S1, S2, D'' None None,
     opcode ''0000110000011000000s000D'' ''extract #CO, S2, D'' None None,
     opcode ''0000110000011010100sSSSD'' ''extractu S1, S2, D'' None None,
     opcode ''0000110000011000100s000D'' ''extractu #CO, S2, D'' None None,
     opcode ''000000000000000000000101'' ''ill'' (Some emu_illegal) None,
     opcode ''00000000000000000000100d'' ''inc D'' (Some emu_inc) None,
     opcode ''00001100000110110qqqSSSD'' ''insert S1, S2, D'' None None,
     opcode ''00001100000110010qqq000D'' ''insert #CO, S2, D'' None None,
     opcode ''00001110CCCCaaaaaaaaaaaa'' ''jcc xxx'' (Some emu_jcc_imm) None,
     opcode ''0000101011MMMRRR1010CCCC'' ''jcc ea'' (Some emu_jcc_ea) (Some match_MMMRRR),
     opcode ''0000101001MMMRRR1S00bbbb'' ''jclr #n, [X or Y]:ea, xxxx'' (Some emu_jclr_ea) (Some match_MMMRRR),
     opcode ''0000101000aaaaaa1S00bbbb'' ''jclr #n, [X or Y]:aa, xxxx'' (Some emu_jclr_aa) None,
     opcode ''0000101010pppppp1S00bbbb'' ''jclr #n, [X or Y]:pp, xxxx'' (Some emu_jclr_pp) None,
     opcode ''0000000110qqqqqq1S00bbbb'' ''jclr #n, [X or Y]:qq, xxxx'' None None,
     opcode ''0000101011DDDDDD0000bbbb'' ''jclr #n, S, xxxx'' (Some emu_jclr_reg) None,
     opcode ''0000101011MMMRRR10000000'' ''jmp ea'' (Some emu_jmp_ea) (Some match_MMMRRR),
     opcode ''000011000000aaaaaaaaaaaa'' ''jmp xxx'' (Some emu_jmp_imm) None,
     opcode ''00001111CCCCaaaaaaaaaaaa'' ''jscc xxx'' (Some emu_jscc_imm) None,
     opcode ''0000101111MMMRRR1010CCCC'' ''jscc ea'' (Some emu_jscc_ea) (Some match_MMMRRR),
     opcode ''0000101101MMMRRR1S00bbbb'' ''jsclr #n, [X or Y]:ea, xxxx'' (Some emu_jsclr_ea) (Some match_MMMRRR),
     opcode ''0000101100MMMRRR1S00bbbb'' ''jsclr #n, [X or Y]:aa, xxxx'' (Some emu_jsclr_aa) (Some match_MMMRRR),
     opcode ''0000101110pppppp1S0bbbbb'' ''jsclr #n, [X or Y]:pp, xxxx'' (Some emu_jsclr_pp) None,
     opcode ''0000000111qqqqqq1S0bbbbb'' ''jsclr #n, [X or Y]:qq, xxxx'' None None,
     opcode ''0000101111DDDDDD000bbbbb'' ''jsclr #n, S, xxxx'' (Some emu_jsclr_reg) None,
     opcode ''0000101001MMMRRR1S10bbbb'' ''jset #n, [X or Y]:ea, xxxx'' (Some emu_jset_ea) (Some match_MMMRRR),
     opcode ''0000101000MMMRRR1S10bbbb'' ''jset #n, [X or Y]:aa, xxxx'' (Some emu_jset_aa) (Some match_MMMRRR),
     opcode ''0000101010pppppp1S10bbbb'' ''jset #n, [X or Y]:pp, xxxx'' (Some emu_jset_pp) None,
     opcode ''0000000110qqqqqq1S10bbbb'' ''jset #n, [X or Y]:qq, xxxx'' None None,
     opcode ''0000101011DDDDDD0010bbbb'' ''jset #n, S, xxxx'' (Some emu_jset_reg) None,
     opcode ''0000101111MMMRRR10000000'' ''jsr ea'' (Some emu_jsr_ea) (Some match_MMMRRR),
     opcode ''000011010000aaaaaaaaaaaa'' ''jsr xxx'' (Some emu_jsr_imm) None,
     opcode ''0000101101MMMRRR1S10bbbb'' ''jsset #n, [X or Y]:ea, xxxx'' (Some emu_jsset_ea) (Some match_MMMRRR),
     opcode ''0000101100aaaaaa1S10bbbb'' ''jsset #n, [X or Y]:aa, xxxx'' (Some emu_jsset_aa) None,
     opcode ''0000101110pppppp1S1bbbbb'' ''jsset #n, [X or Y]:pp, xxxx'' (Some emu_jsset_pp) None,
     opcode ''0000000111qqqqqq1S1bbbbb'' ''jsset #n, [X or Y]:qq, xxxx'' None None,
     opcode ''0000101111DDDDDD001bbbbb'' ''jsset #n, S, xxxx'' (Some emu_jsset_reg) None,
     opcode ''0000010011000RRR000ddddd'' ''lra Rn, D'' None None,
     opcode ''0000010001000000010ddddd'' ''lra xxxx, D'' None None,
     opcode ''000011000001111010iiiiiD'' ''lsl #ii, D'' None None,
     opcode ''00001100000111100001sssD'' ''lsl S, D'' None None,
     opcode ''000011000001111011iiiiiD'' ''lsr #ii, D'' None None,
     opcode ''00001100000111100011sssD'' ''lsr S, D'' None None,
     opcode ''00000100010MMRRR000ddddd'' ''lua ea, D'' (Some emu_lua) None,
     opcode ''0000010000aaaRRRaaaadddd'' ''lua (Rn + aa), D'' (Some emu_lua_rel) None,
     opcode ''00000001000sssss11QQdk10'' ''mac S, #n, D'' None None,
     opcode ''000000010100000111qqdk10'' ''maci #xxxx, S, D'' None None,
     opcode ''00000001001001101sdkQQQQ'' ''mac_s_u S1, S2, D'' None None,
     opcode ''00000001000sssss11QQdk11'' ''macr S1, S2, D'' None None,
     opcode ''000000010100000111qqdk11'' ''macri #xxxx, S, D'' None None,
     opcode ''00001100000110111000sssD'' ''merge S, D'' None None,
     opcode ''0000101001110RRR1WDDDDDD'' ''move X:(Rn + xxxx) <-> R'' (Some emu_move_x_long) None,
     opcode ''0000101101110RRR1WDDDDDD'' ''move Y:(Rn + xxxx) <-> R'' None None,
     opcode ''0000001aaaaaaRRR1a0WDDDD'' ''move X:(Rn + xxx) <-> R'' (Some emu_move_x_imm) None,
     opcode ''0000001aaaaaaRRR1a1WDDDD'' ''move Y:(Rn + xxx) <-> R'' (Some emu_move_y_imm) None,
     opcode ''00000101W1MMMRRR0s1ddddd'' ''movec [X or Y]:ea <-> R'' (Some emu_movec_ea) (Some match_MMMRRR),
     opcode ''00000101W0aaaaaa0s1ddddd'' ''movec [X or Y]:aa <-> R'' (Some emu_movec_aa) (Some match_MMMRRR),
     opcode ''00000100W1eeeeee101ddddd'' ''movec R1, R2'' (Some emu_movec_reg) None,
     opcode ''00000101iiiiiiii101ddddd'' ''movec #xx, D1'' (Some emu_movec_imm) None,
     opcode ''00000111W1MMMRRR10dddddd'' ''movem P:ea <-> R'' (Some emu_movem_ea) (Some match_MMMRRR),
     opcode ''00000111W0aaaaaa00dddddd'' ''movem P:ea <-> R'' (Some emu_movem_aa) (Some match_MMMRRR),
     opcode ''0000100sW1MMMRRR1Spppppp'' ''movep [X or Y]:ea <-> [X or Y]:pp'' (Some emu_movep_23) (Some match_MMMRRR),
     opcode ''00000111W1MMMRRR0Sqqqqqq'' ''movep [X or Y]:ea <-> X:qq'' (Some emu_movep_x_qq) (Some match_MMMRRR),
     opcode ''00000111W0MMMRRR1Sqqqqqq'' ''movep [X or Y]:ea <-> Y:qq'' None (Some match_MMMRRR),
     opcode ''0000100sW1MMMRRR01pppppp'' ''movep [X or Y]:pp <-> P:ea'' (Some emu_movep_1) (Some match_MMMRRR),
     opcode ''000000001WMMMRRR0sqqqqqq'' ''movep [X or Y]:qq <-> P:ea'' None (Some match_MMMRRR),
     opcode ''0000100sW1dddddd00pppppp'' ''movep [X or Y]:pp <-> R'' (Some emu_movep_0) None,
     opcode ''00000100W1dddddd1q0qqqqq'' ''movep X:qq <-> R'' None None,
     opcode ''00000100W1dddddd0q1qqqqq'' ''movep Y:qq <-> R'' None None,
     opcode ''00000001000sssss11QQdk00'' ''mpy S, #n, D'' None None,
     opcode ''00000001001001111sdkQQQQ'' ''mpy_s_u S1, S2, D'' None None,
     opcode ''000000010100000111qqdk00'' ''mpyi #xxxx, S, D'' (Some emu_mpyi) None,
     opcode ''00000001000sssss11QQdk01'' ''mpyr S, #n, D'' None None,
     opcode ''000000010100000111qqdk01'' ''mpyri #xxxx, S, D'' None None,
     opcode ''000000000000000000000000'' ''nop'' (Some emu_nop) None,
     opcode ''0000000111011RRR0001d101'' ''norm Rn, D'' (Some emu_norm) None,
     opcode ''00001100000111100010sssD'' ''normf S, D'' None None,
     opcode ''0000000101iiiiii1000d010'' ''or #xx, D'' None None,
     opcode ''00000001010000001100d010'' ''or #xxxx, D'' (Some emu_or_long) None,
     opcode ''00000000iiiiiiii111110EE'' ''ori #xx, D'' (Some emu_ori) None,
     opcode ''000000000000000000000011'' ''pflush'' None None,
     opcode ''000000000000000000000001'' ''pflushun'' None None,
     opcode ''000000000000000000000010'' ''pfree'' None None,
     opcode ''0000101111MMMRRR10000001'' ''plock ea'' None (Some match_MMMRRR),
     opcode ''000000000000000000001111'' ''plockr xxxx'' None None,
     opcode ''0000101011MMMRRR10000001'' ''punlock ea'' None (Some match_MMMRRR),
     opcode ''000000000000000000001110'' ''punlockr xxxx'' None None,
     opcode ''0000011001MMMRRR0S100000'' ''rep [X or Y]:ea'' (Some emu_rep_ea) (Some match_MMMRRR),
     opcode ''0000011000aaaaaa0S100000'' ''rep [X or Y]:aa'' (Some emu_rep_aa) None,
     opcode ''00000110iiiiiiii1010hhhh'' ''rep #xxx'' (Some emu_rep_imm) None,
     opcode ''0000011011dddddd00100000'' ''rep S'' (Some emu_rep_reg) None,
     opcode ''000000000000000010000100'' ''reset'' (Some emu_reset) None,
     opcode ''000000000000000000000100'' ''rti'' (Some emu_rti) None,
     opcode ''000000000000000000001100'' ''rts'' (Some emu_rts) None,
     opcode ''000000000000000010000111'' ''stop'' (Some emu_stop) None,
     opcode ''0000000101iiiiii1000d100'' ''sub #xx, D'' (Some emu_sub_imm) None,
     opcode ''00000001010000001100d100'' ''sub #xxxx, D'' (Some emu_sub_long) None,
     opcode ''00000010CCCC00000JJJd000'' ''tcc S1, D1'' (Some emu_tcc) None,
     opcode ''00000011CCCC0ttt0JJJdTTT'' ''tcc S1,D2 S2,D2'' (Some emu_tcc) None,
     opcode ''00000010CCCC1ttt00000TTT'' ''tcc S2, D2'' (Some emu_tcc) None,
     opcode ''000000000000000000000110'' ''trap'' None None,
     opcode ''00000000000000000001CCCC'' ''trapcc'' None None,
     opcode ''0000101S11MMMRRR110i0000'' ''vsl'' None (Some match_MMMRRR),
     opcode ''000000000000000010000110'' ''wait'' (Some emu_wait) None]"

subsection \<open>Masks and lookup\<close>

text \<open>The loop of \<open>dsp56k_reset_cpu\<close> over the characters of a template.\<close>

definition template_mask :: "string \<Rightarrow> u32" where
  "template_mask t =
     fold (\<lambda>j m. if t ! j = CHR ''0'' \<or> t ! j = CHR ''1'' then m OR shl 1 (24 - j - 1) else m) [0..<24] 0"

definition template_match :: "string \<Rightarrow> u32" where
  "template_match t =
     fold (\<lambda>j m. if t ! j = CHR ''0'' \<or> t ! j = CHR ''1''
                  then m OR shl (if t ! j = CHR ''1'' then 1 else 0) (24 - j - 1) else m) [0..<24] 0"

text \<open>\<open>nonparallel_matches[i]\<close> holds the mask and the value of entry \<open>i\<close>; here they are computed
  from the entry.\<close>

definition entry_matches :: "u32 \<Rightarrow> 'o OpcodeEntry \<Rightarrow> bool" where
  "entry_matches op' e =
     (op' AND template_mask (template e) = template_match (template e)
      \<and> (case match_func e of None \<Rightarrow> True | Some f \<Rightarrow> f op'))"

text \<open>The loop of \<open>lookup_opcode\<close>; a second match runs into the assertion. The result is \<open>None\<close>
  when it fails, and \<open>Some None\<close>, the empty entry, when there is no match.\<close>

primrec lookup_loop :: "u32 \<Rightarrow> 'o OpcodeEntry list \<Rightarrow> 'o OpcodeEntry option \<Rightarrow> 'o OpcodeEntry option option" where
  "lookup_loop op' [] r = Some r"
| "lookup_loop op' (e # es) r =
     (if entry_matches op' e then do {
        assert (case r of None \<Rightarrow> True | Some _ \<Rightarrow> False);
        lookup_loop op' es (Some e) }
      else lookup_loop op' es r)"

definition lookup_opcode :: "u32 \<Rightarrow> 'o OpcodeEntry option option" where
  "lookup_opcode op' = lookup_loop op' nonparallel_opcodes None"

end
