(* ===== verification/Dsp_Decode_Props.thy ===== *)
theory Dsp_Decode_Props
  imports Dsp_Decode
begin

text \<open>
  Correctness of the decoder: which instruction words match two templates, so that
  \<open>lookup_opcode\<close> aborts. The templates are compared as patterns of bits, by splitting the table
  on one bit at a time.
\<close>

subsection \<open>Templates as patterns of bits\<close>

datatype tri = Zero | One | Any

definition tri_of :: "char \<Rightarrow> tri" where
  "tri_of c = (if c = CHR ''0'' then Zero else if c = CHR ''1'' then One else Any)"

primrec tri_ok :: "tri \<Rightarrow> bool \<Rightarrow> bool" where
  "tri_ok Zero b = (\<not> b)" | "tri_ok One b = b" | "tri_ok Any b = True"

definition op_bits :: "u32 \<Rightarrow> bool list" where
  "op_bits w = map (\<lambda>j. bit w (23 - j)) [0..<24]"

lemma fold_or_bits:
  "bit (fold (\<lambda>j m. if P j then m OR shl (if Q j then 1 else 0) (24 - j - 1) else m) [0..<n] m0 :: u32) k \<longleftrightarrow>
     bit m0 k \<or> (\<exists>j<n. P j \<and> Q j \<and> k = 24 - j - 1 \<and> k < 32)"
proof (induction n)
  case (Suc n)
  have b: "bit (shl (if Q n then 1 else 0) (24 - n - 1) :: u32) k \<longleftrightarrow> Q n \<and> k = 24 - n - 1 \<and> k < 32"
    by (auto simp: bit_simps)
  show ?case using Suc.IH by (cases "P n") (auto simp: Ex_less_Suc bit_or_iff b bit_exp_iff)
qed simp

lemma template_bits:
  "bit (template_mask t) k \<longleftrightarrow> k < 24 \<and> tri_of (t ! (23 - k)) \<noteq> Any"
  "bit (template_match t) k \<longleftrightarrow> k < 24 \<and> tri_of (t ! (23 - k)) = One"
proof -
  have r: "(\<exists>j<24. R j \<and> k = 24 - j - 1 \<and> k < 32) \<longleftrightarrow> k < 24 \<and> R (23 - k)" for R :: "nat \<Rightarrow> bool"
    by (auto intro: exI [of _ "23 - k"])
  have "bit (template_mask t) k \<longleftrightarrow> (\<exists>j<24. (t ! j = CHR ''0'' \<or> t ! j = CHR ''1'') \<and> k = 24 - j - 1 \<and> k < 32)"
    using fold_or_bits [of "\<lambda>j. t ! j = CHR ''0'' \<or> t ! j = CHR ''1''" "\<lambda>_. True" 24 0 k]
    unfolding template_mask_def if_True by simp
  then show "bit (template_mask t) k \<longleftrightarrow> k < 24 \<and> tri_of (t ! (23 - k)) \<noteq> Any"
    unfolding r by (auto simp: tri_of_def)
  have "bit (template_match t) k \<longleftrightarrow>
      (\<exists>j<24. ((t ! j = CHR ''0'' \<or> t ! j = CHR ''1'') \<and> t ! j = CHR ''1'') \<and> k = 24 - j - 1 \<and> k < 32)"
    using fold_or_bits [of "\<lambda>j. t ! j = CHR ''0'' \<or> t ! j = CHR ''1''" "\<lambda>j. t ! j = CHR ''1''" 24 0 k]
    by (simp add: template_match_def conj_assoc)
  then show "bit (template_match t) k \<longleftrightarrow> k < 24 \<and> tri_of (t ! (23 - k)) = One"
    unfolding r by (auto simp: tri_of_def)
qed

lemma template_match_tris:
  assumes "length t = 24" and "op' AND template_mask t = template_match t"
  shows "list_all2 tri_ok (map tri_of t) (op_bits op')"
proof (rule list_all2_all_nthI)
  show "length (map tri_of t) = length (op_bits op')" using assms(1) by (simp add: op_bits_def)
  fix j assume "j < length (map tri_of t)"
  then have j: "j < 24" using assms(1) by simp
  have "bit (op' AND template_mask t) (23 - j) \<longleftrightarrow> bit (template_match t) (23 - j)" using assms(2) by simp
  then have "bit op' (23 - j) \<and> tri_of (t ! j) \<noteq> Any \<longleftrightarrow> tri_of (t ! j) = One"
    using j diff_le_self [of 23 j] by (simp add: bit_and_iff template_bits less_Suc_eq_le)
  then show "tri_ok (map tri_of t ! j) (op_bits op' ! j)"
    using j assms(1) by (cases "tri_of (t ! j)") (auto simp: op_bits_def)
qed

text \<open>The groups of patterns that no bit tells apart, found by splitting on one bit at a time.\<close>

definition tails_of :: "tri \<Rightarrow> (nat \<times> tri list) list \<Rightarrow> (nat \<times> tri list) list" where
  "tails_of c es = map (\<lambda>(i, t). (i, tl t)) (filter (\<lambda>(i, t). hd t = Any \<or> hd t = c) es)"

fun groups :: "nat \<Rightarrow> (nat \<times> tri list) list \<Rightarrow> nat list list" where
  "groups n [] = []"
| "groups n [e] = []"
| "groups 0 es = [map fst es]"
| "groups (Suc n) es =
     (if list_all (\<lambda>(i, t). hd t = Any) es then groups n (tails_of Zero es)
      else groups n (tails_of Zero es) @ groups n (tails_of One es))"

lemma tails_of_member:
  assumes "(i, c # t) \<in> set es" and "tri_ok c b"
  shows "(i, t) \<in> set (tails_of (if b then One else Zero) es)"
  using assms by (cases c; cases b) (force simp: tails_of_def)+

lemma groups_complete:
  assumes "(i, t) \<in> set es" "(j, u) \<in> set es" "i \<noteq> j"
    and "list_all2 tri_ok t w" "list_all2 tri_ok u w" and "length w = n"
  shows "\<exists>g \<in> set (groups n es). i \<in> set g \<and> j \<in> set g"
  using assms
proof (induction n es arbitrary: t u w rule: groups.induct)
  case (3 e e' es)
  then show ?case by (force simp: image_iff)
next
  case (4 n e e' es)
  let ?es = "e # e' # es"
  from "4.prems"(6) obtain b v where w: "w = b # v" "length v = n" by (cases w) auto
  from "4.prems"(4,5) w(1) obtain c t' d u' where tu: "t = c # t'" "u = d # u'"
    and ok: "tri_ok c b" "tri_ok d b" "list_all2 tri_ok t' v" "list_all2 tri_ok u' v"
    by (auto simp: list_all2_Cons2)
  have m: "(i, t') \<in> set (tails_of (if b then One else Zero) ?es)" "(j, u') \<in> set (tails_of (if b then One else Zero) ?es)"
    using tails_of_member [of i c t' ?es b] tails_of_member [of j d u' ?es b] "4.prems"(1,2) ok(1,2) by (simp_all add: tu)
  show ?case
  proof (cases "list_all (\<lambda>(i, t). hd t = Any) ?es")
    case True
    then have "hd t = Any" "hd u = Any" using "4.prems"(1,2) by (auto simp: list_all_iff)
    then have "tri_ok c False" "tri_ok d False" by (simp_all add: tu)
    then have "(i, t') \<in> set (tails_of Zero ?es)" "(j, u') \<in> set (tails_of Zero ?es)"
      using tails_of_member [of i c t' ?es False] tails_of_member [of j d u' ?es False] "4.prems"(1,2)
      by (simp_all add: tu)
    then show ?thesis using "4.IH"(1) [OF True _ _ "4.prems"(3) ok(3,4) w(2)] True by simp
  next
    case False
    show ?thesis
    proof (cases b)
      case True
      then show ?thesis using "4.IH"(3) [OF False _ _ "4.prems"(3) ok(3,4) w(2)] m False by auto
    next
      case b: False
      then show ?thesis using "4.IH"(2) [OF False _ _ "4.prems"(3) ok(3,4) w(2)] m False by auto
    qed
  qed
qed auto


subsection \<open>The table\<close>

abbreviation table_patterns :: "(nat \<times> tri list) list" where
  "table_patterns \<equiv> enumerate 0 (map (map tri_of) (map template (nonparallel_opcodes :: unit OpcodeEntry list)))"

lemma table_groups: "groups 24 table_patterns = [[94, 134], [108, 134], [103, 135], [115, 135]]"
  by (simp only: nonparallel_opcodes_def opcode_def list.map OpcodeEntry.select_convs) code_simp

text \<open>The assertion of \<open>dsp56k_reset_cpu\<close> on the templates holds.\<close>

lemma table_templates:
  "map template (nonparallel_opcodes :: 'o OpcodeEntry list) = map template (nonparallel_opcodes :: unit OpcodeEntry list)"
  "list_all (\<lambda>e. length (template e) = 24) (nonparallel_opcodes :: 'o OpcodeEntry list)"
  "length (nonparallel_opcodes :: 'o OpcodeEntry list) = 187"
  by (simp_all add: nonparallel_opcodes_def opcode_def)

lemma table_entries:
  "nonparallel_opcodes ! 94 = opcode ''0000101001MMMRRR1S00bbbb'' ''jclr #n, [X or Y]:ea, xxxx'' (Some emu_jclr_ea) (Some match_MMMRRR)"
  "nonparallel_opcodes ! 103 = opcode ''0000101101MMMRRR1S00bbbb'' ''jsclr #n, [X or Y]:ea, xxxx'' (Some emu_jsclr_ea) (Some match_MMMRRR)"
  "nonparallel_opcodes ! 108 = opcode ''0000101001MMMRRR1S10bbbb'' ''jset #n, [X or Y]:ea, xxxx'' (Some emu_jset_ea) (Some match_MMMRRR)"
  "nonparallel_opcodes ! 115 = opcode ''0000101101MMMRRR1S10bbbb'' ''jsset #n, [X or Y]:ea, xxxx'' (Some emu_jsset_ea) (Some match_MMMRRR)"
  "nonparallel_opcodes ! 134 = opcode ''0000101001110RRR1WDDDDDD'' ''move X:(Rn + xxxx) <-> R'' (Some emu_move_x_long) None"
  "nonparallel_opcodes ! 135 = opcode ''0000101101110RRR1WDDDDDD'' ''move Y:(Rn + xxxx) <-> R'' None None"
  by (simp_all add: nonparallel_opcodes_def)

lemma template_values:
  "template_mask ''0000101001MMMRRR1S00bbbb'' = 0xFFC0B0" "template_match ''0000101001MMMRRR1S00bbbb'' = 0x0A4080"
  "template_mask ''0000101101MMMRRR1S00bbbb'' = 0xFFC0B0" "template_match ''0000101101MMMRRR1S00bbbb'' = 0x0B4080"
  "template_mask ''0000101001MMMRRR1S10bbbb'' = 0xFFC0B0" "template_match ''0000101001MMMRRR1S10bbbb'' = 0x0A40A0"
  "template_mask ''0000101101MMMRRR1S10bbbb'' = 0xFFC0B0" "template_match ''0000101101MMMRRR1S10bbbb'' = 0x0B40A0"
  "template_mask ''0000101001110RRR1WDDDDDD'' = 0xFFF880" "template_match ''0000101001110RRR1WDDDDDD'' = 0x0A7080"
  "template_mask ''0000101101110RRR1WDDDDDD'' = 0xFFF880" "template_match ''0000101101110RRR1WDDDDDD'' = 0x0B7080"
  by code_simp+

subsection \<open>Ambiguous instruction words\<close>

lemma lookup_loop_None:
  "lookup_loop w es r = None \<longleftrightarrow> 2 \<le> length (filter (entry_matches w) es) + (case r of None \<Rightarrow> 0 | Some _ \<Rightarrow> 1)"
proof (induction es arbitrary: r)
  case Nil
  show ?case by (cases r) auto
next
  case (Cons e es)
  show ?case by (cases r) (auto simp: Cons.IH)
qed

lemma two_matches:
  "2 \<le> length (filter P xs) \<longleftrightarrow> (\<exists>i j. i < j \<and> j < length xs \<and> P (xs ! i) \<and> P (xs ! j))"
proof -
  have f: "length (filter P xs) = card {i. i < length xs \<and> P (xs ! i)}" by (rule length_filter_conv_card)
  show ?thesis
  proof
    assume "2 \<le> length (filter P xs)"
    then obtain T where "T \<subseteq> {i. i < length xs \<and> P (xs ! i)}" "card T = 2"
      unfolding f by (rule obtain_subset_with_card_n)
    then obtain a b where "a \<noteq> b" "a < length xs" "P (xs ! a)" "b < length xs" "P (xs ! b)" by (auto simp: card_2_iff)
    then show "\<exists>i j. i < j \<and> j < length xs \<and> P (xs ! i) \<and> P (xs ! j)" by (metis linorder_neqE_nat)
  next
    assume "\<exists>i j. i < j \<and> j < length xs \<and> P (xs ! i) \<and> P (xs ! j)"
    then obtain i j where "i < j" "j < length xs" "P (xs ! i)" "P (xs ! j)" by blast
    then have "{i, j} \<subseteq> {i. i < length xs \<and> P (xs ! i)}" and c: "card {i, j} = 2" by auto
    then show "2 \<le> length (filter P xs)" unfolding f c [symmetric] by (intro card_mono) auto
  qed
qed

lemma clash_pairs:
  assumes "i < j" "j < 187" and "entry_matches w (nonparallel_opcodes ! i :: 'o OpcodeEntry)"
    and "entry_matches w (nonparallel_opcodes ! j :: 'o OpcodeEntry)"
  shows "(i, j) \<in> {(94, 134), (108, 134), (103, 135), (115, 135)}"
proof -
  let ?T = "nonparallel_opcodes :: 'o OpcodeEntry list" and ?U = "nonparallel_opcodes :: unit OpcodeEntry list"
  have p: "(k, map tri_of (template (?T ! k))) \<in> set table_patterns" if "k < 187" for k
  proof -
    have "template (?T ! k) = map template ?U ! k"
      using that table_templates(1) [where ?'o = 'o] table_templates(3) [where ?'o = 'o] by (metis nth_map)
    then show ?thesis using that by (auto simp: in_set_enumerate_eq table_templates(3) simp del: map_map)
  qed
  have m: "list_all2 tri_ok (map tri_of (template (?T ! k))) (op_bits w)" if "k < 187" "entry_matches w (?T ! k)" for k
  proof (rule template_match_tris)
    show "length (template (?T ! k)) = 24"
      using table_templates(2) [where ?'o = 'o] that(1) table_templates(3) [where ?'o = 'o] by (simp add: list_all_length)
    show "w AND template_mask (template (?T ! k)) = template_match (template (?T ! k))"
      using that(2) by (simp add: entry_matches_def)
  qed
  have "i < 187" using assms(1,2) by simp
  moreover have "length (op_bits w) = 24" by (simp add: op_bits_def)
  ultimately have "\<exists>g \<in> set (groups 24 table_patterns). i \<in> set g \<and> j \<in> set g"
    using groups_complete [OF p p _ m m] assms by auto
  then show ?thesis using assms(1) unfolding table_groups by auto
qed

lemma and_and_const: "(w::u32) AND m = v \<Longrightarrow> w AND (m AND k) = v AND k"
  by (metis and.assoc)

lemma and_or_const: "(w::u32) AND m = v \<Longrightarrow> w AND n = u \<Longrightarrow> w AND (m OR n) = v OR u"
  by (metis bit.conj_disj_distrib)

text \<open>The words in the ambiguous class, in terms of the two overlapping templates.\<close>

lemma mmmrrr_absolute:
  assumes "w AND 0x3800 = 0x3000"
  shows "match_MMMRRR w \<longleftrightarrow> w AND 0x300 = 0"
proof -
  have "shr w 11 AND BITMASK 3 = shr (w AND 0x3800) 11"
    unfolding drop_bit_and by simp
  then have m: "shr w 11 AND BITMASK 3 = 6" unfolding assms by simp
  have r: "shr w 8 AND BITMASK 3 = 0 \<or> shr w 8 AND BITMASK 3 = 4 \<longleftrightarrow> (shr w 8 AND BITMASK 3) AND 3 = 0"
  proof -
    have "unat (shr w 8 AND BITMASK 3) < 8" unfolding unat_and_mask by simp
    then have "unat (shr w 8 AND BITMASK 3) \<in> {0, 1, 2, 3, 4, 5, 6, 7}" by auto
    then have "shr w 8 AND BITMASK 3 \<in> {0, 1, 2, 3, 4, 5, 6, 7}" by (auto simp: word_unat_eq_iff)
    then show ?thesis by auto
  qed
  have "(shr w 8 AND BITMASK 3) AND 3 = shr (w AND 0x300) 8"
    unfolding drop_bit_and by (simp add: and.assoc)
  moreover have "shr (w AND 0x300) 8 = 0 \<longleftrightarrow> w AND 0x300 = 0"
  proof
    assume z: "shr (w AND 0x300) 8 = 0"
    have k: "(0x300 :: u32) = shl (mask 2) 8" by simp
    have "bit (shr (w AND 0x300) 8) i \<longleftrightarrow> i < 2 \<and> bit w (8 + i)" for i
      unfolding k by (auto simp: bit_simps simp del: mask_u32_values dest: bit_imp_le_length)
    then have "\<not> (i < 2 \<and> bit w (8 + i))" for i unfolding z by simp
    from this [of 0] this [of 1] have "\<not> (bit w n \<and> 8 \<le> n \<and> n < 8 + 2 \<and> n < 32)" for n
      by (cases "n = 8"; cases "n = 9") auto
    then show "w AND 0x300 = 0" unfolding k and_field_zero by blast
  qed simp
  ultimately show ?thesis unfolding match_MMMRRR_def Let_def m using r by simp
qed

lemma and_single_bits: "(w::u32) AND 0x10020 \<in> {0, 0x10000, 0x20, 0x10020}"
proof -
  have b: "w AND shl 1 j = 0 \<or> w AND shl 1 j = shl 1 j" for j
    using and_exp_eq_0_iff_not_bit [of w j] by (auto intro!: bit_word_eqI simp: bit_simps)
  have "w AND 0x10020 = (w AND 0x10000) OR (w AND 0x20)" by (simp flip: bit.conj_disj_distrib)
  then show ?thesis using b [of 16] b [of 5] by auto
qed

lemma ambiguous_jump:
  assumes "entry_matches w (opcode t n f (Some match_MMMRRR))" and "entry_matches w (opcode t' n' f' None)"
    and "template_mask t = 0xFFC0B0" and "template_mask t' = 0xFFF880"
    and "template_match t AND 0xFEC090 = 0x0A4080" and "template_match t' AND 0xFEF880 = 0x0A7080"
  shows "w AND 0xFEFB90 = 0x0A7080"
proof -
  have "w AND 0xFFC0B0 = template_match t" "w AND 0xFFF880 = template_match t'" and mm: "match_MMMRRR w"
    using assms(1-4) by (simp_all add: entry_matches_def opcode_def)
  then have "w AND 0xFEC090 = 0x0A4080" and b: "w AND 0xFEF880 = 0x0A7080"
    using and_and_const [of w "0xFFC0B0" "template_match t" "0xFEC090"]
      and_and_const [of w "0xFFF880" "template_match t'" "0xFEF880"] assms(5,6) by simp_all
  then have o: "w AND 0xFEF890 = 0x0A7080" using and_or_const [of w "0xFEC090" _ "0xFEF880"] by force
  have "w AND 0x3800 = 0x3000" using and_and_const [OF b, of "0x3800"] by simp
  then have "w AND 0x300 = 0" using mm mmmrrr_absolute by blast
  then show ?thesis using and_or_const [OF o, of "0x300" 0] by simp
qed

lemma jump_ambiguous:
  assumes "w AND 0xFEFB90 = 0x0A7080" and "w AND 0x010020 = c"
    and "template_mask t = 0xFFC0B0" and "template_mask t' = 0xFFF880"
    and "template_match t = 0x0A4080 OR c" and "template_match t' = 0x0A7080 OR (c AND 0x010000)"
    and "c AND 0x010020 = c"
  shows "entry_matches w (opcode t n f (Some match_MMMRRR)) \<and> entry_matches w (opcode t' n' f' None)"
proof -
  have "w AND 0x3800 = 0x3000" "w AND 0x300 = 0"
    using and_and_const [OF assms(1), of "0x3800"] and_and_const [OF assms(1), of "0x300"] by simp_all
  then have mm: "match_MMMRRR w" using mmmrrr_absolute by blast
  have e: "w AND (0xFEFB90 OR 0x010020) = 0x0A7080 OR c" by (rule and_or_const [OF assms(1,2)])
  have "w AND 0xFFC0B0 = (0x0A7080 OR c) AND 0xFFC0B0" "w AND 0xFFF880 = (0x0A7080 OR c) AND 0xFFF880"
    using and_and_const [OF e, of "0xFFC0B0"] and_and_const [OF e, of "0xFFF880"] by simp_all
  moreover have "(0x0A7080 OR c) AND 0xFFC0B0 = 0x0A4080 OR c"
    using and_and_const [OF assms(7), of "0xFFC0B0"] assms(7) by (simp add: bit.conj_disj_distrib2)
  moreover have "(0x0A7080 OR c) AND 0xFFF880 = 0x0A7080 OR (c AND 0x010000)"
    using and_and_const [OF assms(7), of "0xFFF880"] by (simp add: bit.conj_disj_distrib2)
  ultimately show ?thesis using mm assms(3-6) by (simp add: entry_matches_def opcode_def)
qed

text \<open>C12: decoding. \<open>lookup_opcode\<close> finds at most one template for every instruction word but the
  absolute-address forms of the bit-test jumps and calls (\<open>JCLR\<close>, \<open>JSET\<close>, \<open>JSCLR\<close>, \<open>JSSET\<close>), which
  also match the template of \<open>MOVE X:(Rn + xxxx)\<close> or \<open>MOVE Y:(Rn + xxxx)\<close>: on exactly these
  words its assertion fails.\<close>

theorem lookup_opcode_ambiguous:
  "(lookup_opcode w :: 'o OpcodeEntry option option) = None \<longleftrightarrow> w AND 0xFEFB90 = 0x0A7080"
proof -
  let ?T = "nonparallel_opcodes :: 'o OpcodeEntry list"
  have n: "(lookup_opcode w :: 'o OpcodeEntry option option) = None \<longleftrightarrow>
      (\<exists>i j. i < j \<and> j < 187 \<and> entry_matches w (?T ! i) \<and> entry_matches w (?T ! j))"
    unfolding lookup_opcode_def lookup_loop_None option.case add_0_right two_matches table_templates(3) ..
  show ?thesis
  proof
    assume "(lookup_opcode w :: 'o OpcodeEntry option option) = None"
    then obtain i j where ij: "i < j" "j < 187" "entry_matches w (?T ! i)" "entry_matches w (?T ! j)"
      unfolding n by blast
    from clash_pairs [OF this] show "w AND 0xFEFB90 = 0x0A7080"
      using ij(3,4) by (elim insertE) (auto simp: table_entries template_values elim!: ambiguous_jump)
  next
    assume w: "w AND 0xFEFB90 = 0x0A7080"
    note amb = jump_ambiguous [OF w]
    have "w AND 0x010020 = 0 \<or> w AND 0x010020 = 0x10000 \<or> w AND 0x010020 = 0x20 \<or> w AND 0x010020 = 0x10020"
      using and_single_bits [of w] by simp
    then consider "w AND 0x010020 = 0" | "w AND 0x010020 = 0x10000" | "w AND 0x010020 = 0x20" | "w AND 0x010020 = 0x10020"
      by blast
    then have "\<exists>i j. i < j \<and> j < 187 \<and> entry_matches w (?T ! i) \<and> entry_matches w (?T ! j)"
    proof cases
      case 1
      then have "entry_matches w (?T ! 94) \<and> entry_matches w (?T ! 134)"
        unfolding table_entries by (rule amb) (simp_all add: template_values)
      then show ?thesis by (intro exI [of _ 94] exI [of _ 134]) simp
    next
      case 2
      then have "entry_matches w (?T ! 103) \<and> entry_matches w (?T ! 135)"
        unfolding table_entries by (rule amb) (simp_all add: template_values)
      then show ?thesis by (intro exI [of _ 103] exI [of _ 135]) simp
    next
      case 3
      then have "entry_matches w (?T ! 108) \<and> entry_matches w (?T ! 134)"
        unfolding table_entries by (rule amb) (simp_all add: template_values)
      then show ?thesis by (intro exI [of _ 108] exI [of _ 134]) simp
    next
      case 4
      then have "entry_matches w (?T ! 115) \<and> entry_matches w (?T ! 135)"
        unfolding table_entries by (rule amb) (simp_all add: template_values)
      then show ?thesis by (intro exI [of _ 115] exI [of _ 135]) simp
    qed
    then show "(lookup_opcode w :: 'o OpcodeEntry option option) = None" unfolding n .
  qed
qed
end
