(* ===== verification/Dsp_Exec.thy ===== *)
theory Dsp_Exec
  imports Dsp_Decode
begin

text \<open>
  The instruction cycle of \<open>dsp_cpu.c\<close> (\<open>dsp56k_execute_instruction\<close>, \<open>dsp_postexecute_update_pc\<close>,
  \<open>dsp_postexecute_interrupts\<close>) and the operations of \<open>dsp.c\<close> that run the processor.

  \<open>TRACE_DSP_DISASM\<close> and \<open>DSP_COUNT_IPS\<close> are off. \<open>dsp_run\<close> is a loop whose end depends on the
  program: it is a \<open>partial_function\<close>, and a call that aborts has no result.
\<close>

subsection \<open>Program counter\<close>

definition rep_update :: "'o DSPState \<Rightarrow> 'o DSPState" where
  "rep_update s =
     (if loop_rep s \<noteq> 0 then
        if pc_on_rep s = 0 then
          let s = set_reg DSP_REG_LC ((reg DSP_REG_LC s - 1) AND BITMASK 16) s
          in if reg DSP_REG_LC s > 0 then s\<lparr>cur_inst_len := 0\<rparr>
             else set_reg DSP_REG_LC (reg DSP_REG_LCSAVE s) (s\<lparr>loop_rep := 0\<rparr>)
        else
          (if reg DSP_REG_LC s = 0 then set_reg DSP_REG_LC 0x010000 s else s)\<lparr>pc_on_rep := 0\<rparr>
      else s)"

definition loop_update :: "'o DSPState \<Rightarrow> 'o DSPState option" where
  "loop_update s =
     (if reg DSP_REG_SR s AND shl 1 DSP_SR_LF \<noteq> 0 \<and> pc s = reg DSP_REG_LA s + 1 then
        let s = set_reg DSP_REG_LC ((reg DSP_REG_LC s - 1) AND BITMASK 16) s
        in if reg DSP_REG_LC s = 0 then loop_end s else Some (s\<lparr>pc := reg DSP_REG_SSH s\<rparr>)
      else Some s)"

definition dsp_postexecute_update_pc :: "'o DSPState \<Rightarrow> 'o DSPState option" where
  "dsp_postexecute_update_pc s =
     (let s = rep_update s in loop_update (s\<lparr>pc := pc s + cur_inst_len s\<rparr>))"

subsection \<open>Interrupts\<close>

definition dsp_interrupt_vector :: "u32 \<Rightarrow> u16" where
  "dsp_interrupt_vector i =
     [0x00, 0x3e, 0x02, 0x04, 0x06, 0xff, 0x20, 0x22, 0x0e, 0x0c, 0x12, 0x10] ! unat i"

text \<open>A call as the first or second instruction of the vector makes the interrupt a long one.\<close>

definition is_call :: "u32 \<Rightarrow> bool" where
  "is_call instr \<longleftrightarrow> instr AND 0xfff000 = 0x0d0000 \<or> instr AND 0xffc0ff = 0x0bc080"

definition long_interrupt :: "'o DSPState \<Rightarrow> 'o DSPState option" where
  "long_interrupt s = do {
     let s = s\<lparr>interrupt_state := DSP_INTERRUPT_LONG\<rparr>;
     s \<leftarrow> dsp_stack_push s (ucast (interrupt_save_pc s)) (reg DSP_REG_SR s) 0;
     let s = sr_clear (shl 1 DSP_SR_LF OR shl 1 DSP_SR_T OR shl 1 DSP_SR_S1 OR shl 1 DSP_SR_S0
                       OR shl 1 DSP_SR_I0 OR shl 1 DSP_SR_I1) s;
     Some (sr_set (shl (ucast (interrupt_ipl_to_raise s)) DSP_SR_I0) s) }"

definition pipeline_dec :: "'o DSPState \<Rightarrow> 'o DSPState" where
  "pipeline_dec s = s\<lparr>interrupt_pipeline_count := interrupt_pipeline_count s - 1\<rparr>"

text \<open>The arbitration loop, from index \<open>i\<close> on with the best candidate so far. Level 3 wins at
  once.\<close>

fun arbitrate :: "'o DSPState \<Rightarrow> int \<Rightarrow> nat \<Rightarrow> nat \<Rightarrow> u32 \<Rightarrow> int \<Rightarrow> u32" where
  "arbitrate s ipl_sr 0 i index ipl_to_raise = index"
| "arbitrate s ipl_sr (Suc k) i index ipl_to_raise =
     (let ipl = interrupt_ipl s (of_nat i)
      in if interrupt_is_pending s (of_nat i) = 1 then
           if ipl = 3 then of_nat i
           else if ipl < ipl_sr then arbitrate s ipl_sr k (Suc i) index ipl_to_raise
           else if ipl \<le> ipl_to_raise then arbitrate s ipl_sr k (Suc i) index ipl_to_raise
           else arbitrate s ipl_sr k (Suc i) (of_nat i) ipl
         else arbitrate s ipl_sr k (Suc i) index ipl_to_raise)"

definition raise_interrupt :: "'o DSPState \<Rightarrow> u32 \<Rightarrow> 'o DSPState option" where
  "raise_interrupt s index = do {
     let s = s\<lparr>interrupt_is_pending := (interrupt_is_pending s)(index := 0),
              interrupt_counter := interrupt_counter s - 1\<rparr>;
     let ipl_to_raise = interrupt_ipl s index + 1;
     let ipl_to_raise = (if ipl_to_raise > 3 then 3 else ipl_to_raise);
     let s = s\<lparr>interrupt_instr_fetch := dsp_interrupt_vector index,
              interrupt_pipeline_count := 5,
              interrupt_state := DSP_INTERRUPT_DISABLED,
              interrupt_ipl_to_raise := word_of_int ipl_to_raise\<rparr>;
     assert (interrupt_instr_fetch s \<noteq> 0xe);
     assert (interrupt_instr_fetch s \<noteq> 0x12);
     assert (interrupt_instr_fetch s \<noteq> 0xff);
     Some s }"

definition search_interrupt :: "'o DSPState \<Rightarrow> 'o DSPState option" where
  "search_interrupt s = do {
     let s = (if reg DSP_REG_SR s AND shl 1 DSP_SR_T \<noteq> 0 then dsp56k_add_interrupt s DSP_INTER_TRACE else s);
     if interrupt_counter s = 0 then Some s
     else do {
       let ipl_sr = uint (shr (reg DSP_REG_SR s) DSP_SR_I0 AND BITMASK 2);
       let index = arbitrate s ipl_sr 12 0 0xffff (-1);
       if index = 0xffff then Some s else raise_interrupt s index } }"

definition prefetch_1 :: "'o DSPState \<Rightarrow> 'o DSPState option" where
  "prefetch_1 s = do {
     let s = s\<lparr>interrupt_save_pc := ucast (pc s), pc := ucast (interrupt_instr_fetch s)\<rparr>;
     instr \<leftarrow> read_memory_p s (ucast (interrupt_instr_fetch s));
     s \<leftarrow> (if is_call instr then long_interrupt s else Some s);
     Some (pipeline_dec s) }"

definition prefetch_2 :: "'o DSPState \<Rightarrow> 'o DSPState option" where
  "prefetch_2 s = do {
     s \<leftarrow> (if pc s = ucast (interrupt_instr_fetch s) + 1 then do {
              instr \<leftarrow> read_memory_p s (pc s);
              if is_call instr then long_interrupt s else Some s }
           else Some s);
     Some (pipeline_dec s) }"

definition dsp_postexecute_interrupts :: "'o DSPState \<Rightarrow> 'o DSPState option" where
  "dsp_postexecute_interrupts s =
     (if loop_rep s \<noteq> 0 then Some s
      else if interrupt_state s = DSP_INTERRUPT_DISABLED then
        if interrupt_pipeline_count s = 5 then Some (pipeline_dec s)
        else if interrupt_pipeline_count s = 4 then prefetch_1 s
        else if interrupt_pipeline_count s = 3 then prefetch_2 s
        else if interrupt_pipeline_count s = 2 then
          Some (pipeline_dec (if pc s = ucast (interrupt_instr_fetch s) + 2
                              then s\<lparr>pc := ucast (interrupt_save_pc s)\<rparr> else s))
        else if interrupt_pipeline_count s = 1 then Some (pipeline_dec s)
        else if interrupt_pipeline_count s = 0 then
          search_interrupt (s\<lparr>interrupt_save_pc := -1, interrupt_instr_fetch := -1,
                             interrupt_state := DSP_INTERRUPT_NONE\<rparr>)
        else search_interrupt s
      else search_interrupt s)"

subsection \<open>The instruction cycle\<close>

definition exec_nonparallel :: "'o DSPState \<Rightarrow> 'o DSPState option" where
  "exec_nonparallel s = do {
     e \<leftarrow> lookup_opcode (cur_inst s);
     case e of
       None \<Rightarrow> emu_undefined s
     | Some e \<Rightarrow> (case emu_func e of Some f \<Rightarrow> f s | None \<Rightarrow> emu_undefined s) }"

definition exec_decoded :: "'o DSPState \<Rightarrow> 'o DSPState option" where
  "exec_decoded s = (if cur_inst s < 0x100000 then exec_nonparallel s else exec_parmove s)"

definition dsp56k_execute_instruction :: "'o DSPState \<Rightarrow> 'o DSPState option" where
  "dsp56k_execute_instruction s = do {
     inst \<leftarrow> read_memory_p s (pc s);
     s \<leftarrow> exec_decoded (s\<lparr>cur_inst := inst, cur_inst_len := 1, instr_cycle := 2\<rparr>);
     s \<leftarrow> dsp_postexecute_update_pc s;
     dsp_postexecute_interrupts s }"

subsection \<open>Running the processor\<close>

definition dsp_step :: "'o DSPState \<Rightarrow> 'o DSPState option" where
  "dsp_step s = dsp56k_execute_instruction s"

partial_function (option) dsp_run_loop :: "'o DSPState \<Rightarrow> 'o DSPState option" where
  "dsp_run_loop s =
     (if save_cycles s > 0 then do {
        s \<leftarrow> dsp56k_execute_instruction s;
        dsp_run_loop (s\<lparr>save_cycles := save_cycles s - uint (instr_cycle s)\<rparr>) }
      else Some s)"

definition dsp_run :: "'o DSPState \<Rightarrow> int \<Rightarrow> 'o DSPState option" where
  "dsp_run s cycles =
     (let s = s\<lparr>save_cycles := save_cycles s + cycles\<rparr>
      in if save_cycles s \<le> 0 then Some s else dsp_run_loop s)"

text \<open>\<open>dsp_bootstrap\<close> hands the program memory itself to the accessor as its buffer: 0x800 words of
  four bytes, least significant byte first.\<close>

definition pram_bytes :: "'o DSPState \<Rightarrow> u8 list" where
  "pram_bytes s = concat (map (\<lambda>i. item_bytes 4 (pram s (of_nat i))) [0..<0x800])"

definition dsp_bootstrap :: "'o DSPState \<Rightarrow> 'o DSPState option" where
  "dsp_bootstrap s = do {
     let d = dma s;
     (op', buf) \<leftarrow> scratch_rw d (rw_opaque d) (pram_bytes s) 0 (0x800 * 4) False;
     ws \<leftarrow> item_words 4 buf 0x800;
     Some (s\<lparr>dma := d\<lparr>rw_opaque := op'\<rparr>,
             pram := (\<lambda>a. if unat a < 0x800 then ws ! unat a else pram s a)\<rparr>) }"

definition dsp_start_frame :: "'o DSPState \<Rightarrow> 'o DSPState" where
  "dsp_start_frame s = s\<lparr>interrupts := interrupts s OR INTERRUPT_START_FRAME\<rparr>"

definition space_id :: "char \<Rightarrow> u32 option" where
  "space_id c = (if c = CHR ''X'' then Some DSP_SPACE_X else if c = CHR ''Y'' then Some DSP_SPACE_Y
     else if c = CHR ''P'' then Some DSP_SPACE_P else None)"

definition dsp_read_memory :: "'o DSPState \<Rightarrow> char \<Rightarrow> u32 \<Rightarrow> u32 option" where
  "dsp_read_memory s space address = do { i \<leftarrow> space_id space; dsp56k_read_memory s i address }"

definition dsp_write_memory :: "'o DSPState \<Rightarrow> char \<Rightarrow> u32 \<Rightarrow> u32 \<Rightarrow> 'o DSPState option" where
  "dsp_write_memory s space address value = do { i \<leftarrow> space_id space; dsp56k_write_memory s i address value }"

end
