(* ===== verification/Dsp_Inv.thy ===== *)
theory Dsp_Inv
  imports Dsp_Alu_Correct Dsp_Exec
begin

text \<open>
  The width invariant of the whole processor, and the calculus that shows that instructions keep it.

  \<open>ensures m Q\<close> says that if the option-valued program \<open>m\<close> returns, its result satisfies \<open>Q\<close>; the rules
  \<open>wp_intros\<close> take a program apart. \<open>dsp_wf\<close> is the invariant: every register, stack entry and word of
  RAM fits the width of the hardware. This theory shows it for the primitive operations: the data
  ALU, the stack, register writes, memory including the DMA engine that a peripheral write starts,
  and address generation.
\<close>

named_theorems wp_intros \<open>verification conditions of option-valued programs\<close>
named_theorems reg_index \<open>widths of registers selected by an instruction field\<close>

definition ensures :: "'a option \<Rightarrow> ('a \<Rightarrow> bool) \<Rightarrow> bool" where
  "ensures m Q \<longleftrightarrow> (\<forall>x. m = Some x \<longrightarrow> Q x)"

lemma ensuresD: "ensures m Q \<Longrightarrow> m = Some x \<Longrightarrow> Q x"
  by (simp add: ensures_def)

lemma ensures_Some [wp_intros]: "Q x \<Longrightarrow> ensures (Some x) Q"
  by (simp add: ensures_def)

lemma ensures_None [wp_intros]: "ensures None Q"
  by (simp add: ensures_def)

lemma ensures_bind [wp_intros]: "ensures m (\<lambda>x. ensures (f x) Q) \<Longrightarrow> ensures (m \<bind> f) Q"
  by (auto simp: ensures_def bind_Some_iff)

lemma ensures_assert [wp_intros]: "(b \<Longrightarrow> Q ()) \<Longrightarrow> ensures (assert b) Q"
  by (auto simp: ensures_def)

lemma ensures_if [wp_intros]:
  "(b \<Longrightarrow> ensures m Q) \<Longrightarrow> (\<not> b \<Longrightarrow> ensures n Q) \<Longrightarrow> ensures (if b then m else n) Q"
  by simp

lemma ensures_case_prod [wp_intros]:
  "(\<And>a b. p = (a, b) \<Longrightarrow> ensures (f a b) Q) \<Longrightarrow> ensures (case p of (a, b) \<Rightarrow> f a b) Q"
  by (cases p) simp

lemma ensures_case_option [wp_intros]:
  "(p = None \<Longrightarrow> ensures m Q) \<Longrightarrow> (\<And>a. p = Some a \<Longrightarrow> ensures (f a) Q) \<Longrightarrow>
   ensures (case p of None \<Rightarrow> m | Some a \<Rightarrow> f a) Q"
  by (cases p) simp_all

lemma ensures_weaken: "ensures m P \<Longrightarrow> (\<And>x. P x \<Longrightarrow> Q x) \<Longrightarrow> ensures m Q"
  by (simp add: ensures_def)

subsection \<open>The invariant\<close>

definition dma_wf :: "'o DSPDMAState \<Rightarrow> bool" where
  "dma_wf d \<longleftrightarrow> fits 24 (configuration d) \<and> fits 24 (control d) \<and> fits 24 (start_block d) \<and> fits 24 (next_block d)"

definition ram_wf :: "'a dsp_core_scheme \<Rightarrow> bool" where
  "ram_wf s \<longleftrightarrow> (\<forall>a. fits 24 (xram s a) \<and> fits 24 (yram s a) \<and> fits 24 (mixbuffer s a))"

definition irq_wf :: "'a dsp_core_scheme \<Rightarrow> bool" where
  "irq_wf s \<longleftrightarrow> (\<forall>i. - 1 \<le> interrupt_ipl s i) \<and> interrupt_ipl_to_raise s \<le> 3"

definition dsp_wf :: "'o DSPState \<Rightarrow> bool" where
  "dsp_wf s \<longleftrightarrow> regs_wf s \<and> (\<forall>p k. fits 16 (stack s p k)) \<and> ram_wf s \<and> irq_wf s
     \<and> fits 24 (interrupts s) \<and> dma_wf (dma s)"

lemma dsp_wf_init: "dsp_wf (dsp_init q f g)"
  by (auto simp: dsp_wf_def dsp_init_defs regs_wf_def reg_def reg_bits_def ram_wf_def irq_wf_def dma_wf_def
      fits_numeral_iff)

text \<open>The fields that the invariant does not mention.\<close>

lemma dsp_wf_frame [simp]:
  "dsp_wf (s\<lparr>cur_inst := w\<rparr>) = dsp_wf s"
  "dsp_wf (s\<lparr>cur_inst_len := w\<rparr>) = dsp_wf s"
  "dsp_wf (s\<lparr>instr_cycle := h\<rparr>) = dsp_wf s"
  "dsp_wf (s\<lparr>pc := w\<rparr>) = dsp_wf s"
  "dsp_wf (s\<lparr>loop_rep := w\<rparr>) = dsp_wf s"
  "dsp_wf (s\<lparr>pc_on_rep := w\<rparr>) = dsp_wf s"
  "dsp_wf (s\<lparr>interrupt_state := h\<rparr>) = dsp_wf s"
  "dsp_wf (s\<lparr>interrupt_instr_fetch := h\<rparr>) = dsp_wf s"
  "dsp_wf (s\<lparr>interrupt_save_pc := h\<rparr>) = dsp_wf s"
  "dsp_wf (s\<lparr>interrupt_counter := h\<rparr>) = dsp_wf s"
  "dsp_wf (s\<lparr>interrupt_pipeline_count := h\<rparr>) = dsp_wf s"
  "dsp_wf (s\<lparr>interrupt_is_pending := q\<rparr>) = dsp_wf s"
  "dsp_wf (s\<lparr>save_cycles := i\<rparr>) = dsp_wf s"
  "dsp_wf (s\<lparr>pram := m\<rparr>) = dsp_wf s"
  by (simp_all add: dsp_wf_def ram_wf_def irq_wf_def regs_wf_def)

lemma dsp_wf_regs: "dsp_wf s \<Longrightarrow> regs_wf s"
  by (simp add: dsp_wf_def)

lemma dsp_wf_reg: "dsp_wf s \<Longrightarrow> fits 24 (reg r s)"
  by (simp add: dsp_wf_regs regs_wf_24)

lemma dsp_wf_stack: "dsp_wf s \<Longrightarrow> fits 16 (stack s p k)"
  by (simp add: dsp_wf_def)

lemma dsp_wf_set_reg [wp_intros]: "dsp_wf s \<Longrightarrow> fits (reg_bits r) v \<Longrightarrow> dsp_wf (set_reg r v s)"
  by (simp add: dsp_wf_def ram_wf_def irq_wf_def regs_wf_set_reg)

lemma dsp_wf_set_stack [wp_intros]: "dsp_wf s \<Longrightarrow> fits 16 v \<Longrightarrow> dsp_wf (set_stack p k v s)"
  by (auto simp: dsp_wf_def ram_wf_def irq_wf_def regs_wf_def set_stack_def reg_def)

lemma dsp_wf_add_interrupt [wp_intros]: "dsp_wf s \<Longrightarrow> dsp_wf (dsp56k_add_interrupt s i)"
  by (simp add: dsp56k_add_interrupt_def)

lemma dsp_wf_if [wp_intros]: "(b \<Longrightarrow> dsp_wf s) \<Longrightarrow> (\<not> b \<Longrightarrow> dsp_wf t) \<Longrightarrow> dsp_wf (if b then s else t)"
  by simp

text \<open>The fields that no instruction but a branch, a repeat or an interrupt changes: an operation that
  is \<open>steady\<close> keeps the instruction word, the cycle counters and the debugging switches.\<close>

definition steady :: "'o DSPState \<Rightarrow> 'o DSPState \<Rightarrow> bool" where
  "steady s t \<longleftrightarrow> cur_inst t = cur_inst s \<and> instr_cycle t = instr_cycle s \<and> save_cycles t = save_cycles s
     \<and> executing_for_disasm t = executing_for_disasm s \<and> exception_debugging t = exception_debugging s"

lemma steady_refl [simp]: "steady s s"
  by (simp add: steady_def)

lemma steady_trans: "steady s t \<Longrightarrow> steady t u \<Longrightarrow> steady s u"
  by (simp add: steady_def)

lemma steady_set_reg [simp]: "steady s (set_reg r v t) = steady s t"
  by (simp add: steady_def)

lemma steady_set_stack [simp]: "steady s (set_stack p k v t) = steady s t"
  by (simp add: steady_def set_stack_def)

lemma steady_add_interrupt [simp]: "steady s (dsp56k_add_interrupt t i) = steady s t"
  by (simp add: steady_def dsp56k_add_interrupt_def)

subsection \<open>The register file\<close>

text \<open>An operation on the register file alone keeps the invariant when it keeps the widths.\<close>

definition only_regs :: "'a dsp_core_scheme \<Rightarrow> 'a dsp_core_scheme \<Rightarrow> bool" where
  "only_regs s t \<longleftrightarrow> (\<exists>r. t = s\<lparr>registers := r\<rparr>)"

lemma only_regs_wf: "only_regs s t \<Longrightarrow> dsp_wf s \<Longrightarrow> regs_wf t \<Longrightarrow> dsp_wf t"
  by (auto simp: only_regs_def dsp_wf_def ram_wf_def irq_wf_def)

lemma only_regs_steady: "only_regs s t \<Longrightarrow> steady s t"
  by (auto simp: only_regs_def steady_def)

lemma only_regs_refl [simp]: "only_regs s s"
  unfolding only_regs_def by (rule exI [of _ "registers s"]) simp

lemma only_regs_set_reg [simp]: "only_regs s t \<Longrightarrow> only_regs s (set_reg r v t)"
  by (auto simp: only_regs_def set_reg_def)

lemma only_regs_ops [simp]:
  assumes "only_regs s t"
  shows "only_regs s (sr_set m t)" "only_regs s (sr_clear m t)" "only_regs s (ccr3 d t)" "only_regs s (store56 a d t)"
    "only_regs s (flags_vc d n t)" "only_regs s (logic_flags a t)"
  using assms by (simp_all add: sr_set_def sr_clear_def ccr3_def emu_ccr_update_e_u_n_z_def store56_def flags_vc_def
      logic_flags_def case_prod_unfold)

lemma only_regs_if [simp]: "only_regs s t \<Longrightarrow> only_regs s u \<Longrightarrow> only_regs s (if b then t else u)"
  by simp

lemma alu_families_only_regs [simp]:
  "only_regs s (alu_add a src s)" "only_regs s (alu_sub a src s)" "only_regs s (alu_adc a src s)"
  "only_regs s (alu_sbc a src s)" "only_regs s (alu_cmp a src s)" "only_regs s (alu_cmpm a src s)" "only_regs s (alu_tfr a src s)"
  "only_regs s (alu_addl a b s)" "only_regs s (alu_addr a b s)" "only_regs s (alu_subl a b s)" "only_regs s (alu_subr a b s)"
  "only_regs s (alu_asl a s)" "only_regs s (alu_asr a s)" "only_regs s (alu_abs a s)" "only_regs s (alu_neg a s)"
  "only_regs s (alu_rnd a s)" "only_regs s (alu_clr a s)" "only_regs s (alu_tst a s)"
  "only_regs s (alu_mac q r signe a s)" "only_regs s (alu_macr q r signe a s)" "only_regs s (alu_mpy q r signe a s)"
  "only_regs s (alu_mpyr q r signe a s)"
  "only_regs s (alu_and a r s)" "only_regs s (alu_or a r s)" "only_regs s (alu_eor a r s)" "only_regs s (alu_not a s)"
  "only_regs s (alu_lsl a s)" "only_regs s (alu_lsr a s)" "only_regs s (alu_rol a s)" "only_regs s (alu_ror a s)"
  "only_regs s (emu_max s)"
  unfolding alu_add_def alu_sub_def alu_adc_def alu_sbc_def alu_cmp_def alu_cmpm_def alu_tfr_def
    alu_addl_def alu_addr_def alu_subl_def alu_subr_def alu_asl_def alu_asr_def alu_abs_def alu_neg_def
    alu_rnd_def alu_clr_def alu_tst_def alu_mac_def alu_macr_def alu_mpy_def alu_mpyr_def
    alu_and_def alu_or_def alu_eor_def alu_not_def alu_lsl_def alu_lsr_def alu_rol_def alu_ror_def emu_max_def Let_def
    case_prod_unfold
  by simp_all

definition alu_frame :: "('a dsp_core_scheme \<Rightarrow> 'a dsp_core_scheme option) \<Rightarrow> bool" where
  "alu_frame f \<longleftrightarrow> f = emu_undefined \<or> (\<forall>s t. f s = Some t \<longrightarrow> only_regs s t)"

lemma alu_frame_cases:
  "alu_frame emu_undefined" "alu_frame (Some \<circ> f) \<longleftrightarrow> Some \<circ> f = emu_undefined \<or> (\<forall>s. only_regs s (f s))"
  by (simp_all add: alu_frame_def)

lemma alu_table_frame: "list_all alu_frame opcodes_alu"
  unfolding opcodes_alu_def by (simp add: alu_frame_cases alu_ops)

lemma exec_alu_frame: "exec_alu s = Some t \<Longrightarrow> only_regs s t \<or> emu_undefined s = Some t"
proof -
  assume t: "exec_alu s = Some t"
  have "unat (cur_inst s AND BITMASK 8) < 256" by (simp add: unat_and_numeral_masks)
  then have "alu_frame (opcodes_alu ! unat (cur_inst s AND BITMASK 8) :: 'a dsp_core_scheme \<Rightarrow> 'a dsp_core_scheme option)"
    using alu_table_frame [where ?'a = 'a] by (simp add: list_all_length length_opcodes_alu)
  then show ?thesis using t unfolding exec_alu_def alu_frame_def by auto
qed

subsection \<open>Stack and register writes\<close>

named_theorems width_intros \<open>widths of the values that instructions write\<close>

lemma fits_stack_parts [width_intros]: "fits 6 ((v::u32) AND BITMASK 6)" "fits 16 ((v::u32) AND BITMASK 16)"
  by (simp_all add: fits_and_mask)

lemma stack_push_keeps:
  "dsp_wf s \<Longrightarrow> ensures (dsp_stack_push s p r k) dsp_wf"
  "ensures (dsp_stack_push s p r k) (steady s)"
  unfolding dsp_stack_push_def stack_fault_def Let_def
  by (auto intro!: wp_intros width_intros dsp_wf_stack simp del: mask_u32_values)

lemma stack_pop_keeps:
  "dsp_wf s \<Longrightarrow> ensures (dsp_stack_pop s) (\<lambda>(p, r, t). dsp_wf t \<and> fits 16 p \<and> fits 16 r)"
  "ensures (dsp_stack_pop s) (\<lambda>(p, r, t). steady s t)"
proof -
  assume w: "dsp_wf s"
  have "fits 16 (reg DSP_REG_SSH s)" "fits 16 (reg DSP_REG_SSL s)"
    using regs_wfD [OF dsp_wf_regs [OF w], of DSP_REG_SSH] regs_wfD [OF dsp_wf_regs [OF w], of DSP_REG_SSL] by simp_all
  then show "ensures (dsp_stack_pop s) (\<lambda>(p, r, t). dsp_wf t \<and> fits 16 p \<and> fits 16 r)"
    unfolding dsp_stack_pop_def stack_fault_def Let_def
    by (auto intro!: wp_intros width_intros dsp_wf_stack w simp del: mask_u32_values)
next
  show "ensures (dsp_stack_pop s) (\<lambda>(p, r, t). steady s t)"
    unfolding dsp_stack_pop_def stack_fault_def Let_def by (auto intro!: wp_intros)
qed

lemma registers_mask_le: "registers_mask r \<le> reg_bits r"
  by (auto simp: registers_mask_def reg_bits_def word_less_nat_alt word_le_nat_alt word_unat_eq_iff)

lemma fits_registers_mask [width_intros]: "fits (reg_bits r) (v AND BITMASK (registers_mask r))"
proof -
  have "fits (registers_mask r) (v AND BITMASK (registers_mask r))"
    by (auto simp: fits_iff_bit bit_simps)
  then show ?thesis by (rule fits_mono [OF _ registers_mask_le])
qed

lemma fits_sr_write [width_intros]: "fits 8 (v AND 0xc7)" "fits 16 (v AND 0xaf7f)" "fits 6 (v AND 48)" "fits 8 0xff"
  by (rule fits_and2; simp add: fits_numeral_iff)+ (simp add: fits_numeral_iff)

lemma write_reg_keeps:
  "dsp_wf s \<Longrightarrow> (n \<in> {DSP_REG_A, DSP_REG_B} \<Longrightarrow> fits 24 v) \<Longrightarrow> ensures (dsp_write_reg s n v) dsp_wf"
  "ensures (dsp_write_reg s n v) (steady s)"
  unfolding dsp_write_reg_def dsp_compute_ssh_ssl_def Let_def
  by (auto intro!: wp_intros width_intros dsp_wf_stack ensures_weaken [OF stack_push_keeps(1)] stack_push_keeps(2)
      simp del: mask_u32_values)

subsection \<open>Memory\<close>

lemma read_memory_p_fits: "ensures (read_memory_p s a) (fits 24)"
  unfolding read_memory_p_def Let_def by (auto intro!: wp_intros simp: high_byte_zero)

lemma read_memory_fits: "dsp_wf s \<Longrightarrow> ensures (dsp56k_read_memory s sp a) (fits 24)"
  unfolding dsp56k_read_memory_cb_def read_peripheral_def dsp_dma_read_def
  by (auto intro!: wp_intros read_memory_p_fits fits_or
      simp: dsp_wf_def ram_wf_def dma_wf_def fits_numeral_iff split: if_splits)

lemma dsp_wf_set_mem:
  assumes "dsp_wf s" "fits 24 v"
  shows "dsp_wf (s\<lparr>xram := (xram s)(a := v)\<rparr>)" "dsp_wf (s\<lparr>yram := (yram s)(a := v)\<rparr>)"
    "dsp_wf (s\<lparr>mixbuffer := (mixbuffer s)(a := v)\<rparr>)"
  using assms by (simp_all add: dsp_wf_def ram_wf_def irq_wf_def regs_wf_def)

lemma dsp_wf_dma: "dsp_wf s \<Longrightarrow> dma_wf (dma s)"
  by (simp add: dsp_wf_def)

lemma dsp_wf_set_dma: "dsp_wf s \<Longrightarrow> dma_wf d \<Longrightarrow> dsp_wf (s\<lparr>dma := d\<rparr>)"
  by (simp add: dsp_wf_def ram_wf_def irq_wf_def regs_wf_def)

lemma steady_set_fields [simp]:
  "steady s (t\<lparr>xram := m\<rparr>) = steady s t" "steady s (t\<lparr>yram := m\<rparr>) = steady s t"
  "steady s (t\<lparr>pram := m\<rparr>) = steady s t" "steady s (t\<lparr>mixbuffer := m\<rparr>) = steady s t"
  "steady s (t\<lparr>dma := d\<rparr>) = steady s t" "steady s (t\<lparr>interrupts := i\<rparr>) = steady s t"
  "steady s (t\<lparr>cur_inst_len := n\<rparr>) = steady s t" "steady s (t\<lparr>pc := n\<rparr>) = steady s t"
  by (simp_all add: steady_def)

text \<open>A write keeps the invariant when the peripheral callback does.\<close>

lemma write_memory_cb_keeps:
  "dsp_wf s \<Longrightarrow> (\<And>a. fits 24 v \<Longrightarrow> ensures (wp s a v) dsp_wf) \<Longrightarrow> ensures (dsp56k_write_memory_cb wp s sp a v) dsp_wf"
  "(\<And>a. ensures (wp s a v) (steady s)) \<Longrightarrow> ensures (dsp56k_write_memory_cb wp s sp a v) (steady s)"
  unfolding dsp56k_write_memory_cb_def write_memory_raw_cb_def
  by (auto intro!: wp_intros dsp_wf_set_mem simp: high_byte_zero)

lemma ensures_conj: "ensures m P \<Longrightarrow> ensures m Q \<Longrightarrow> ensures m (\<lambda>x. P x \<and> Q x)"
  by (simp add: ensures_def)

lemma write_words_keeps:
  "dsp_wf s \<Longrightarrow> ensures (write_words (\<lambda>t. dsp56k_write_memory_cb (\<lambda>_ _ _. None) t sp) s a vs) dsp_wf"
  "ensures (write_words (\<lambda>t. dsp56k_write_memory_cb (\<lambda>_ _ _. None) t sp) s a vs) (steady s)"
proof (induction vs arbitrary: s a)
  case (Cons v vs)
  {
    case 1
    show ?case unfolding write_words.simps
      by (intro wp_intros ensures_weaken [OF write_memory_cb_keeps(1)] Cons.IH 1)
  next
    case 2
    show ?case unfolding write_words.simps
      by (intro wp_intros ensures_weaken [OF write_memory_cb_keeps(2)])
        (blast intro: ensures_weaken [OF Cons.IH(2)] steady_trans)
  }
qed (simp_all add: ensures_Some)

lemma dma_fetch_keeps: "dsp_wf s \<Longrightarrow> ensures (dma_fetch s a) (\<lambda>n. fits 24 (node_next n))"
  unfolding dma_fetch_def
  by (intro wp_intros ensures_weaken [OF read_memory_fits]) simp_all

lemma ensuresI: "(\<And>x. m = Some x \<Longrightarrow> Q x) \<Longrightarrow> ensures m Q"
  by (simp add: ensures_def)

lemma dsp_wf_set_opaque: "dsp_wf s \<Longrightarrow> dsp_wf (s\<lparr>dma := (dma s)\<lparr>rw_opaque := q\<rparr>\<rparr>)"
  using dsp_wf_dma [of s] by (auto intro!: dsp_wf_set_dma simp: dma_wf_def)

lemma dma_in_keeps:
  "dsp_wf s \<Longrightarrow> ensures (dma_in s n sz m sa sp a) dsp_wf"
  "ensures (dma_in s n sz m sa sp a) (steady s)"
proof -
  assume w: "dsp_wf s"
  show "ensures (dma_in s n sz m sa sp a) dsp_wf"
    unfolding dma_in_def Let_def
    by (rule ensures_bind, rule ensures_assert, rule ensures_bind, rule ensuresI, rule ensures_case_prod,
        rule ensures_bind, rule ensuresI, rule write_words_keeps(1), rule dsp_wf_set_opaque [OF w])
next
  have st: "steady (s\<lparr>dma := d\<rparr>) t \<Longrightarrow> steady s t" for d t by (simp add: steady_def)
  show "ensures (dma_in s n sz m sa sp a) (steady s)"
    unfolding dma_in_def Let_def
    by (rule ensures_bind, rule ensures_assert, rule ensures_bind, rule ensuresI, rule ensures_case_prod,
        rule ensures_bind, rule ensuresI, rule ensures_weaken [OF write_words_keeps(2)], erule st)
qed

lemma dma_out_frame: "dma_out s n sz sa sp a = Some t \<Longrightarrow> \<exists>q. t = s\<lparr>dma := (dma s)\<lparr>rw_opaque := q\<rparr>\<rparr>"
  by (auto simp: dma_out_def Let_def bind_Some_iff split: if_splits)

lemma dma_out_keeps:
  "dsp_wf s \<Longrightarrow> ensures (dma_out s n sz sa sp a) dsp_wf"
  "ensures (dma_out s n sz sa sp a) (steady s)"
  by (rule ensuresI, drule dma_out_frame, erule exE, simp add: dsp_wf_set_opaque)+

lemma dma_block_keeps:
  "dsp_wf s \<Longrightarrow> ensures (dsp_dma_block s) dsp_wf"
  "ensures (dsp_dma_block s) (steady s)"
proof -
  have w: "dsp_wf (s\<lparr>dma := (if b then (dma s)\<lparr>next_block := n, eol := True\<rparr> else (dma s)\<lparr>next_block := n\<rparr>)\<rparr>)"
    if "dsp_wf s" "fits 24 n" for n b
    using that dsp_wf_dma [of s] by (auto intro!: dsp_wf_set_dma simp: dma_wf_def)
  have u: "(\<And>x. Q x) \<Longrightarrow> ensures (dma_item n) Q" "(\<And>x. R x) \<Longrightarrow> ensures (dma_mem n) R" for n Q R
    by (simp_all add: ensuresI)
  show "ensures (dsp_dma_block s) dsp_wf" if "dsp_wf s"
    unfolding dsp_dma_block_def Let_def
    by (rule ensures_bind, rule ensures_weaken [OF dma_fetch_keeps [OF that]])
      (intro wp_intros u dma_in_keeps(1) dma_out_keeps(1) w that; assumption)
  have st: "steady (s\<lparr>dma := d\<rparr>) t \<Longrightarrow> steady s t" for d t by (simp add: steady_def)
  show "ensures (dsp_dma_block s) (steady s)"
    unfolding dsp_dma_block_def Let_def
    by (rule ensures_bind, rule ensuresI)
      (intro wp_intros u ensures_weaken [OF dma_in_keeps(2)] ensures_weaken [OF dma_out_keeps(2)]; simp add: st)
qed

lemma dma_chain_keeps:
  "dma_chain s t \<Longrightarrow> dsp_wf s \<longrightarrow> dsp_wf t"
  "dma_chain s t \<Longrightarrow> steady s t"
  by (induction rule: dma_chain.induct)
    (auto dest: ensuresD [OF dma_block_keeps(1)] ensuresD [OF dma_block_keeps(2)] intro: steady_trans)

lemma dma_loop_keeps:
  "dsp_wf s \<Longrightarrow> ensures (dsp_dma_loop s) dsp_wf"
  "ensures (dsp_dma_loop s) (steady s)"
  unfolding ensures_def using dma_chain_keeps dma_loop_chain by blast+

lemma dma_action_fits: "fits 24 c \<Longrightarrow> ensures (dma_action c v) (fits 24)"
  unfolding dma_action_def Let_def by (intro wp_intros fits_and1 fits_or) (simp_all add: fits_numeral_iff)

lemma dma_run_keeps:
  "dsp_wf s \<Longrightarrow> ensures (dsp_dma_run s) dsp_wf" "ensures (dsp_dma_run s) (steady s)"
  unfolding dsp_dma_run_def by (auto intro!: wp_intros dma_loop_keeps)

lemma write_peripheral_keeps:
  "dsp_wf s \<Longrightarrow> fits 24 v \<Longrightarrow> ensures (write_peripheral s a v) dsp_wf"
  "ensures (write_peripheral s a v) (steady s)"
proof -
  assume w: "dsp_wf s" and v: "fits 24 v"
  have d: "dma_wf (dma s)" using w by (rule dsp_wf_dma)
  have c: "dsp_wf (s\<lparr>dma := (dma s)\<lparr>control := c\<rparr>\<rparr>)" if "fits 24 c" for c
    using d that by (intro dsp_wf_set_dma w) (simp add: dma_wf_def)
  have i: "dsp_wf (s\<lparr>interrupts := interrupts s AND NOT v\<rparr>)"
    using w by (simp add: dsp_wf_def ram_wf_def irq_wf_def regs_wf_def fits_and1)
  show "ensures (write_peripheral s a v) dsp_wf"
    unfolding write_peripheral_def dsp_dma_write_def DSPDMARegister.case
    using d v by (intro wp_intros dsp_wf_set_dma i w ensures_weaken [OF dma_action_fits] dma_run_keeps c)
      (auto simp: dma_wf_def)
next
  have c: "ensures (dsp_dma_run (s\<lparr>dma := d\<rparr>)) (steady s)" for d
    by (rule ensures_weaken [OF dma_run_keeps(2)]) (simp add: steady_def)
  show "ensures (write_peripheral s a v) (steady s)"
    unfolding write_peripheral_def dsp_dma_write_def DSPDMARegister.case
    by (auto intro!: wp_intros c simp: ensures_def bind_Some_iff dest: ensuresD [OF c])
qed

lemma write_memory_keeps:
  "dsp_wf s \<Longrightarrow> ensures (dsp56k_write_memory s sp a v) dsp_wf"
  "ensures (dsp56k_write_memory s sp a v) (steady s)"
  by (intro write_memory_cb_keeps write_peripheral_keeps; assumption)+

subsection \<open>Address generation\<close>

lemma fits_reverse_low: "fits 24 r \<Longrightarrow> k \<le> 17 \<Longrightarrow> fits 24 (reverse_low k r)"
proof -
  assume r: "fits 24 r" and k: "k \<le> 17"
  have "fits 24 v \<Longrightarrow> fits 24 (fold (\<lambda>i v. if r AND shl 1 i \<noteq> 0 then v OR shl 1 (k - i - 1) else v) is v)" for v "is"
  proof (induction "is" arbitrary: v)
    case (Cons i "is")
    have "fits 24 (shl 1 (k - i - 1))" by (rule fits_shl [where j = 1]) (use k in simp_all)
    then show ?case using Cons by (auto simp: fits_or)
  qed simp
  then show ?thesis unfolding reverse_low_def by (simp only: fits_and1 [OF r])
qed

lemma revbits_le: "revbits_loop k v n \<le> n + k"
proof (induction k arbitrary: n)
  case (Suc k)
  then show ?case using Suc.IH [of "Suc n"] by simp
qed simp

lemma field_cases:
  "(w::u32) AND 1 = 0 \<or> w AND 1 = 1"
  using and_1_bit [of 0 w] by (simp add: of_bool_def split: if_splits)

lemma reg_bits_field [simp]:
  "reg_bits (DSP_REG_X0 + (w AND 1)) = 24" "reg_bits (DSP_REG_Y0 + (w AND 1)) = 24"
  "reg_bits (DSP_REG_A0 + (w AND 1)) = 24" "reg_bits (DSP_REG_A1 + (w AND 1)) = 24" "reg_bits (DSP_REG_A2 + (w AND 1)) = 8"
  "reg_bits (DSP_REG_A + (w AND 1)) = 24"
  using field_cases [of w] by (auto simp: reg_bits_def)

lemma reg_bits_rn [simp]:
  "reg_bits (DSP_REG_R0 + (w AND 7)) = 24" "reg_bits (DSP_REG_N0 + (w AND 7)) = 24"
proof -
  have "unat (w AND 7) < 8" using unat_and_mask [of w 3] by simp
  moreover then have "unat (DSP_REG_R0 + (w AND 7)) = 16 + unat (w AND 7)" "unat (DSP_REG_N0 + (w AND 7)) = 24 + unat (w AND 7)"
    by (subst unat_add_small; simp)+
  ultimately show "reg_bits (DSP_REG_R0 + (w AND 7)) = 24" "reg_bits (DSP_REG_N0 + (w AND 7)) = 24"
    by (simp_all add: reg_bits_def word_unat_eq_iff word_le_nat_alt)
qed

lemma fits_word16 [width_intros]: "fits 24 (v AND BITMASK 16)" "fits 24 (v AND BITMASK 24)"
  by (simp_all add: fits_and_mask)

lemma update_rn_keeps:
  "dsp_wf s \<Longrightarrow> ensures (emu_update_rn s (w AND BITMASK 3) i) dsp_wf"
  "ensures (emu_update_rn s n i) (steady s)"
proof -
  assume w: "dsp_wf s"
  let ?n = "w AND BITMASK 3"
  have b: "dsp_wf (emu_update_rn_bitreverse s ?n)"
    unfolding emu_update_rn_bitreverse_def Let_def
    using revbits_le [of 16 "reg (DSP_REG_N0 + ?n) s" 0]
    by (intro dsp_wf_set_reg w)
      (simp del: mask_u32_values(11,12), intro fits_reverse_low fits_or fits_and1 dsp_wf_reg w fits_and2,
        simp_all add: fits_iff_bit bit_simps del: mask_u32_values)
  have m: "ensures (emu_update_rn_modulo s ?n i) dsp_wf"
    unfolding emu_update_rn_modulo_def Let_def
    by (rule ensures_bind, rule ensuresI, intro wp_intros w) (simp_all add: fits_and_mask)
  show "ensures (emu_update_rn s ?n i) dsp_wf"
    unfolding emu_update_rn_def Let_def
    by (intro wp_intros w b m) (simp add: fits_and_mask)
next
  have m: "ensures (emu_update_rn_modulo s n i) (steady s)"
    unfolding emu_update_rn_modulo_def Let_def
    by (rule ensures_bind, rule ensuresI, intro wp_intros) simp
  show "ensures (emu_update_rn s n i) (steady s)"
    unfolding emu_update_rn_def Let_def emu_update_rn_bitreverse_def by (intro wp_intros m) simp_all
qed

text \<open>What an effective address computation may change besides the address register: the length of
  the instruction and the cycle counter.\<close>

definition steady_ea :: "'o DSPState \<Rightarrow> 'o DSPState \<Rightarrow> bool" where
  "steady_ea s t \<longleftrightarrow> (instr_cycle t = instr_cycle s \<or> instr_cycle t = instr_cycle s + 2)
     \<and> steady (s\<lparr>instr_cycle := instr_cycle t\<rparr>) t"

lemma calc_ea_keeps:
  "dsp_wf s \<Longrightarrow> ensures (emu_calc_ea s m) (\<lambda>(r, a, t). dsp_wf t \<and> fits 24 a)"
  "ensures (emu_calc_ea s m) (\<lambda>(r, a, t). steady_ea s t)"
proof -
  assume w: "dsp_wf s"
  show "ensures (emu_calc_ea s m) (\<lambda>(r, a, t). dsp_wf t \<and> fits 24 a)"
    unfolding emu_calc_ea_def Let_def
    by (intro wp_intros ensures_weaken [OF update_rn_keeps(1)] ensures_weaken [OF read_memory_p_fits])
      (simp_all add: w dsp_wf_reg dsp_wf_set_reg)
next
  have st: "steady_ea s t" if "steady s t" for t using that by (simp add: steady_ea_def steady_def)
  have st2: "steady_ea s t" if "steady (s\<lparr>instr_cycle := instr_cycle s + 2\<rparr>) t" for t
    using that by (simp add: steady_ea_def steady_def)
  show "ensures (emu_calc_ea s m) (\<lambda>(r, a, t). steady_ea s t)"
    unfolding emu_calc_ea_def Let_def
    by (intro wp_intros ensures_weaken [OF update_rn_keeps(2)] ensures_weaken [OF read_memory_p_fits])
      (simp_all add: st st2)
qed

lemma exec_alu_keeps_wf:
  assumes "dsp_wf s" "cur_inst s AND 0xff \<noteq> 0x1d"
  shows "ensures (exec_alu s) dsp_wf"
proof (rule ensuresI)
  fix t assume t: "exec_alu s = Some t"
  have "alu_keeps (opcodes_alu ! unat (cur_inst s AND BITMASK 8) :: 'a DSPState \<Rightarrow> 'a DSPState option)"
    using assms(2) by (intro exec_alu_keeps) simp
  then have "regs_wf t" using t dsp_wf_regs [OF assms(1)] unfolding alu_keeps_def exec_alu_def by blast
  with exec_alu_frame [OF t] show "dsp_wf t"
    using assms(1) by (auto simp: only_regs_wf emu_undefined_def Let_def split: if_splits)
qed

lemma exec_alu_steady:
  "ensures (exec_alu s) (\<lambda>t. cur_inst t = cur_inst s \<and> save_cycles t = save_cycles s
     \<and> executing_for_disasm t = executing_for_disasm s
     \<and> (instr_cycle t = instr_cycle s \<or> instr_cycle t = instr_cycle s + 100 \<or> executing_for_disasm s))"
proof (rule ensuresI)
  fix t assume "exec_alu s = Some t"
  from exec_alu_frame [OF this] show "cur_inst t = cur_inst s \<and> save_cycles t = save_cycles s
     \<and> executing_for_disasm t = executing_for_disasm s
     \<and> (instr_cycle t = instr_cycle s \<or> instr_cycle t = instr_cycle s + 100 \<or> executing_for_disasm s)"
    by (auto simp: only_regs_def emu_undefined_def Let_def split: if_splits)
qed

end
