(* ===== verification/Dsp_Inv_Instr.thy ===== *)
theory Dsp_Inv_Instr
  imports Dsp_Inv
begin

text \<open>
  Every instruction keeps the width invariant: one rule per primitive (\<open>wf_rules\<close>), from which the
  lemmas on the parallel moves and on the other instructions (\<open>wf_instr\<close>) follow.
\<close>

named_theorems wf_rules \<open>rules of the width invariant, one per primitive operation\<close>

lemma ensures_split: "ensures (case p of (a, b) \<Rightarrow> f a b) Q = (case p of (a, b) \<Rightarrow> ensures (f a b) Q)"
  by (cases p) simp

lemmas [wf_rules] = ensures_Some ensures_None ensures_bind ensures_assert ensures_if dsp_wf_set_reg dsp_wf_add_interrupt dsp_wf_if

lemma ensures_rule: "ensures m P \<Longrightarrow> ensures m R \<Longrightarrow> (\<And>t. P t \<Longrightarrow> R t \<Longrightarrow> Q t) \<Longrightarrow> ensures m Q"
  by (simp add: ensures_def)

lemma wf_stack_push [wf_rules]:
  "dsp_wf s \<Longrightarrow> (\<And>t. dsp_wf t \<Longrightarrow> cur_inst t = cur_inst s \<Longrightarrow> Q t) \<Longrightarrow> ensures (dsp_stack_push s p r k) Q"
  by (rule ensures_rule [OF stack_push_keeps(1) stack_push_keeps(2)]) (simp_all add: steady_def)

lemma wf_stack_pop [wf_rules]:
  "dsp_wf s \<Longrightarrow> (\<And>p r t. dsp_wf t \<Longrightarrow> fits 16 p \<Longrightarrow> fits 16 r \<Longrightarrow> cur_inst t = cur_inst s \<Longrightarrow> Q (p, r, t)) \<Longrightarrow>
   ensures (dsp_stack_pop s) Q"
  by (rule ensures_rule [OF stack_pop_keeps(1) stack_pop_keeps(2)]) (auto simp: steady_def)

lemma wf_write_reg [wf_rules]:
  "dsp_wf s \<Longrightarrow> (n \<in> {DSP_REG_A, DSP_REG_B} \<Longrightarrow> fits 24 v) \<Longrightarrow>
   (\<And>t. dsp_wf t \<Longrightarrow> cur_inst t = cur_inst s \<Longrightarrow> Q t) \<Longrightarrow> ensures (dsp_write_reg s n v) Q"
  by (rule ensures_rule [OF write_reg_keeps(1) write_reg_keeps(2)]) (simp_all add: steady_def)

lemma wf_read_p [wf_rules]: "(\<And>v. fits 24 v \<Longrightarrow> Q v) \<Longrightarrow> ensures (read_memory_p s a) Q"
  by (rule ensures_weaken [OF read_memory_p_fits])

lemma wf_read [wf_rules]: "dsp_wf s \<Longrightarrow> (\<And>v. fits 24 v \<Longrightarrow> Q v) \<Longrightarrow> ensures (dsp56k_read_memory s sp a) Q"
  by (rule ensures_weaken [OF read_memory_fits])

lemma wf_write [wf_rules]:
  "dsp_wf s \<Longrightarrow> (\<And>t. dsp_wf t \<Longrightarrow> cur_inst t = cur_inst s \<Longrightarrow> Q t) \<Longrightarrow> ensures (dsp56k_write_memory s sp a v) Q"
  by (rule ensures_rule [OF write_memory_keeps(1) write_memory_keeps(2)]) (simp_all add: steady_def)

lemma wf_calc_ea [wf_rules]:
  "dsp_wf s \<Longrightarrow> (\<And>r a t. dsp_wf t \<Longrightarrow> fits 24 a \<Longrightarrow> cur_inst t = cur_inst s \<Longrightarrow> Q (r, a, t)) \<Longrightarrow>
   ensures (emu_calc_ea s m) Q"
  by (rule ensures_rule [OF calc_ea_keeps(1) calc_ea_keeps(2)]) (auto simp: steady_def steady_ea_def)

lemma wf_exec_alu [wf_rules]:
  "dsp_wf s \<Longrightarrow> cur_inst s AND 0xff \<noteq> 0x1d \<Longrightarrow> (\<And>t. dsp_wf t \<Longrightarrow> cur_inst t = cur_inst s \<Longrightarrow> Q t) \<Longrightarrow>
   ensures (exec_alu s) Q"
  by (rule ensures_rule [OF exec_alu_keeps_wf exec_alu_steady]) simp_all

subsection \<open>Register operations\<close>

lemma wf_sr_set [wf_rules]: "dsp_wf s \<Longrightarrow> fits 16 m \<Longrightarrow> dsp_wf (sr_set m s)"
  by (rule only_regs_wf [where s = s]) (simp_all add: regs_wf_sr_set dsp_wf_regs)

lemma wf_sr_clear [wf_rules]: "dsp_wf s \<Longrightarrow> fits 16 m \<Longrightarrow> dsp_wf (sr_clear m s)"
  by (rule only_regs_wf [where s = s]) (simp_all add: regs_wf_sr_clear dsp_wf_regs)

lemma wf_store56 [wf_rules]: "dsp_wf s \<Longrightarrow> wf3 d \<Longrightarrow> dsp_wf (store56 a d s)"
  by (rule only_regs_wf [where s = s]) (simp_all add: regs_wf_store56 dsp_wf_regs)

lemma wf_ccr3 [wf_rules]: "dsp_wf s \<Longrightarrow> dsp_wf (ccr3 d s)"
  by (rule only_regs_wf [where s = s]) (simp_all add: regs_wf_ccr3 dsp_wf_regs)

lemma wf_pm_write_accu [wf_rules]: "dsp_wf s \<Longrightarrow> fits 24 v \<Longrightarrow> dsp_wf (pm_write_accu a v s)"
  unfolding pm_write_accu_def by (intro wf_rules) (simp_all add: fits_ext24)

lemma wf_pm_write [wf_rules]: "dsp_wf s \<Longrightarrow> fits 24 v \<Longrightarrow> dsp_wf (pm_write n v s)"
  unfolding pm_write_def by (intro wf_rules width_intros; assumption)

lemma wf_pm_write_raw [wf_rules]: "dsp_wf s \<Longrightarrow> fits 24 v \<Longrightarrow> reg_bits n = 24 \<Longrightarrow> dsp_wf (pm_write_raw n v s)"
  unfolding pm_write_raw_def by (intro wf_rules) simp_all

lemma reg_bits_pm [simp]: "reg_bits (pm_reg_x f) = 24" "reg_bits (pm_reg_y f) = 24"
  by (simp_all add: pm_reg_x_def pm_reg_y_def reg_bits_def)

lemma sr_frame [simp]:
  "cur_inst (sr_set m s) = cur_inst s" "cur_inst (sr_clear m s) = cur_inst s"
  by (simp_all add: sr_set_def sr_clear_def)

lemma read_accu24_wf [wf_rules]:
  assumes "dsp_wf s"
  shows "dsp_wf (snd (snd (emu_pm_read_accu24 s n)))" "fits 24 (fst (snd (emu_pm_read_accu24 s n)))"
proof -
  have "fits 24 (w AND BITMASK 24)" for w by (simp add: fits_and_mask)
  then show "fits 24 (fst (snd (emu_pm_read_accu24 s n)))"
    by (simp add: emu_pm_read_accu24_def Let_def fits_numeral_iff del: mask_u32_values)
  show "dsp_wf (snd (snd (emu_pm_read_accu24 s n)))"
    using assms wf_sr_set [OF assms fits_sr_consts(7)] by (simp add: emu_pm_read_accu24_def Let_def)
qed

lemma read_accu24_frame [simp]: "cur_inst (snd (snd (emu_pm_read_accu24 s n))) = cur_inst s"
  by (simp add: emu_pm_read_accu24_def Let_def)

lemma pm_read_wf [wf_rules]:
  "dsp_wf s \<Longrightarrow> dsp_wf (snd (pm_read s n))" "dsp_wf s \<Longrightarrow> fits 24 (fst (pm_read s n))"
  by (simp_all add: pm_read_def read_accu24_wf dsp_wf_reg)

lemma pm_read_frame [simp]: "cur_inst (snd (pm_read s n)) = cur_inst s"
  by (simp add: pm_read_def)

subsection \<open>Parallel moves\<close>

lemma wf_pm_0: "dsp_wf s \<Longrightarrow> cur_inst s AND 0xff \<noteq> 0x1d \<Longrightarrow> ensures (emu_pm_0 s) dsp_wf"
  unfolding emu_pm_0_def Let_def case_prod_unfold
  by (auto simp: dsp_wf_reg fits_ext24 read_accu24_wf intro!: wf_rules)

lemma wf_pm_1: "dsp_wf s \<Longrightarrow> cur_inst s AND 0xff \<noteq> 0x1d \<Longrightarrow> ensures (emu_pm_1 s) dsp_wf"
  unfolding emu_pm_1_def Let_def case_prod_unfold
  by (auto simp: dsp_wf_reg fits_ext24 read_accu24_wf pm_read_wf intro!: wf_rules)

lemma wf_pm_3: "dsp_wf s \<Longrightarrow> cur_inst s AND 0xff \<noteq> 0x1d \<Longrightarrow> ensures (emu_pm_3 s) dsp_wf"
proof -
  assume "dsp_wf s" "cur_inst s AND 0xff \<noteq> 0x1d"
  moreover have "fits 24 (w AND 0xff0000)" for w by (rule fits_and2) (simp add: fits_numeral_iff)
  ultimately show ?thesis
    unfolding emu_pm_3_def Let_def by (auto simp: fits_and_mask intro!: wf_rules)
qed

lemma wf_pm_2: "dsp_wf s \<Longrightarrow> cur_inst s AND 0xff \<noteq> 0x1d \<Longrightarrow> ensures (emu_pm_2 s) dsp_wf"
  unfolding emu_pm_2_def emu_pm_2_2_def Let_def case_prod_unfold
  by (auto simp: pm_read_wf intro!: wf_rules wf_pm_3)

lemma pm_long_read_wf [wf_rules]:
  assumes "dsp_wf s"
  shows "dsp_wf (snd (snd (pm_long_read n s)))" "fits 24 (fst (pm_long_read n s))" "fits 24 (fst (snd (pm_long_read n s)))"
  using assms
  by (simp_all add: pm_long_read_def Let_def case_prod_unfold dsp_wf_reg read_accu24_wf fits_numeral_iff)

lemma pm_long_read_frame [simp]: "cur_inst (snd (snd (pm_long_read n s))) = cur_inst s"
  by (simp add: pm_long_read_def Let_def case_prod_unfold)

lemma wf_pm_long_write [wf_rules]: "dsp_wf s \<Longrightarrow> fits 24 x \<Longrightarrow> fits 24 y \<Longrightarrow> dsp_wf (pm_long_write n x y s)"
  unfolding pm_long_write_def by (intro wf_rules) (simp_all add: wf3_def fits_ext24)

lemma wf_pm_4x: "dsp_wf s \<Longrightarrow> cur_inst s AND 0xff \<noteq> 0x1d \<Longrightarrow> ensures (emu_pm_4x s) dsp_wf"
  unfolding emu_pm_4x_def Let_def case_prod_unfold
  by (auto simp: pm_long_read_wf intro!: wf_rules)

lemma wf_pm_5: "dsp_wf s \<Longrightarrow> cur_inst s AND 0xff \<noteq> 0x1d \<Longrightarrow> ensures (emu_pm_5 s) dsp_wf"
  unfolding emu_pm_5_def Let_def case_prod_unfold
  by (auto simp: pm_read_wf intro!: wf_rules)

lemma wf_pm_8: "dsp_wf s \<Longrightarrow> cur_inst s AND 0xff \<noteq> 0x1d \<Longrightarrow> ensures (emu_pm_8 s) dsp_wf"
  unfolding emu_pm_8_def Let_def case_prod_unfold
  by (auto simp: pm_read_wf intro!: wf_rules)

lemma nth_cases: "i < length xs \<Longrightarrow> list_all P xs \<Longrightarrow> P (xs ! i)"
  by (simp add: list_all_length)

lemma wf_parmove:
  fixes s :: "'o DSPState"
  assumes "dsp_wf s" "cur_inst s AND 0xff \<noteq> 0x1d"
  shows "ensures (exec_parmove s) dsp_wf"
proof -
  have "unat (shr (cur_inst s) 20 AND BITMASK 4) < length (opcodes_parmove :: ('o DSPState \<Rightarrow> _) list)"
    unfolding unat_and_mask by (simp add: opcodes_parmove_def)
  moreover have "list_all (\<lambda>f. ensures (f s) dsp_wf) opcodes_parmove"
    using assms by (simp add: opcodes_parmove_def wf_pm_0 wf_pm_1 wf_pm_2 wf_pm_3 wf_pm_4x wf_pm_5 wf_pm_8 emu_pm_4_def)
  ultimately show ?thesis unfolding exec_parmove_def by (rule nth_cases)
qed

subsection \<open>Arithmetic with immediate operands\<close>

named_theorems wf_instr \<open>instructions that keep the width invariant\<close>

lemma dsp_wf_add_cycles [simp]: "dsp_wf (add_cycles n s) = dsp_wf s" "cur_inst (add_cycles n s) = cur_inst s"
  "reg r (add_cycles n s) = reg r s"
  by (simp_all add: add_cycles_def)

lemma dsp_wf_goto [simp]: "dsp_wf (goto_pc p s) = dsp_wf s" "dsp_wf (branch_by d s) = dsp_wf s"
  by (simp_all add: goto_pc_def branch_by_def)

lemma wf_next_word [wf_rules]:
  "(\<And>x. fits 24 x \<Longrightarrow> Q (x, s\<lparr>cur_inst_len := cur_inst_len s + 1\<rparr>)) \<Longrightarrow> ensures (next_word s) Q"
  unfolding next_word_def by (intro wf_rules)

lemma inst_field_frame [simp]:
  "inst_field (s\<lparr>cur_inst_len := l\<rparr>) n k = inst_field s n k" "inst_field (add_cycles c s) n k = inst_field s n k"
  by (simp_all add: inst_field_def add_cycles_def)

lemma fits_inst_field: "k \<le> j \<Longrightarrow> fits j (inst_field s n k)"
  by (auto simp: inst_field_def fits_iff_bit bit_simps simp del: mask_u32_values)

lemma only_regs_wf_alu:
  "dsp_wf s \<Longrightarrow> wf3 (src s) \<Longrightarrow> dsp_wf (alu_add a src s)"
  "dsp_wf s \<Longrightarrow> wf3 (src s) \<Longrightarrow> dsp_wf (alu_sub a src s)"
  "dsp_wf s \<Longrightarrow> wf3 (src s) \<Longrightarrow> dsp_wf (alu_cmp a src s)"
  by (rule only_regs_wf [where s = s]; simp add: alu_families_wf dsp_wf_regs)+

lemma wf_logic_flags [wf_rules]: "dsp_wf s \<Longrightarrow> dsp_wf (logic_flags a s)"
  by (rule only_regs_wf [where s = s]) (simp_all add: regs_wf_logic_flags dsp_wf_regs)

lemma wf_flags_vc [wf_rules]: "dsp_wf s \<Longrightarrow> dsp_wf (flags_vc d n s)"
  by (rule only_regs_wf [where s = s]) (simp_all add: regs_wf_flags_vc dsp_wf_regs)

lemma wf_add_sub [wf_instr]:
  "dsp_wf s \<Longrightarrow> ensures (emu_add_imm s) dsp_wf" "dsp_wf s \<Longrightarrow> ensures (emu_add_long s) dsp_wf"
  "dsp_wf s \<Longrightarrow> ensures (emu_sub_imm s) dsp_wf" "dsp_wf s \<Longrightarrow> ensures (emu_sub_long s) dsp_wf"
  "dsp_wf s \<Longrightarrow> ensures (emu_cmp_imm s) dsp_wf" "dsp_wf s \<Longrightarrow> ensures (emu_cmp_long s) dsp_wf"
  "dsp_wf s \<Longrightarrow> ensures (emu_inc s) dsp_wf" "dsp_wf s \<Longrightarrow> ensures (emu_dec s) dsp_wf"
  unfolding emu_add_imm_def emu_add_long_def emu_sub_imm_def emu_sub_long_def emu_cmp_imm_def emu_cmp_long_def
    emu_add_x_def emu_sub_x_def emu_inc_def emu_dec_def case_prod_unfold
  by (intro wf_rules only_regs_wf_alu; simp add: wf3_def fits_ext24 fits_inst_field fits_1 [of 23, simplified])+

lemma fits_consts [width_intros]: "fits 16 SR_NZV" "fits 16 SR_CNZV" "fits 16 SR_VC" "fits 16 0x8" "fits 16 0x40" "fits 16 0x1"
  "fits 16 0x2" "fits 16 0x4"
  by (simp_all add: fits_def)

lemma wf_logic [wf_instr]:
  "dsp_wf s \<Longrightarrow> ensures (emu_and_imm s) dsp_wf" "dsp_wf s \<Longrightarrow> ensures (emu_and_long s) dsp_wf"
  "dsp_wf s \<Longrightarrow> ensures (emu_or_long s) dsp_wf"
  unfolding emu_and_imm_def emu_and_long_def emu_and_x_def emu_or_long_def Let_def case_prod_unfold
  by (intro wf_rules width_intros; simp add: dsp_wf_reg fits_and1 fits_or fits_inst_field)+

lemma wf_ccr_ops [wf_instr]:
  "dsp_wf s \<Longrightarrow> ensures (emu_andi s) dsp_wf" "dsp_wf s \<Longrightarrow> ensures (emu_ori s) dsp_wf"
proof -
  assume w: "dsp_wf s"
  have r: "fits 16 (reg DSP_REG_SR s)" "fits 8 (reg DSP_REG_OMR s)"
    using regs_wfD [OF dsp_wf_regs [OF w], of DSP_REG_SR] regs_wfD [OF dsp_wf_regs [OF w], of DSP_REG_OMR] by simp_all
  show "ensures (emu_andi s) dsp_wf" "ensures (emu_ori s) dsp_wf"
    unfolding emu_andi_def emu_ori_def Let_def
    using r by (intro wf_rules w; simp add: fits_and1 fits_or fits_inst_field fits_shl [of 8])+
qed

lemma wf3_shifts:
  "wf3 d \<Longrightarrow> wf3 (snd (dsp_asl56 d n))" "wf3 d \<Longrightarrow> wf3 (snd (dsp_asr56 d n))"
  by (rule wf3_results; assumption)+

lemma wf3_load: "dsp_wf s \<Longrightarrow> wf3 (load56 a s)"
  by (simp add: dsp_wf_regs wf3_load56)

lemma wf_shift_imm [wf_instr]:
  "dsp_wf s \<Longrightarrow> ensures (emu_asl_imm s) dsp_wf" "dsp_wf s \<Longrightarrow> ensures (emu_asr_imm s) dsp_wf"
  unfolding emu_asl_imm_def emu_asr_imm_def Let_def case_prod_unfold
  by (intro wf_rules width_intros fits_ucast16 wf3_shifts wf3_load order_refl; assumption)+

lemma fits_low_bits: "fits 16 (ucast (v::u16) AND m)" "fits 16 ((w::u32) AND 0x8)" "fits 16 (w AND 1)"
  "fits 16 (w AND 1 XOR 1)"
  by (simp_all add: fits_and1 fits_ucast16 fits_and2 fits_numeral_iff fits_and_mask fits_xor fits_1 [of 15, simplified])

lemma wf_cmpu [wf_instr]: "dsp_wf s \<Longrightarrow> ensures (emu_cmpu s) dsp_wf"
proof -
  assume w: "dsp_wf s"
  have m: "fits 16 (shl 1 DSP_SR_V OR shl 1 DSP_SR_C OR shl 1 DSP_SR_Z OR shl 1 DSP_SR_N)" by (simp add: fits_numeral_iff)
  show ?thesis
    unfolding emu_cmpu_def Let_def case_prod_unfold
    by (intro wf_rules width_intros fits_low_bits fits_sr_consts w m)
qed

lemma wf_div [wf_instr]: "dsp_wf s \<Longrightarrow> ensures (emu_div s) dsp_wf"
proof -
  assume w: "dsp_wf s"
  have r: "wf3 (src_reg r s)" for r by (simp add: dsp_wf_regs [OF w] wf3_src)
  have "wf3 (fst d, fst (snd d), snd (snd d) OR (v AND 1))" if "wf3 d" for d v
    using that by (cases d) (simp add: wf3_def fits_or fits_and_mask)
  moreover have "wf3 (snd (dsp_asl56 (load56 a s) 1))" for a by (intro wf3_shifts wf3_load w)
  moreover have "fits 16 (1 - (shr v 7 AND 1))" for v :: u32 by (simp add: and_1_bit of_bool_def fits_def)
  ultimately show ?thesis
    unfolding emu_div_def Let_def case_prod_unfold
    by (intro wf_rules width_intros fits_low_bits w) (simp_all add: wf3_results r)
qed

lemma wf_mpyi [wf_instr]: "dsp_wf s \<Longrightarrow> ensures (emu_mpyi s) dsp_wf"
  unfolding emu_mpyi_def Let_def case_prod_unfold
  by (intro wf_rules dsp_mul56_spec fits_sr_consts; simp add: dsp_wf_reg)

lemma wf_norm [wf_instr]: "dsp_wf s \<Longrightarrow> ensures (emu_norm s) dsp_wf"
proof -
  assume w: "dsp_wf s"
  have i: "reg_bits (DSP_REG_R0 + inst_field s 8 3) = 24" by (simp add: inst_field_def)
  show ?thesis
    unfolding emu_norm_def Let_def case_prod_unfold
    using w i by (auto intro!: wf_rules wf3_shifts wf3_load simp: fits_and_mask)
qed

lemma wf_tcc [wf_instr]: "dsp_wf s \<Longrightarrow> ensures (emu_tcc s) dsp_wf"
proof -
  assume w: "dsp_wf s"
  have r: "wf3 (src_reg r s)" "wf3 (load56 a s)" for r a by (simp_all add: dsp_wf_regs [OF w] wf3_src wf3_load56)
  have "cur_inst (store56 a d s) = cur_inst s" for a d by (simp add: store56_def case_prod_unfold)
  then show ?thesis
    unfolding emu_tcc_def Let_def case_prod_unfold
    using w r by (auto intro!: wf_rules dsp_wf_reg)
qed

subsection \<open>Operands and bit instructions\<close>

lemma wf_operand_ea [wf_rules]:
  "dsp_wf s \<Longrightarrow> (\<And>a t. dsp_wf t \<Longrightarrow> fits 24 a \<Longrightarrow> cur_inst t = cur_inst s \<Longrightarrow> Q (a, t)) \<Longrightarrow> ensures (operand_ea s) Q"
  unfolding operand_ea_def case_prod_unfold by (auto intro!: wf_rules)

definition wf_operand :: "('o DSPState \<Rightarrow> (u32 \<times> 'o DSPState) option) \<Rightarrow> bool" where
  "wf_operand operand \<longleftrightarrow>
     (\<forall>s. dsp_wf s \<longrightarrow> ensures (operand s) (\<lambda>(a, t). dsp_wf t \<and> cur_inst t = cur_inst s))"

definition wf_source :: "('o DSPState \<Rightarrow> (u32 \<times> 'o DSPState) option) \<Rightarrow> bool" where
  "wf_source rd \<longleftrightarrow>
     (\<forall>s. dsp_wf s \<longrightarrow> ensures (rd s) (\<lambda>(v, t). dsp_wf t \<and> fits 24 v \<and> cur_inst t = cur_inst s))"

lemma wf_operands [simp]: "wf_operand operand_aa" "wf_operand operand_ea" "wf_operand operand_pp"
  by (auto simp: wf_operand_def operand_aa_def operand_pp_def intro!: wf_rules)

lemma wf_operand_rule:
  "wf_operand operand \<Longrightarrow> dsp_wf s \<Longrightarrow> (\<And>a t. dsp_wf t \<Longrightarrow> cur_inst t = cur_inst s \<Longrightarrow> Q (a, t)) \<Longrightarrow> ensures (operand s) Q"
  unfolding wf_operand_def by (blast intro: ensures_weaken)

lemma wf_source_rule:
  "wf_source rd \<Longrightarrow> dsp_wf s \<Longrightarrow> (\<And>v t. dsp_wf t \<Longrightarrow> fits 24 v \<Longrightarrow> cur_inst t = cur_inst s \<Longrightarrow> Q (v, t)) \<Longrightarrow>
   ensures (rd s) Q"
  unfolding wf_source_def by (blast intro: ensures_weaken)

lemma wf_sources [simp]:
  "wf_operand operand \<Longrightarrow> wf_source (read_operand operand)" "wf_source read_operand_reg"
proof -
  assume o: "wf_operand operand"
  show "wf_source (read_operand operand)"
    unfolding wf_source_def read_operand_def case_prod_unfold by (auto intro!: wf_rules wf_operand_rule [OF o])
next
  show "wf_source read_operand_reg"
    unfolding wf_source_def read_operand_reg_def case_prod_unfold by (auto intro!: wf_rules)
qed

lemma fits_carry [width_intros]: "fits 16 (shl (v AND 1) 0)" "fits 16 (shl 1 0)"
  by (simp_all add: fits_and_mask fits_1 [of 15, simplified])

lemma wf_set_carry [wf_rules]: "dsp_wf s \<Longrightarrow> dsp_wf (set_carry (v AND 1) s)"
  unfolding set_carry_def by (intro wf_rules width_intros)

lemma bit_num_frame: "cur_inst t = cur_inst s \<Longrightarrow> bit_num t = bit_num s"
  "cur_inst t = cur_inst s \<Longrightarrow> inst_field t n k = inst_field s n k"
  by (simp_all add: bit_num_def inst_field_def)

lemma wf_bit_mem:
  assumes "wf_operand operand" "dsp_wf s"
  shows "ensures (bit_op_mem operand f s) dsp_wf"
  unfolding bit_op_mem_def Let_def case_prod_unfold
  by (auto intro!: wf_rules wf_operand_rule [OF assms(1)] assms(2))

lemma wf_bit_test:
  assumes "wf_source rd" "dsp_wf s"
  shows "ensures (bit_test rd s) dsp_wf"
  unfolding bit_test_def case_prod_unfold by (auto intro!: wf_rules wf_source_rule [OF assms(1)] assms(2))

lemma wf_bit_reg:
  assumes "dsp_wf s" and "\<And>v. fits 24 v \<Longrightarrow> inst_field s 8 6 \<in> {DSP_REG_A, DSP_REG_B} \<Longrightarrow> fits 24 (f (bit_num s) v)"
  shows "ensures (bit_op_reg f s) dsp_wf"
  unfolding bit_op_reg_def Let_def case_prod_unfold read_operand_reg_def
  by (intro wf_rules assms(1)) (simp_all add: assms pm_read_wf wf_set_carry bit_num_frame(1) [of "snd (pm_read s n)" s for n]
      bit_num_frame(2) [of "snd (pm_read s n)" s for n])

text \<open>The bit numbers 24 to 31 can be encoded, but do not exist in a register.\<close>

definition wide_bit :: "'o DSPState \<Rightarrow> bool" where
  "wide_bit s \<longleftrightarrow> 24 \<le> bit_num s \<and> inst_field s 8 6 \<in> {DSP_REG_A, DSP_REG_B}"

lemma fits_bit_ops:
  assumes "fits 24 v" "n < 24"
  shows "fits 24 (set_bit32 n v)" "fits 24 (flip_bit32 n v)"
proof -
  have b: "fits 24 (shl 1 n)" by (rule fits_shl [where j = 1]) (use assms(2) in simp_all)
  show "fits 24 (set_bit32 n v)" unfolding set_bit32_def by (intro fits_or assms b)
  have "v AND shl 1 n = (if bit v n then shl 1 n else 0)" by (rule bit_word_eqI) (auto simp: bit_simps)
  have "flip_bit32 n v = v XOR shl 1 n"
  proof (cases "bit v n")
    case True
    have d: "(v AND NOT (shl 1 n)) AND shl 1 n = 0" "(v AND NOT (shl 1 n)) OR shl 1 n = v"
      using True by (auto intro!: bit_word_eqI simp: bit_simps)
    have "v = (v AND NOT (shl 1 n)) + shl 1 n" using or_disjoint_add [OF d(1)] d(2) by simp
    then have "v - shl 1 n = v AND NOT (shl 1 n)" by (metis add_diff_cancel_right')
    also have "\<dots> = v XOR shl 1 n" using True by (auto intro!: bit_word_eqI simp: bit_simps)
    finally show ?thesis using True by (simp add: flip_bit32_def and_1_bit)
  next
    case False
    have "v AND shl 1 n = 0" using False by (auto intro!: bit_word_eqI simp: bit_simps)
    then have "v + shl 1 n = v OR shl 1 n" by (rule or_disjoint_add [symmetric])
    also have "\<dots> = v XOR shl 1 n" using False by (auto intro!: bit_word_eqI simp: bit_simps)
    finally show ?thesis using False by (simp add: flip_bit32_def and_1_bit)
  qed
  then show "fits 24 (flip_bit32 n v)" using fits_xor [OF assms(1) b] by simp
qed

lemma wf_bits [wf_instr]:
  assumes "dsp_wf s"
  shows "ensures (emu_bchg_aa s) dsp_wf" "ensures (emu_bchg_ea s) dsp_wf" "ensures (emu_bchg_pp s) dsp_wf"
    "ensures (emu_bclr_aa s) dsp_wf" "ensures (emu_bclr_ea s) dsp_wf" "ensures (emu_bclr_pp s) dsp_wf"
    "ensures (emu_bset_aa s) dsp_wf" "ensures (emu_bset_ea s) dsp_wf" "ensures (emu_bset_pp s) dsp_wf"
    "ensures (emu_btst_aa s) dsp_wf" "ensures (emu_btst_ea s) dsp_wf" "ensures (emu_btst_pp s) dsp_wf"
    "ensures (emu_btst_reg s) dsp_wf"
  using assms
  by (simp_all add: emu_bchg_aa_def emu_bchg_ea_def emu_bchg_pp_def emu_bclr_aa_def emu_bclr_ea_def emu_bclr_pp_def
      emu_bset_aa_def emu_bset_ea_def emu_bset_pp_def emu_btst_aa_def emu_btst_ea_def emu_btst_pp_def emu_btst_reg_def
      wf_bit_mem wf_bit_test)

lemma wf_bits_reg [wf_instr]:
  assumes "dsp_wf s"
  shows "ensures (emu_bclr_reg s) dsp_wf" "\<not> wide_bit s \<Longrightarrow> ensures (emu_bchg_reg s) dsp_wf"
    "\<not> wide_bit s \<Longrightarrow> ensures (emu_bset_reg s) dsp_wf"
  using assms unfolding emu_bclr_reg_def emu_bchg_reg_def emu_bset_reg_def wide_bit_def
  by (auto intro!: wf_bit_reg fits_bit_ops simp: clear_bit32_def fits_and1 not_le)

subsection \<open>Branches, jumps and loops\<close>

lemma wf_push_return [wf_rules]:
  "dsp_wf s \<Longrightarrow> (\<And>t. dsp_wf t \<Longrightarrow> cur_inst t = cur_inst s \<Longrightarrow> Q t) \<Longrightarrow> ensures (push_return p s) Q"
  unfolding push_return_def by (rule wf_stack_push)

lemma wf_call_push [wf_rules]:
  "dsp_wf s \<Longrightarrow> (\<And>t. dsp_wf t \<Longrightarrow> cur_inst t = cur_inst s \<Longrightarrow> Q t) \<Longrightarrow> ensures (call_push s) Q"
  unfolding call_push_def by (auto intro!: wf_rules)

lemma wf_branches [wf_instr]:
  assumes "dsp_wf s"
  shows "ensures (emu_bcc_long s) dsp_wf" "ensures (emu_bcc_imm s) dsp_wf" "ensures (emu_bra_long s) dsp_wf"
    "ensures (emu_bra_imm s) dsp_wf" "ensures (emu_bsr_long s) dsp_wf" "ensures (emu_bsr_imm s) dsp_wf"
    "ensures (emu_jcc_imm s) dsp_wf" "ensures (emu_jcc_ea s) dsp_wf" "ensures (emu_jmp_imm s) dsp_wf"
    "ensures (emu_jmp_ea s) dsp_wf" "ensures (emu_jscc_imm s) dsp_wf" "ensures (emu_jscc_ea s) dsp_wf"
    "ensures (emu_jsr_imm s) dsp_wf" "ensures (emu_jsr_ea s) dsp_wf"
  unfolding emu_bcc_long_def emu_bcc_imm_def emu_bra_long_def emu_bra_imm_def emu_bsr_long_def emu_bsr_imm_def
    emu_jcc_imm_def emu_jcc_ea_def emu_jmp_imm_def emu_jmp_ea_def emu_jscc_imm_def emu_jscc_ea_def
    emu_jsr_imm_def emu_jsr_ea_def case_prod_unfold Let_def
  using assms by (auto intro!: wf_rules)

lemma wf_bit_jumps:
  assumes "wf_source rd" "dsp_wf s"
  shows "ensures (branch_bit rd b s) dsp_wf" "ensures (jump_bit rd b s) dsp_wf" "ensures (call_bit rd b s) dsp_wf"
  unfolding branch_bit_def jump_bit_def call_bit_def case_prod_unfold Let_def
  using assms(2) by (auto intro!: wf_rules wf_source_rule [OF assms(1)])

lemma wf_jumps [wf_instr]:
  assumes "dsp_wf s"
  shows "ensures (emu_brclr_pp s) dsp_wf" "ensures (emu_brclr_reg s) dsp_wf" "ensures (emu_brset_pp s) dsp_wf"
    "ensures (emu_brset_reg s) dsp_wf" "ensures (emu_jclr_aa s) dsp_wf" "ensures (emu_jclr_ea s) dsp_wf"
    "ensures (emu_jclr_pp s) dsp_wf" "ensures (emu_jclr_reg s) dsp_wf" "ensures (emu_jset_aa s) dsp_wf"
    "ensures (emu_jset_ea s) dsp_wf" "ensures (emu_jset_pp s) dsp_wf" "ensures (emu_jset_reg s) dsp_wf"
    "ensures (emu_jsclr_aa s) dsp_wf" "ensures (emu_jsclr_ea s) dsp_wf" "ensures (emu_jsclr_pp s) dsp_wf"
    "ensures (emu_jsclr_reg s) dsp_wf" "ensures (emu_jsset_aa s) dsp_wf" "ensures (emu_jsset_ea s) dsp_wf"
    "ensures (emu_jsset_pp s) dsp_wf" "ensures (emu_jsset_reg s) dsp_wf"
  using assms
  by (simp_all add: emu_brclr_pp_def emu_brclr_reg_def emu_brset_pp_def emu_brset_reg_def emu_jclr_aa_def emu_jclr_ea_def
      emu_jclr_pp_def emu_jclr_reg_def emu_jset_aa_def emu_jset_ea_def emu_jset_pp_def emu_jset_reg_def
      emu_jsclr_aa_def emu_jsclr_ea_def emu_jsclr_pp_def emu_jsclr_reg_def emu_jsset_aa_def emu_jsset_ea_def
      emu_jsset_pp_def emu_jsset_reg_def wf_bit_jumps)

lemma wf_push_loop [wf_rules]:
  "dsp_wf s \<Longrightarrow> (\<And>t. dsp_wf t \<Longrightarrow> cur_inst t = cur_inst s \<Longrightarrow> Q t) \<Longrightarrow> ensures (push_loop s) Q"
  unfolding push_loop_def by (rule wf_stack_push)

lemma wf_ruleI:
  "ensures m (\<lambda>t. dsp_wf t \<and> cur_inst t = c) \<Longrightarrow> (\<And>t. dsp_wf t \<Longrightarrow> cur_inst t = c \<Longrightarrow> Q t) \<Longrightarrow> ensures m Q"
  by (simp add: ensures_def)

lemma wf_loop_flag_on [wf_rules]:
  "dsp_wf s \<Longrightarrow> (\<And>t. dsp_wf t \<Longrightarrow> cur_inst t = cur_inst s \<Longrightarrow> Q t) \<Longrightarrow> ensures (loop_flag_on s) Q"
  by (rule wf_ruleI [where c = "cur_inst s"])
    (auto simp: loop_flag_on_def fits_numeral_iff intro!: wf_rules)

lemma wf_do_prologue [wf_rules]:
  "dsp_wf s \<Longrightarrow> (\<And>t. dsp_wf t \<Longrightarrow> cur_inst t = cur_inst s \<Longrightarrow> Q t) \<Longrightarrow> ensures (do_absolute s) Q"
  "dsp_wf s \<Longrightarrow> (\<And>t. dsp_wf t \<Longrightarrow> cur_inst t = cur_inst s \<Longrightarrow> Q t) \<Longrightarrow> ensures (do_relative s) Q"
  by (rule wf_ruleI [where c = "cur_inst s"];
      auto simp: do_absolute_def do_relative_def Let_def case_prod_unfold fits_and_mask intro!: wf_rules)+

lemma unat_loop_count: "unat (loop_count_imm s) < 2 ^ 13"
proof -
  have a: "unat (inst_field s 8 8) < 2 ^ 8"
    unfolding inst_field_def unat_and_mask by simp
  have "unat (cur_inst s AND BITMASK 4) < 2 ^ 4" unfolding unat_and_mask by simp
  then have b: "unat (shl (cur_inst s AND BITMASK 4) 8) < 2 ^ 12" unfolding unat_push_bit by simp
  have "unat (loop_count_imm s) = unat (inst_field s 8 8) + unat (shl (cur_inst s AND BITMASK 4) 8)"
    unfolding loop_count_imm_def using a b by (intro unat_add_small) simp
  then show ?thesis using a b by simp
qed

lemma fits_loop_count: "fits 24 (loop_count_imm s)"
  using unat_loop_count [of s] by (simp add: fits_iff_unat)

lemma wf_rep_start [wf_rules]: "dsp_wf s \<Longrightarrow> dsp_wf (rep_start s)"
  unfolding rep_start_def by (auto intro!: wf_rules simp: dsp_wf_reg)

lemma wf_read_operands [wf_rules]:
  "dsp_wf s \<Longrightarrow> (\<And>v t. dsp_wf t \<Longrightarrow> fits 24 v \<Longrightarrow> cur_inst t = cur_inst s \<Longrightarrow> Q (v, t)) \<Longrightarrow> ensures (read_operand operand_aa s) Q"
  "dsp_wf s \<Longrightarrow> (\<And>v t. dsp_wf t \<Longrightarrow> fits 24 v \<Longrightarrow> cur_inst t = cur_inst s \<Longrightarrow> Q (v, t)) \<Longrightarrow> ensures (read_operand operand_ea s) Q"
  "dsp_wf s \<Longrightarrow> (\<And>v t. dsp_wf t \<Longrightarrow> fits 24 v \<Longrightarrow> cur_inst t = cur_inst s \<Longrightarrow> Q (v, t)) \<Longrightarrow> ensures (read_operand_reg s) Q"
  by (rule wf_source_rule; simp)+

lemma wf_do [wf_instr]:
  assumes "dsp_wf s"
  shows "ensures (emu_do_aa s) dsp_wf" "ensures (emu_do_imm s) dsp_wf" "ensures (emu_do_ea s) dsp_wf"
    "ensures (emu_do_reg s) dsp_wf" "ensures (emu_dor_imm s) dsp_wf" "ensures (emu_dor_reg s) dsp_wf"
    "ensures (emu_rep_aa s) dsp_wf" "ensures (emu_rep_imm s) dsp_wf" "ensures (emu_rep_ea s) dsp_wf"
    "ensures (emu_rep_reg s) dsp_wf"
  unfolding emu_do_aa_def emu_do_imm_def emu_do_ea_def emu_do_reg_def emu_dor_imm_def emu_dor_reg_def
    emu_rep_aa_def emu_rep_imm_def emu_rep_ea_def emu_rep_reg_def Let_def case_prod_unfold
  using assms by (auto intro!: wf_rules simp: fits_and_mask fits_loop_count)

lemma wf_loop_end: "dsp_wf s \<Longrightarrow> ensures (loop_end s) dsp_wf"
proof -
  have "fits 16 (v AND 0x7f)" "fits 16 (v AND 0x8000)" for v :: u32 by (rule fits_and2, simp add: fits_numeral_iff)+
  then show "dsp_wf s \<Longrightarrow> ensures (loop_end s) dsp_wf"
    unfolding loop_end_def Let_def case_prod_unfold
    by (auto intro!: wf_rules intro: fits_mono)
qed

lemma wf_misc [wf_instr]:
  assumes "dsp_wf s"
  shows "ensures (emu_enddo s) dsp_wf" "ensures (emu_rti s) dsp_wf" "ensures (emu_rts s) dsp_wf"
    "ensures (emu_illegal s) dsp_wf" "ensures (emu_nop s) dsp_wf" "ensures (emu_reset s) dsp_wf"
    "ensures (emu_stop s) dsp_wf" "ensures (emu_wait s) dsp_wf" "ensures (emu_undefined s) dsp_wf"
  unfolding emu_enddo_def emu_rti_def emu_rts_def emu_illegal_def emu_nop_def emu_reset_def emu_stop_def emu_wait_def
    emu_undefined_def Let_def case_prod_unfold
  using assms wf_loop_end [OF assms] by (auto intro!: wf_rules)

subsection \<open>Moves\<close>

lemma wf_lua [wf_instr]:
  assumes "dsp_wf s"
  shows "ensures (emu_lua s) dsp_wf" "ensures (emu_lua_rel s) dsp_wf"
  unfolding emu_lua_def emu_lua_rel_def lua_write_def inst_field_def Let_def case_prod_unfold
  using assms by (auto intro!: wf_rules simp: dsp_wf_reg fits_and_mask)

lemma wf_move_reads [wf_rules]:
  "dsp_wf s \<Longrightarrow> (\<And>v t. dsp_wf t \<Longrightarrow> fits 24 v \<Longrightarrow> cur_inst t = cur_inst s \<Longrightarrow> Q (v, t)) \<Longrightarrow> ensures (movec_read s n) Q"
  "dsp_wf s \<Longrightarrow> (\<And>v t. dsp_wf t \<Longrightarrow> fits 24 v \<Longrightarrow> cur_inst t = cur_inst s \<Longrightarrow> Q (v, t)) \<Longrightarrow> ensures (movem_read s n) Q"
proof -
  assume w: "dsp_wf s" and Q: "\<And>v t. dsp_wf t \<Longrightarrow> fits 24 v \<Longrightarrow> cur_inst t = cur_inst s \<Longrightarrow> Q (v, t)"
  have "Q (pm_read s n)" using Q [of "snd (pm_read s n)" "fst (pm_read s n)"] w by (simp add: pm_read_wf)
  then show "ensures (movec_read s n) Q" "ensures (movem_read s n) Q"
    unfolding movec_read_def movem_read_def case_prod_unfold
    using w by (auto intro!: wf_rules Q simp: dsp_wf_reg intro: fits_mono)
qed

lemma wf_write_masked [wf_rules]:
  "dsp_wf s \<Longrightarrow> (\<And>t. dsp_wf t \<Longrightarrow> cur_inst t = cur_inst s \<Longrightarrow> Q t) \<Longrightarrow> ensures (write_masked s n v) Q"
  unfolding write_masked_def by (rule wf_write_reg) (auto simp: registers_mask_def fits_and_mask)

lemma wf_movec [wf_instr]:
  assumes "dsp_wf s"
  shows "ensures (emu_movec_reg s) dsp_wf" "ensures (emu_movec_aa s) dsp_wf" "ensures (emu_movec_imm s) dsp_wf"
    "ensures (emu_movec_ea s) dsp_wf"
  unfolding emu_movec_reg_def emu_movec_aa_def emu_movec_imm_def emu_movec_ea_def Let_def case_prod_unfold
  using assms by (auto intro!: wf_rules width_intros simp: wf3_def fits_ext24 fits_and_mask pm_read_wf)

lemma wf_movem_transfer [wf_rules]: "dsp_wf s \<Longrightarrow> ensures (movem_transfer a s) dsp_wf"
  unfolding movem_transfer_def Let_def case_prod_unfold by (auto intro!: wf_rules)

lemma wf_movep_transfer [wf_rules]: "dsp_wf s \<Longrightarrow> ensures (movep_transfer p a s) dsp_wf"
  unfolding movep_transfer_def Let_def case_prod_unfold by (auto intro!: wf_rules)

lemma wf_move_transfer [wf_rules]: "dsp_wf s \<Longrightarrow> ensures (move_transfer b sp a n s) dsp_wf"
  unfolding move_transfer_def Let_def case_prod_unfold by (auto intro!: wf_rules)

lemma wf_moves [wf_instr]:
  assumes "dsp_wf s"
  shows "ensures (emu_movem_aa s) dsp_wf" "ensures (emu_movem_ea s) dsp_wf" "ensures (emu_movep_0 s) dsp_wf"
    "ensures (emu_movep_1 s) dsp_wf" "ensures (emu_movep_23 s) dsp_wf" "ensures (emu_movep_x_qq s) dsp_wf"
    "ensures (emu_move_x_long s) dsp_wf" "ensures (emu_move_x_imm s) dsp_wf" "ensures (emu_move_y_imm s) dsp_wf"
  unfolding emu_movem_aa_def emu_movem_ea_def emu_movep_0_def emu_movep_1_def emu_movep_23_def emu_movep_x_qq_def
    emu_move_x_long_def emu_move_x_imm_def emu_move_y_imm_def emu_move_xy_imm_def Let_def case_prod_unfold
  using assms by (auto intro!: wf_rules)

end
