(* ===== verification/Dsp_Inv_Exec.thy ===== *)
theory Dsp_Inv_Exec
  imports Dsp_Inv_Instr Dsp_Decode_Props
begin

text \<open>
  The width invariant across decoding, the update of the program counter and interrupts: every
  instruction keeps it, but MAX and two bit instructions on bits that an accumulator does not have.
\<close>

lemma lookup_loop_result:
  "lookup_loop w es r = Some (Some e) \<Longrightarrow> r = Some e \<or> (e \<in> set es \<and> entry_matches w e)"
  by (induction es arbitrary: r) (auto simp: bind_Some_iff split: if_splits option.splits)

lemma lookup_result:
  "lookup_opcode w = Some (Some e) \<Longrightarrow> e \<in> set nonparallel_opcodes \<and> entry_matches w e"
  unfolding lookup_opcode_def by (drule lookup_loop_result) simp

text \<open>The instruction words that break a register width: MAX, and the two bit instructions that
  write a bit above the 24 of an accumulator.\<close>

definition wide_word :: "u32 \<Rightarrow> bool" where
  "wide_word w \<longleftrightarrow>
     (if w < 0x100000 then w AND 0xFFC0E0 \<in> {0x0BC040, 0x0AC060} \<and> 24 \<le> w AND BITMASK 5
        \<and> shr w 8 AND BITMASK 6 \<in> {DSP_REG_A, DSP_REG_B}
      else w AND BITMASK 8 = 0x1d)"

definition wf_entry :: "'o OpcodeEntry \<Rightarrow> bool" where
  "wf_entry e \<longleftrightarrow> (\<forall>s. dsp_wf s \<longrightarrow>
     template e \<notin> {''0000101111DDDDDD010bbbbb'', ''0000101011DDDDDD011bbbbb''} \<or> \<not> wide_bit s \<longrightarrow>
     (case emu_func e of None \<Rightarrow> True | Some f \<Rightarrow> ensures (f s) dsp_wf))"

lemma table_wf: "list_all wf_entry (nonparallel_opcodes :: 'o OpcodeEntry list)"
  unfolding nonparallel_opcodes_def by (simp add: wf_entry_def opcode_def wf_instr)

lemma template_masks:
  "template_mask ''0000101111DDDDDD010bbbbb'' = 0xFFC0E0" "template_match ''0000101111DDDDDD010bbbbb'' = 0x0BC040"
  "template_mask ''0000101011DDDDDD011bbbbb'' = 0xFFC0E0" "template_match ''0000101011DDDDDD011bbbbb'' = 0x0AC060"
  by code_simp+

lemma wide_bit_word:
  assumes "wide_bit s" and "cur_inst s < 0x100000" and "cur_inst s AND 0xFFC0E0 \<in> {0x0BC040, 0x0AC060}"
  shows "wide_word (cur_inst s)"
  using assms by (auto simp: wide_word_def wide_bit_def bit_num_def inst_field_def word_le_nat_alt)

lemma wf_nonparallel:
  fixes s :: "'o DSPState"
  assumes "dsp_wf s" "\<not> wide_word (cur_inst s)" "cur_inst s < 0x100000"
  shows "ensures (exec_nonparallel s) dsp_wf"
proof -
  have "ensures (f s) dsp_wf" if l: "lookup_opcode (cur_inst s) = Some (Some e)" and f: "emu_func e = Some f" for e :: "'o OpcodeEntry" and f
  proof -
    from lookup_result [OF l] have e: "e \<in> set nonparallel_opcodes" "entry_matches (cur_inst s) e" by simp_all
    then have w: "wf_entry e" using table_wf [where ?'o = 'o] by (simp add: list_all_iff)
    have "template e \<notin> {''0000101111DDDDDD010bbbbb'', ''0000101011DDDDDD011bbbbb''} \<or> \<not> wide_bit s"
      using e(2) assms(2,3) wide_bit_word [of s] by (auto simp: entry_matches_def template_masks)
    then show ?thesis using w assms(1) f unfolding wf_entry_def by auto
  qed
  moreover have "ensures (emu_undefined s) dsp_wf" using assms(1) by (rule wf_misc)
  ultimately show ?thesis
    unfolding exec_nonparallel_def
    by - (rule ensures_bind, rule ensuresI, auto split: option.splits)
qed

lemma wf_exec_decoded: "dsp_wf s \<Longrightarrow> \<not> wide_word (cur_inst s) \<Longrightarrow> ensures (exec_decoded s) dsp_wf"
  unfolding exec_decoded_def using wf_parmove [of s] by (auto intro!: wf_rules wf_nonparallel simp: wide_word_def)

subsection \<open>Program counter and interrupts\<close>

lemma wf_update_pc: "dsp_wf s \<Longrightarrow> ensures (dsp_postexecute_update_pc s) dsp_wf"
proof -
  assume w: "dsp_wf s"
  have "dsp_wf (rep_update s)"
    unfolding rep_update_def Let_def
    using w by (auto intro!: wf_rules simp: dsp_wf_reg fits_and_mask fits_numeral_iff)
  then show ?thesis
    unfolding dsp_postexecute_update_pc_def loop_update_def Let_def
    by (auto intro!: wf_rules wf_loop_end simp: fits_and_mask)
qed

lemma dsp_wf_set_ipl: "dsp_wf s \<Longrightarrow> h \<le> 3 \<Longrightarrow> dsp_wf (s\<lparr>interrupt_ipl_to_raise := h\<rparr>)"
  by (simp add: dsp_wf_def ram_wf_def irq_wf_def regs_wf_def)

lemma raised_level:
  assumes "dsp_wf s"
  shows "(word_of_int (if interrupt_ipl s i + 1 > 3 then 3 else interrupt_ipl s i + 1) :: u16) \<le> 3"
proof -
  let ?l = "if interrupt_ipl s i + 1 > 3 then 3 else interrupt_ipl s i + 1"
  have "- 1 \<le> interrupt_ipl s i" using assms by (simp add: dsp_wf_def irq_wf_def)
  then have "?l \<in> {0, 1, 2, 3}" by auto
  then show "(word_of_int ?l :: u16) \<le> 3" by (elim insertE) simp_all
qed

lemma wf_long_interrupt: "dsp_wf s \<Longrightarrow> ensures (long_interrupt s) dsp_wf"
proof -
  assume w: "dsp_wf s"
  have i: "fits 16 (shl (ucast h) 8)" if "h \<le> 3" for h :: u16
  proof -
    have "unat (ucast h :: u32) < 2 ^ 2" using that by (simp add: unat_cast word_le_nat_alt)
    then have "fits 2 (ucast h :: u32)" by (simp add: fits_iff_unat)
    then show ?thesis by (rule fits_shl) simp
  qed
  have "interrupt_ipl_to_raise t \<le> 3" if "dsp_wf t" for t :: "'a DSPState" using that by (simp add: dsp_wf_def irq_wf_def)
  moreover have "interrupt_ipl_to_raise (sr_clear m t) = interrupt_ipl_to_raise t" for m and t :: "'a DSPState"
    by (simp add: sr_clear_def)
  ultimately show ?thesis
    unfolding long_interrupt_def Let_def
    using w by (auto intro!: wf_rules i simp: fits_numeral_iff)
qed

lemma wf_interrupts: "dsp_wf s \<Longrightarrow> ensures (dsp_postexecute_interrupts s) dsp_wf"
proof -
  have raise: "ensures (raise_interrupt t i) dsp_wf" if "dsp_wf t" for t :: "'a DSPState" and i
    unfolding raise_interrupt_def Let_def
    by (intro wf_rules dsp_wf_set_ipl) (use that raised_level [OF that, of i] in \<open>simp_all split: if_splits\<close>)
  have search: "ensures (search_interrupt t) dsp_wf" if "dsp_wf t" for t :: "'a DSPState"
    unfolding search_interrupt_def Let_def using that by (auto intro!: wf_rules raise)
  show "dsp_wf s \<Longrightarrow> ?thesis"
    unfolding dsp_postexecute_interrupts_def prefetch_1_def prefetch_2_def pipeline_dec_def Let_def
    by (auto intro!: wf_rules search ensures_weaken [OF wf_long_interrupt])
qed

lemma wf_execute_instruction:
  assumes "dsp_wf s" and "dsp56k_execute_instruction s = Some t" and "\<not> wide_word (pram s (pc s))"
  shows "dsp_wf t"
proof -
  have "ensures (dsp56k_execute_instruction s) dsp_wf"
  proof -
    have r: "ensures (read_memory_p s (pc s)) (\<lambda>w. w = pram s (pc s))"
      by (auto simp: read_memory_p_def Let_def intro!: wf_rules)
    show ?thesis
      unfolding dsp56k_execute_instruction_def
      by (intro ensures_bind ensures_weaken [OF r] ensures_weaken [OF wf_exec_decoded] ensures_weaken [OF wf_update_pc] wf_interrupts)
        (simp_all add: assms)
  qed
  then show ?thesis using assms(2) by (rule ensuresD)
qed

end
