(* ===== verification/Dsp_Ticks.thy ===== *)
theory Dsp_Ticks
  imports Dsp_Inv_Exec
begin

text \<open>
  Cycle counts: every instruction, whatever its operands, leaves the cycle counter at two or more and
  does not touch the budget of \<open>dsp_run\<close>. The rules \<open>tick_rules\<close> and the lemmas \<open>tick_instr\<close> follow
  the structure of the width invariant, but need no invariant.
\<close>

named_theorems tick_rules \<open>rules of the cycle counters, one per primitive operation\<close>

definition fresh :: "int \<Rightarrow> 'o DSPState \<Rightarrow> bool" where
  "fresh k s \<longleftrightarrow> instr_cycle s = 2 \<and> save_cycles s = k \<and> \<not> executing_for_disasm s"

definition ran :: "int \<Rightarrow> 'o DSPState \<Rightarrow> bool" where
  "ran k s \<longleftrightarrow> 2 \<le> instr_cycle s \<and> save_cycles s = k \<and> \<not> executing_for_disasm s"

lemmas [tick_rules] = ensures_Some ensures_None ensures_bind ensures_assert ensures_if

lemma tick_rule:
  "ensures m (steady s) \<Longrightarrow> (\<And>t. instr_cycle t = instr_cycle s \<Longrightarrow> save_cycles t = save_cycles s \<Longrightarrow>
     executing_for_disasm t = executing_for_disasm s \<Longrightarrow> Q t) \<Longrightarrow> ensures m Q"
  unfolding ensures_def steady_def by blast

lemmas tick_stack_push [tick_rules] = tick_rule [OF stack_push_keeps(2)]
lemmas tick_write_reg [tick_rules] = tick_rule [OF write_reg_keeps(2)]
lemmas tick_write [tick_rules] = tick_rule [OF write_memory_keeps(2)]

lemma tick_stack_pop [tick_rules]:
  fixes s :: "'o DSPState"
  shows "(\<And>p r t. instr_cycle t = instr_cycle s \<Longrightarrow> save_cycles t = save_cycles s \<Longrightarrow>
     executing_for_disasm t = executing_for_disasm s \<Longrightarrow> Q (p, r, t)) \<Longrightarrow> ensures (dsp_stack_pop s) Q"
  by (rule ensures_weaken [OF stack_pop_keeps(2)]) (auto simp: steady_def)

lemma tick_read_p [tick_rules]: "(\<And>v. Q v) \<Longrightarrow> ensures (read_memory_p s a) Q"
  by (simp add: ensures_def)

lemma tick_read [tick_rules]: "(\<And>v. Q v) \<Longrightarrow> ensures (dsp56k_read_memory s sp a) Q"
  by (simp add: ensures_def)

lemma tick_calc_ea [tick_rules]:
  fixes s :: "'o DSPState"
  shows "(\<And>r a t. instr_cycle t = instr_cycle s \<or> instr_cycle t = instr_cycle s + 2 \<Longrightarrow> save_cycles t = save_cycles s \<Longrightarrow>
     executing_for_disasm t = executing_for_disasm s \<Longrightarrow> Q (r, a, t)) \<Longrightarrow> ensures (emu_calc_ea s m) Q"
  by (rule ensures_weaken [OF calc_ea_keeps(2)]) (auto simp: steady_def steady_ea_def)

lemma tick_exec_alu [tick_rules]:
  fixes s :: "'o DSPState"
  shows "(\<And>t. instr_cycle t = instr_cycle s \<or> instr_cycle t = instr_cycle s + 100 \<or> executing_for_disasm s \<Longrightarrow>
     save_cycles t = save_cycles s \<Longrightarrow> executing_for_disasm t = executing_for_disasm s \<Longrightarrow> Q t) \<Longrightarrow>
   ensures (exec_alu s) Q"
  by (rule ensures_weaken [OF exec_alu_steady]) simp

lemma only_regs_ticks:
  "only_regs s t \<Longrightarrow> instr_cycle t = instr_cycle s" "only_regs s t \<Longrightarrow> save_cycles t = save_cycles s"
  "only_regs s t \<Longrightarrow> executing_for_disasm t = executing_for_disasm s"
  by (auto simp: only_regs_def)

lemma only_regs_moves [simp]:
  "only_regs s t \<Longrightarrow> only_regs s (pm_write_accu a v t)" "only_regs s t \<Longrightarrow> only_regs s (pm_write n v t)"
  "only_regs s t \<Longrightarrow> only_regs s (pm_write_raw n v t)" "only_regs s t \<Longrightarrow> only_regs s (pm_long_write n x y t)"
  "only_regs s t \<Longrightarrow> only_regs s (set_carry v t)" "only_regs s t \<Longrightarrow> only_regs s (lua_write v t)"
  by (simp_all add: pm_write_accu_def pm_write_def pm_write_raw_def pm_long_write_def set_carry_def lua_write_def Let_def)

lemma only_regs_trans: "only_regs s t \<Longrightarrow> only_regs t u \<Longrightarrow> only_regs s u"
  by (auto simp: only_regs_def)

lemma only_regs_accu [simp]: "only_regs s (snd (snd (emu_pm_read_accu24 s n)))"
  by (simp add: emu_pm_read_accu24_def Let_def)

lemma only_regs_reads [simp]: "only_regs s (snd (pm_read s n))" "only_regs s (snd (snd (pm_long_read n s)))"
  by (simp_all add: pm_read_def pm_long_read_def Let_def case_prod_unfold only_regs_trans [OF only_regs_accu only_regs_accu])

lemmas ticks_of [simp] =
  only_regs_ticks [OF only_regs_ops(1) [OF only_regs_refl]] only_regs_ticks [OF only_regs_ops(2) [OF only_regs_refl]]
  only_regs_ticks [OF only_regs_ops(3) [OF only_regs_refl]] only_regs_ticks [OF only_regs_ops(4) [OF only_regs_refl]]
  only_regs_ticks [OF only_regs_ops(5) [OF only_regs_refl]] only_regs_ticks [OF only_regs_ops(6) [OF only_regs_refl]]
  only_regs_ticks [OF only_regs_moves(1) [OF only_regs_refl]] only_regs_ticks [OF only_regs_moves(2) [OF only_regs_refl]]
  only_regs_ticks [OF only_regs_moves(3) [OF only_regs_refl]] only_regs_ticks [OF only_regs_moves(4) [OF only_regs_refl]]
  only_regs_ticks [OF only_regs_moves(5) [OF only_regs_refl]] only_regs_ticks [OF only_regs_moves(6) [OF only_regs_refl]]
  only_regs_ticks [OF only_regs_accu] only_regs_ticks [OF only_regs_reads(1)] only_regs_ticks [OF only_regs_reads(2)]
  only_regs_ticks [OF alu_families_only_regs(1)] only_regs_ticks [OF alu_families_only_regs(2)]
  only_regs_ticks [OF alu_families_only_regs(5)]

lemma ticks_other [simp]:
  "instr_cycle (add_cycles n s) = instr_cycle s + n" "save_cycles (add_cycles n s) = save_cycles s"
  "executing_for_disasm (add_cycles n s) = executing_for_disasm s"
  "instr_cycle (goto_pc p s) = instr_cycle s" "save_cycles (goto_pc p s) = save_cycles s"
  "executing_for_disasm (goto_pc p s) = executing_for_disasm s"
  "instr_cycle (branch_by p s) = instr_cycle s" "save_cycles (branch_by p s) = save_cycles s"
  "executing_for_disasm (branch_by p s) = executing_for_disasm s"
  "instr_cycle (rep_start s) = instr_cycle s" "save_cycles (rep_start s) = save_cycles s"
  "executing_for_disasm (rep_start s) = executing_for_disasm s"
  "instr_cycle (dsp56k_add_interrupt s i) = instr_cycle s" "save_cycles (dsp56k_add_interrupt s i) = save_cycles s"
  "executing_for_disasm (dsp56k_add_interrupt s i) = executing_for_disasm s"
  by (simp_all add: add_cycles_def goto_pc_def branch_by_def rep_start_def dsp56k_add_interrupt_def)

lemma tick_next_word [tick_rules]:
  "(\<And>x. Q (x, s\<lparr>cur_inst_len := cur_inst_len s + 1\<rparr>)) \<Longrightarrow> ensures (next_word s) Q"
  unfolding next_word_def by (intro tick_rules)

lemma tick_pm:
  assumes "fresh k s"
  shows "ensures (emu_pm_0 s) (ran k)" "ensures (emu_pm_1 s) (ran k)" "ensures (emu_pm_2 s) (ran k)"
    "ensures (emu_pm_3 s) (ran k)" "ensures (emu_pm_4x s) (ran k)" "ensures (emu_pm_5 s) (ran k)"
    "ensures (emu_pm_8 s) (ran k)"
  using assms
  unfolding emu_pm_0_def emu_pm_1_def emu_pm_2_def emu_pm_2_2_def emu_pm_3_def emu_pm_4x_def emu_pm_5_def emu_pm_8_def
    Let_def case_prod_unfold fresh_def ran_def
  by - (intro tick_rules; elim conjE disjE; simp)+

lemma tick_parmove:
  fixes s :: "'o DSPState"
  assumes "fresh k s"
  shows "ensures (exec_parmove s) (ran k)"
proof -
  have "unat (shr (cur_inst s) 20 AND BITMASK 4) < length (opcodes_parmove :: ('o DSPState \<Rightarrow> _) list)"
    unfolding unat_and_mask by (simp add: opcodes_parmove_def)
  moreover have "list_all (\<lambda>f. ensures (f s) (ran k)) opcodes_parmove"
    using tick_pm [OF assms] by (simp add: opcodes_parmove_def emu_pm_4_def)
  ultimately show ?thesis unfolding exec_parmove_def by (rule nth_cases)
qed

named_theorems tick_instr \<open>cycle counts of the instructions\<close>

lemma tick_arith [tick_instr]:
  assumes "fresh k s"
  shows "ensures (emu_add_imm s) (ran k)" "ensures (emu_add_long s) (ran k)" "ensures (emu_sub_imm s) (ran k)"
    "ensures (emu_sub_long s) (ran k)" "ensures (emu_cmp_imm s) (ran k)" "ensures (emu_cmp_long s) (ran k)"
    "ensures (emu_inc s) (ran k)" "ensures (emu_dec s) (ran k)" "ensures (emu_and_imm s) (ran k)"
    "ensures (emu_and_long s) (ran k)" "ensures (emu_or_long s) (ran k)" "ensures (emu_andi s) (ran k)"
    "ensures (emu_ori s) (ran k)" "ensures (emu_asl_imm s) (ran k)" "ensures (emu_asr_imm s) (ran k)"
    "ensures (emu_cmpu s) (ran k)" "ensures (emu_div s) (ran k)" "ensures (emu_mpyi s) (ran k)"
    "ensures (emu_norm s) (ran k)" "ensures (emu_tcc s) (ran k)"
  using assms
  unfolding emu_add_imm_def emu_add_long_def emu_sub_imm_def emu_sub_long_def emu_cmp_imm_def emu_cmp_long_def
    emu_inc_def emu_dec_def emu_and_imm_def emu_and_long_def emu_or_long_def emu_andi_def emu_ori_def emu_asl_imm_def
    emu_asr_imm_def emu_cmpu_def emu_div_def emu_mpyi_def emu_norm_def emu_tcc_def emu_add_x_def emu_sub_x_def emu_and_x_def
    Let_def case_prod_unfold fresh_def ran_def
  by - (intro tick_rules; simp)+


text \<open>Operands: an effective address may cost two cycles.\<close>

definition tick_step :: "'o DSPState \<Rightarrow> 'o DSPState \<Rightarrow> bool" where
  "tick_step s t \<longleftrightarrow> (instr_cycle t = instr_cycle s \<or> instr_cycle t = instr_cycle s + 2) \<and> save_cycles t = save_cycles s
     \<and> executing_for_disasm t = executing_for_disasm s"

definition tick_source :: "('o DSPState \<Rightarrow> (u32 \<times> 'o DSPState) option) \<Rightarrow> bool" where
  "tick_source rd \<longleftrightarrow> (\<forall>s. ensures (rd s) (\<lambda>(v, t). tick_step s t))"

lemma tick_source_rule:
  "tick_source rd \<Longrightarrow> (\<And>v t. tick_step s t \<Longrightarrow> Q (v, t)) \<Longrightarrow> ensures (rd s) Q"
  unfolding tick_source_def by (blast intro: ensures_weaken)

lemma tick_sources [simp]: "tick_source operand_aa" "tick_source operand_ea" "tick_source operand_pp"
  "tick_source read_operand_reg"
  unfolding tick_source_def operand_aa_def operand_ea_def operand_pp_def read_operand_reg_def case_prod_unfold
  by - (intro allI tick_rules; simp add: tick_step_def)+

lemma tick_read_operand [simp]: "tick_source operand \<Longrightarrow> tick_source (read_operand operand)"
proof -
  assume o: "tick_source operand"
  show ?thesis
    unfolding tick_source_def read_operand_def case_prod_unfold by (intro allI tick_rules tick_source_rule [OF o]) simp
qed

lemma tick_bits:
  assumes "fresh k s"
  shows "tick_source operand \<Longrightarrow> ensures (bit_op_mem operand f s) (ran k)" "ensures (bit_op_reg f s) (ran k)"
    "tick_source rd \<Longrightarrow> ensures (bit_test rd s) (ran k)"
proof -
  show "ensures (bit_op_mem operand f s) (ran k)" if "tick_source operand"
    unfolding bit_op_mem_def Let_def case_prod_unfold ran_def
    by (intro tick_rules tick_source_rule [OF that]; use assms in \<open>auto simp: tick_step_def fresh_def\<close>)
  show "ensures (bit_test rd s) (ran k)" if "tick_source rd"
    unfolding bit_test_def Let_def case_prod_unfold ran_def
    by (intro tick_rules tick_source_rule [OF that]; use assms in \<open>auto simp: tick_step_def fresh_def\<close>)
  show "ensures (bit_op_reg f s) (ran k)"
    unfolding bit_op_reg_def Let_def case_prod_unfold ran_def read_operand_reg_def
    by (intro tick_rules; use assms in \<open>simp add: fresh_def\<close>)
qed

lemma tick_bit_instr [tick_instr]:
  assumes "fresh k s"
  shows "ensures (emu_bchg_aa s) (ran k)" "ensures (emu_bchg_ea s) (ran k)" "ensures (emu_bchg_pp s) (ran k)"
    "ensures (emu_bchg_reg s) (ran k)" "ensures (emu_bclr_aa s) (ran k)" "ensures (emu_bclr_ea s) (ran k)"
    "ensures (emu_bclr_pp s) (ran k)" "ensures (emu_bclr_reg s) (ran k)" "ensures (emu_bset_aa s) (ran k)"
    "ensures (emu_bset_ea s) (ran k)" "ensures (emu_bset_pp s) (ran k)" "ensures (emu_bset_reg s) (ran k)"
    "ensures (emu_btst_aa s) (ran k)" "ensures (emu_btst_ea s) (ran k)" "ensures (emu_btst_pp s) (ran k)"
    "ensures (emu_btst_reg s) (ran k)"
  using tick_bits [OF assms]
  by (simp_all add: emu_bchg_aa_def emu_bchg_ea_def emu_bchg_pp_def emu_bchg_reg_def emu_bclr_aa_def emu_bclr_ea_def
      emu_bclr_pp_def emu_bclr_reg_def emu_bset_aa_def emu_bset_ea_def emu_bset_pp_def emu_bset_reg_def
      emu_btst_aa_def emu_btst_ea_def emu_btst_pp_def emu_btst_reg_def)

lemma tick_push [tick_rules]:
  fixes s :: "'o DSPState"
  assumes "\<And>t. instr_cycle t = instr_cycle s \<Longrightarrow> save_cycles t = save_cycles s \<Longrightarrow>
     executing_for_disasm t = executing_for_disasm s \<Longrightarrow> Q t"
  shows "ensures (push_return p s) Q" "ensures (call_push s) Q" "ensures (push_loop s) Q" "ensures (loop_flag_on s) Q"
    "ensures (do_absolute s) Q" "ensures (do_relative s) Q"
proof -
  show "ensures (push_return p s) Q" "ensures (push_loop s) Q"
    unfolding push_return_def push_loop_def by (rule tick_stack_push; rule assms; assumption)+
  show "ensures (call_push s) Q"
    unfolding call_push_def push_return_def by (intro tick_rules assms) simp_all
  show "ensures (loop_flag_on s) Q" "ensures (do_absolute s) Q" "ensures (do_relative s) Q"
    unfolding loop_flag_on_def do_absolute_def do_relative_def push_return_def push_loop_def Let_def case_prod_unfold
    by (intro tick_rules assms; simp)+
qed

lemma tick_operand_ea [tick_rules]:
  "(\<And>a t. tick_step s t \<Longrightarrow> Q (a, t)) \<Longrightarrow> ensures (operand_ea s) Q"
  "(\<And>a t. tick_step s t \<Longrightarrow> Q (a, t)) \<Longrightarrow> ensures (read_operand operand_ea s) Q"
  "(\<And>a t. tick_step s t \<Longrightarrow> Q (a, t)) \<Longrightarrow> ensures (read_operand operand_aa s) Q"
  "(\<And>a t. tick_step s t \<Longrightarrow> Q (a, t)) \<Longrightarrow> ensures (read_operand_reg s) Q"
  by (rule tick_source_rule; simp)+

lemma tick_flow [tick_instr]:
  assumes "fresh k s"
  shows "ensures (emu_bcc_long s) (ran k)" "ensures (emu_bcc_imm s) (ran k)" "ensures (emu_bra_long s) (ran k)"
    "ensures (emu_bra_imm s) (ran k)" "ensures (emu_bsr_long s) (ran k)" "ensures (emu_bsr_imm s) (ran k)"
    "ensures (emu_jcc_imm s) (ran k)" "ensures (emu_jcc_ea s) (ran k)" "ensures (emu_jmp_imm s) (ran k)"
    "ensures (emu_jmp_ea s) (ran k)" "ensures (emu_jscc_imm s) (ran k)" "ensures (emu_jscc_ea s) (ran k)"
    "ensures (emu_jsr_imm s) (ran k)" "ensures (emu_jsr_ea s) (ran k)"
  unfolding emu_bcc_long_def emu_bcc_imm_def emu_bra_long_def emu_bra_imm_def emu_bsr_long_def emu_bsr_imm_def
    emu_jcc_imm_def emu_jcc_ea_def emu_jmp_imm_def emu_jmp_ea_def emu_jscc_imm_def emu_jscc_ea_def
    emu_jsr_imm_def emu_jsr_ea_def Let_def case_prod_unfold ran_def
  by (intro tick_rules; use assms in \<open>auto simp: tick_step_def fresh_def\<close>)+

lemma tick_bit_jumps:
  assumes "fresh k s" and rd: "tick_source rd"
  shows "ensures (branch_bit rd b s) (ran k)" "ensures (jump_bit rd b s) (ran k)" "ensures (call_bit rd b s) (ran k)"
  unfolding branch_bit_def jump_bit_def call_bit_def Let_def case_prod_unfold ran_def
  by (intro tick_rules tick_source_rule [OF rd]; use assms(1) in \<open>auto simp: tick_step_def fresh_def\<close>)+

lemma tick_jumps [tick_instr]:
  assumes "fresh k s"
  shows "ensures (emu_brclr_pp s) (ran k)" "ensures (emu_brclr_reg s) (ran k)" "ensures (emu_brset_pp s) (ran k)"
    "ensures (emu_brset_reg s) (ran k)" "ensures (emu_jclr_aa s) (ran k)" "ensures (emu_jclr_ea s) (ran k)"
    "ensures (emu_jclr_pp s) (ran k)" "ensures (emu_jclr_reg s) (ran k)" "ensures (emu_jset_aa s) (ran k)"
    "ensures (emu_jset_ea s) (ran k)" "ensures (emu_jset_pp s) (ran k)" "ensures (emu_jset_reg s) (ran k)"
    "ensures (emu_jsclr_aa s) (ran k)" "ensures (emu_jsclr_ea s) (ran k)" "ensures (emu_jsclr_pp s) (ran k)"
    "ensures (emu_jsclr_reg s) (ran k)" "ensures (emu_jsset_aa s) (ran k)" "ensures (emu_jsset_ea s) (ran k)"
    "ensures (emu_jsset_pp s) (ran k)" "ensures (emu_jsset_reg s) (ran k)"
  using tick_bit_jumps [OF assms]
  by (simp_all add: emu_brclr_pp_def emu_brclr_reg_def emu_brset_pp_def emu_brset_reg_def emu_jclr_aa_def emu_jclr_ea_def
      emu_jclr_pp_def emu_jclr_reg_def emu_jset_aa_def emu_jset_ea_def emu_jset_pp_def emu_jset_reg_def
      emu_jsclr_aa_def emu_jsclr_ea_def emu_jsclr_pp_def emu_jsclr_reg_def emu_jsset_aa_def emu_jsset_ea_def
      emu_jsset_pp_def emu_jsset_reg_def)

lemma tick_loops [tick_instr]:
  assumes "fresh k s"
  shows "ensures (emu_do_aa s) (ran k)" "ensures (emu_do_imm s) (ran k)" "ensures (emu_do_ea s) (ran k)"
    "ensures (emu_do_reg s) (ran k)" "ensures (emu_dor_imm s) (ran k)" "ensures (emu_dor_reg s) (ran k)"
    "ensures (emu_rep_aa s) (ran k)" "ensures (emu_rep_imm s) (ran k)" "ensures (emu_rep_ea s) (ran k)"
    "ensures (emu_rep_reg s) (ran k)" "ensures (emu_rti s) (ran k)" "ensures (emu_rts s) (ran k)"
    "ensures (emu_illegal s) (ran k)" "ensures (emu_nop s) (ran k)" "ensures (emu_reset s) (ran k)"
    "ensures (emu_stop s) (ran k)" "ensures (emu_wait s) (ran k)"  "ensures (emu_undefined s) (ran k)"
  unfolding emu_do_aa_def emu_do_imm_def emu_do_ea_def emu_do_reg_def emu_dor_imm_def emu_dor_reg_def
    emu_rep_aa_def emu_rep_imm_def emu_rep_ea_def emu_rep_reg_def emu_rti_def emu_rts_def emu_illegal_def emu_nop_def
    emu_reset_def emu_stop_def emu_wait_def emu_undefined_def Let_def case_prod_unfold ran_def
  by (intro tick_rules; use assms in \<open>auto simp: tick_step_def fresh_def\<close>)+

lemma loop_end_ticks:
  fixes s :: "'o DSPState"
  shows "ensures (loop_end s) (\<lambda>t. instr_cycle t = instr_cycle s \<and> save_cycles t = save_cycles s
    \<and> executing_for_disasm t = executing_for_disasm s)"
  unfolding loop_end_def Let_def case_prod_unfold by (intro tick_rules) simp

lemma tick_enddo [tick_instr]: "fresh k s \<Longrightarrow> ensures (emu_enddo s) (ran k)"
  unfolding emu_enddo_def by (rule ensures_weaken [OF loop_end_ticks]) (simp add: fresh_def ran_def)

lemma tick_move_reads [tick_rules]:
  fixes s :: "'o DSPState"
  assumes "\<And>v t. instr_cycle t = instr_cycle s \<Longrightarrow> save_cycles t = save_cycles s \<Longrightarrow>
     executing_for_disasm t = executing_for_disasm s \<Longrightarrow> Q (v, t)"
  shows "ensures (movec_read s n) Q" "ensures (movem_read s n) Q"
proof -
  have "Q (pm_read s n)" using assms [of "snd (pm_read s n)" "fst (pm_read s n)"] by simp
  then show "ensures (movec_read s n) Q" "ensures (movem_read s n) Q"
    unfolding movec_read_def movem_read_def case_prod_unfold by (intro tick_rules assms; simp)+
qed

lemma tick_write_masked [tick_rules]:
  fixes s :: "'o DSPState"
  shows "(\<And>t. instr_cycle t = instr_cycle s \<Longrightarrow> save_cycles t = save_cycles s \<Longrightarrow>
     executing_for_disasm t = executing_for_disasm s \<Longrightarrow> Q t) \<Longrightarrow> ensures (write_masked s n v) Q"
  unfolding write_masked_def by (rule tick_write_reg)

lemma tick_moves [tick_instr]:
  assumes "fresh k s"
  shows "ensures (emu_lua s) (ran k)" "ensures (emu_lua_rel s) (ran k)"
    "ensures (emu_movec_reg s) (ran k)" "ensures (emu_movec_aa s) (ran k)" "ensures (emu_movec_imm s) (ran k)"
    "ensures (emu_movec_ea s) (ran k)" "ensures (emu_movem_aa s) (ran k)" "ensures (emu_movem_ea s) (ran k)"
    "ensures (emu_movep_0 s) (ran k)" "ensures (emu_movep_1 s) (ran k)" "ensures (emu_movep_23 s) (ran k)"
    "ensures (emu_movep_x_qq s) (ran k)" "ensures (emu_move_x_long s) (ran k)" "ensures (emu_move_x_imm s) (ran k)"
    "ensures (emu_move_y_imm s) (ran k)"
  unfolding emu_lua_def emu_lua_rel_def emu_movec_reg_def emu_movec_aa_def emu_movec_imm_def emu_movec_ea_def
    emu_movem_aa_def emu_movem_ea_def movem_transfer_def emu_movep_0_def emu_movep_1_def emu_movep_23_def
    emu_movep_x_qq_def movep_transfer_def emu_move_x_long_def emu_move_x_imm_def emu_move_y_imm_def emu_move_xy_imm_def
    move_transfer_def Let_def case_prod_unfold ran_def
  by (intro tick_rules; use assms in \<open>auto simp: tick_step_def fresh_def\<close>)+

lemma tick_table:
  "list_all (\<lambda>e. \<forall>s k. fresh k s \<longrightarrow> (case emu_func e of None \<Rightarrow> True | Some f \<Rightarrow> ensures (f s) (ran k)))
     (nonparallel_opcodes :: 'o OpcodeEntry list)"
  unfolding nonparallel_opcodes_def by (simp add: opcode_def tick_instr)

lemma tick_exec_decoded:
  fixes s :: "'o DSPState"
  assumes "fresh k s"
  shows "ensures (exec_decoded s) (ran k)"
proof -
  have "ensures (f s) (ran k)"
    if "lookup_opcode (cur_inst s) = Some (Some e)" and "emu_func e = Some f" for e :: "'o OpcodeEntry" and f
    using lookup_result [OF that(1)] tick_table [where ?'o = 'o] that(2) assms unfolding list_all_iff by fastforce
  moreover have "ensures (emu_undefined s) (ran k)" using assms by (rule tick_loops)
  ultimately have "ensures (exec_nonparallel s) (ran k)"
    unfolding exec_nonparallel_def by - (rule ensures_bind, rule ensuresI, auto split: option.splits)
  then show ?thesis unfolding exec_decoded_def using tick_parmove [OF assms] by (intro ensures_if)
qed

lemma ran_cong: "ran k s \<Longrightarrow> instr_cycle t = instr_cycle s \<Longrightarrow> save_cycles t = save_cycles s \<Longrightarrow>
   executing_for_disasm t = executing_for_disasm s \<Longrightarrow> ran k t"
  by (simp add: ran_def)

lemma tick_update_pc: "ran k s \<Longrightarrow> ensures (dsp_postexecute_update_pc s) (ran k)"
proof -
  assume r: "ran k s"
  let ?s = "rep_update s"
  have "instr_cycle ?s = instr_cycle s \<and> save_cycles ?s = save_cycles s \<and> executing_for_disasm ?s = executing_for_disasm s"
    by (simp add: rep_update_def Let_def)
  then have "ran k ?s" using r by (simp add: ran_def)
  then show ?thesis
    unfolding dsp_postexecute_update_pc_def loop_update_def Let_def
    by (intro ensures_if ensures_Some ensures_weaken [OF loop_end_ticks]) (simp_all add: ran_def)
qed

lemma tick_interrupts: "ran k s \<Longrightarrow> ensures (dsp_postexecute_interrupts s) (ran k)"
  unfolding dsp_postexecute_interrupts_def prefetch_1_def prefetch_2_def pipeline_dec_def long_interrupt_def search_interrupt_def
    raise_interrupt_def ran_def Let_def
  by (intro tick_rules; simp)

lemma tick_execute_instruction:
  assumes "dsp56k_execute_instruction s = Some t" and "\<not> executing_for_disasm s"
  shows "ran (save_cycles s) t"
proof -
  have f: "fresh (save_cycles s) (s\<lparr>cur_inst := w, cur_inst_len := 1, instr_cycle := 2\<rparr>)" for w
    using assms(2) by (simp add: fresh_def)
  have "ensures (dsp56k_execute_instruction s) (ran (save_cycles s))"
    unfolding dsp56k_execute_instruction_def
    by (intro ensures_bind tick_read_p ensures_weaken [OF tick_exec_decoded [OF f]] ensures_weaken [OF tick_update_pc]
        tick_interrupts)
  then show ?thesis using assms(1) by (rule ensuresD)
qed

end
