(* ===== verification/Dsp_Run.thy ===== *)
theory Dsp_Run
  imports Dsp_Ticks
begin

text \<open>
  The processor as a whole: the states it reaches keep the width invariant, and \<open>dsp_run\<close> returns
  unless an instruction does not.
\<close>

subsection \<open>Reachable states\<close>

text \<open>The states reached from \<open>dsp_init\<close> by the entry points of \<open>dsp.c\<close>, when every instruction word that is
  executed satisfies \<open>P\<close>; with \<open>\<lambda>w. True\<close> these are all states that the processor reaches.\<close>

inductive dsp_reach :: "(u32 \<Rightarrow> bool) \<Rightarrow> 'o DSPState \<Rightarrow> bool" for P where
  reach_init: "dsp_reach P (dsp_init opaque scratch fifo)"
| reach_reset: "dsp_reach P s \<Longrightarrow> dsp_reach P (dsp_reset s)"
| reach_step: "dsp_reach P s \<Longrightarrow> dsp_step s = Some t \<Longrightarrow> P (pram s (pc s)) \<Longrightarrow> dsp_reach P t"
| reach_budget: "dsp_reach P s \<Longrightarrow> dsp_reach P (s\<lparr>save_cycles := n\<rparr>)"
| reach_bootstrap: "dsp_reach P s \<Longrightarrow> dsp_bootstrap s = Some t \<Longrightarrow> dsp_reach P t"
| reach_frame: "dsp_reach P s \<Longrightarrow> dsp_reach P (dsp_start_frame s)"
| reach_write: "dsp_reach P s \<Longrightarrow> dsp_write_memory s sp a v = Some t \<Longrightarrow> dsp_reach P t"

lemma dsp_wf_reset: "dsp_wf s \<Longrightarrow> dsp_wf (dsp_reset s)"
  by (auto simp: dsp_wf_def dsp_reset_def dsp56k_reset_cpu_def regs_wf_def reg_def reg_bits_def ram_wf_def irq_wf_def
      fits_numeral_iff)

lemma dsp_wf_bootstrap: "dsp_wf s \<Longrightarrow> dsp_bootstrap s = Some t \<Longrightarrow> dsp_wf t"
  using dsp_wf_set_opaque [of s] by (auto simp: dsp_bootstrap_def Let_def bind_Some_iff)

lemma dsp_wf_frame_start: "dsp_wf s \<Longrightarrow> dsp_wf (dsp_start_frame s)"
  by (simp add: dsp_start_frame_def dsp_wf_def ram_wf_def irq_wf_def regs_wf_def fits_or fits_numeral_iff)

text \<open>C13: the width invariant, for programs without the instructions that break it. In every state that the processor reaches from
  \<open>dsp_init\<close> by executing instruction words other than MAX and BSET/BCHG of a bit above 23 of an accumulator
  (\<open>wide_word\<close>), by resets, bootstraps, frame interrupts and memory writes of its owner, every register and stack entry
  fits its width (\<open>reg_bits\<close>: that of the hardware, but 24 bits for the address and
  offset registers and the loop counter, into which LUA and REP store 24 bits), every word of the X and Y memories and of the mixing
  buffer fits 24 bits, the interrupt levels stay in range and the registers of the DMA engine fit 24 bits. The words of the program
  memory are not part of the invariant: the bootstrap copies them from the scratch memory as they are.\<close>

theorem reachable_widths: "dsp_reach (\<lambda>w. \<not> wide_word w) s \<Longrightarrow> dsp_wf s"
proof (induction rule: dsp_reach.induct)
  case (reach_step s t)
  then show ?case using wf_execute_instruction unfolding dsp_step_def by blast
next
  case (reach_write s sp a v t)
  then show ?case by (auto simp: dsp_write_memory_def bind_Some_iff dest: ensuresD [OF write_memory_keeps(1)])
qed (simp_all add: dsp_wf_init dsp_wf_reset dsp_wf_bootstrap dsp_wf_frame_start)

subsection \<open>Running for a number of cycles\<close>

primrec run_iter :: "nat \<Rightarrow> 'o DSPState \<Rightarrow> 'o DSPState option" where
  "run_iter 0 s = Some s"
| "run_iter (Suc n) s = do {
     s \<leftarrow> dsp56k_execute_instruction s;
     run_iter n (s\<lparr>save_cycles := save_cycles s - uint (instr_cycle s)\<rparr>) }"

lemma two_le_uint: "2 \<le> (c::u16) \<Longrightarrow> 2 \<le> uint c"
  by (simp add: word_le_def)

lemma run_charge:
  assumes "dsp56k_execute_instruction s = Some u" and "\<not> executing_for_disasm s"
  shows "save_cycles u = save_cycles s" "2 \<le> uint (instr_cycle u)" "\<not> executing_for_disasm u"
  using tick_execute_instruction [OF assms] by (simp_all add: ran_def two_le_uint)

lemma run_iter_budget:
  "run_iter n s = Some t \<Longrightarrow> \<not> executing_for_disasm s \<Longrightarrow> save_cycles t + 2 * int n \<le> save_cycles s"
proof (induction n arbitrary: s)
  case (Suc n)
  then obtain u where u: "dsp56k_execute_instruction s = Some u"
    and r: "run_iter n (u\<lparr>save_cycles := save_cycles u - uint (instr_cycle u)\<rparr>) = Some t" by (auto simp: bind_Some_iff)
  show ?case using Suc.IH [OF r] run_charge [OF u Suc.prems(2)] by simp
qed simp

text \<open>C14: \<open>dsp_run\<close> does not run for ever by itself. From every state outside disassembly, its loop
  either returns, after some number of instructions and with the cycle budget used up, or fails to
  return because an instruction aborts (or hangs in the DMA engine) before the budget is used up,
  after fewer instructions than half the budget.\<close>

theorem dsp_run_ends:
  assumes "\<not> executing_for_disasm s"
  shows "(\<exists>n t. dsp_run_loop s = Some t \<and> run_iter n s = Some t \<and> save_cycles t \<le> 0)
    \<or> (\<exists>n u. dsp_run_loop s = None \<and> run_iter n s = Some u \<and> 0 < save_cycles u \<and> 2 * int n < save_cycles s
         \<and> dsp56k_execute_instruction u = None)"
  using assms
proof (induction "nat (save_cycles s)" arbitrary: s rule: less_induct)
  case less
  show ?case
  proof (cases "save_cycles s \<le> 0")
    case True
    then have "dsp_run_loop s = Some s" by (subst dsp_run_loop.simps) simp
    then show ?thesis using True by (intro disjI1 exI [of _ 0] exI [of _ s]) simp
  next
    case False
    show ?thesis
    proof (cases "dsp56k_execute_instruction s")
      case None
      then have "dsp_run_loop s = None" using False by (subst dsp_run_loop.simps) simp
      then show ?thesis using False None by (intro disjI2 exI [of _ 0] exI [of _ s]) simp
    next
      case (Some u)
      let ?u = "u\<lparr>save_cycles := save_cycles u - uint (instr_cycle u)\<rparr>"
      note c = run_charge [OF Some less.prems]
      have l: "dsp_run_loop s = dsp_run_loop ?u" using False Some by (subst dsp_run_loop.simps) simp
      have i: "run_iter (Suc n) s = run_iter n ?u" for n using Some by simp
      have "nat (save_cycles ?u) < nat (save_cycles s)" using c False by simp
      from less.hyps [OF this] c(3)
      have "(\<exists>n t. dsp_run_loop ?u = Some t \<and> run_iter n ?u = Some t \<and> save_cycles t \<le> 0)
        \<or> (\<exists>n v. dsp_run_loop ?u = None \<and> run_iter n ?u = Some v \<and> 0 < save_cycles v \<and> 2 * int n < save_cycles ?u
             \<and> dsp56k_execute_instruction v = None)" by simp
      then show ?thesis
      proof (elim disjE exE)
        fix n t assume "dsp_run_loop ?u = Some t \<and> run_iter n ?u = Some t \<and> save_cycles t \<le> 0"
        then show ?thesis unfolding l i [symmetric] by blast
      next
        fix n v assume v: "dsp_run_loop ?u = None \<and> run_iter n ?u = Some v \<and> 0 < save_cycles v \<and> 2 * int n < save_cycles ?u
          \<and> dsp56k_execute_instruction v = None"
        then have "2 * int (Suc n) < save_cycles s" using c by simp
        then show ?thesis using v unfolding l i [symmetric] by blast
      qed
    qed
  qed
qed

subsection \<open>A program on a fresh processor\<close>

definition demo_program :: "u32 list \<Rightarrow> unit DSPState" where
  "demo_program ws = (dsp_init () demo_scratch demo_scratch)
     \<lparr>pram := (\<lambda>a. if unat a < length ws then ws ! unat a else 0)\<rparr>"

text \<open>Evaluation of a step by rewriting; a witness adds the definition of its instruction.\<close>

lemmas step_eval = dsp_step_def dsp56k_execute_instruction_def read_memory_p_def exec_decoded_def exec_parmove_def
  opcodes_parmove_def exec_alu_def dsp_postexecute_update_pc_def rep_update_def loop_update_def
  dsp_postexecute_interrupts_def search_interrupt_def Let_def

lemma opcodes_alu_clr: "opcodes_alu ! 19 = Some \<circ> emu_clr_a" by (simp add: opcodes_alu_def)

lemma demo_program_fields [simp]:
  "pc (demo_program ws) = 0" "pram (demo_program ws) a = (if unat a < length ws then ws ! unat a else 0)"
  "loop_rep (demo_program ws) = 0" "interrupt_state (demo_program ws) = 0" "interrupt_counter (demo_program ws) = 0"
  "reg DSP_REG_SR (demo_program ws) = 0" "executing_for_disasm (demo_program ws) = False"
  by (simp_all add: demo_program_def dsp_init_defs reg_def)

lemma demo_step_clr:
  "dsp56k_execute_instruction (demo_program [0x200013]\<lparr>save_cycles := n\<rparr>) \<noteq> None"
  by (simp add: step_eval emu_pm_2_def opcodes_alu_clr emu_clr_a_def alu_clr_def sr_set_def sr_clear_def
      store56_def acc0_def acc1_def acc2_def)

theorem reachable_widths_witness:
  "\<exists>t u. dsp_write_memory (dsp_init () demo_scratch demo_scratch) CHR ''P'' 0 0x200013 = Some t
    \<and> dsp_step t = Some u \<and> dsp_wf u"
proof -
  let ?s = "dsp_init () demo_scratch demo_scratch"
  let ?t = "?s\<lparr>pram := (pram ?s)(0 := 0x200013)\<rparr>"
  have w: "dsp_write_memory ?s CHR ''P'' 0 0x200013 = Some ?t"
    by (simp add: dsp_write_memory_def space_id_def dsp56k_write_memory_cb_def write_memory_raw_cb_def)
  have e: "?t = demo_program [0x200013]\<lparr>save_cycles := 0\<rparr>"
    by (auto simp: demo_program_def dsp_init_defs fun_eq_iff unat_gt_0)
  then obtain u where u: "dsp_step ?t = Some u" using demo_step_clr [of 0] by (auto simp: dsp_step_def)
  have "dsp_reach (\<lambda>w. \<not> wide_word w) ?t" by (rule reach_write [OF reach_init w])
  then have "dsp_reach (\<lambda>w. \<not> wide_word w) u" by (rule reach_step [OF _ u]) (simp add: wide_word_def dsp_init_defs)
  then have "dsp_wf u" by (rule reachable_widths)
  with w u show ?thesis by blast
qed

theorem dsp_run_ends_witness:
  "\<exists>n t. dsp_run_loop (demo_program [0x200013]\<lparr>save_cycles := 1\<rparr>) = Some t
    \<and> run_iter n (demo_program [0x200013]\<lparr>save_cycles := 1\<rparr>) = Some t \<and> save_cycles t \<le> 0"
proof -
  let ?s = "demo_program [0x200013]\<lparr>save_cycles := 1\<rparr>"
  have d: "\<not> executing_for_disasm ?s" by (simp add: demo_program_def dsp_init_defs)
  have "n = 0" if "2 * int n < save_cycles ?s" for n using that by simp
  then have "\<not> (\<exists>n u. dsp_run_loop ?s = None \<and> run_iter n ?s = Some u \<and> 0 < save_cycles u \<and> 2 * int n < save_cycles ?s
       \<and> dsp56k_execute_instruction u = None)" using demo_step_clr [of 1] by fastforce
  then show ?thesis using dsp_run_ends [OF d] by blast
qed

end
