(* ===== verification/Dsp_Flow_Props.thy ===== *)
theory Dsp_Flow_Props
  imports Dsp_Run
begin

text \<open>
  Control flow of the processor across instructions: subroutine calls and returns, repeated
  instructions (REP) and hardware loops (DO), with the program counter update after each instruction.
\<close>

subsection \<open>Calls and returns\<close>

lemma push_return_frame:
  fixes s :: "'o DSPState"
  assumes "stack_wf s" and "length (stack_frames s) < 15"
  obtains t where "push_return p s = Some t" "stack_wf t"
    "stack_frames t = (p AND BITMASK 16, reg DSP_REG_SR s AND BITMASK 16) # stack_frames s"
  using hwstack.push_room [OF assms, of "(p, reg DSP_REG_SR s)"] that
  by (auto simp: push_return_def push_frame_def store_frame_def)

lemma stack_view_frame [simp]:
  "stack_wf (goto_pc p s) = stack_wf s" "stack_frames (goto_pc p s) = stack_frames s"
  "stack_wf (add_cycles n s) = stack_wf s" "stack_frames (add_cycles n s) = stack_frames s"
  "stack_wf (s\<lparr>pc := q\<rparr>) = stack_wf s" "stack_frames (s\<lparr>pc := q\<rparr>) = stack_frames s"
  "stack_wf (s\<lparr>cur_inst_len := q\<rparr>) = stack_wf s" "stack_frames (s\<lparr>cur_inst_len := q\<rparr>) = stack_frames s"
  by (simp_all add: stack_wf_def stack_frames_def goto_pc_def add_cycles_def)

lemma stack_view_set_reg:
  "r \<notin> {DSP_REG_SP, DSP_REG_SSH, DSP_REG_SSL} \<Longrightarrow> stack_wf (set_reg r v s) = stack_wf s"
  "r \<noteq> DSP_REG_SP \<Longrightarrow> stack_frames (set_reg r v s) = stack_frames s"
  by (simp_all add: stack_wf_def stack_frames_def)

lemma pc_goto [simp]: "pc (add_cycles n s) = pc s" "pc (goto_pc p s) = p"
  by (simp_all add: add_cycles_def goto_pc_def)

lemma pop_frame_elim:
  assumes "stack_wf s" and "stack_frames s = f # fs"
  obtains t where "dsp_stack_pop s = Some (fst f, snd f, t)" "stack_wf t" "stack_frames t = fs"
  using hwstack.pop_top [OF assms] that by (auto simp: pop_frame_def)

text \<open>C15: calls. From a state with room on the stack and outside a long interrupt, JSR goes to its
  target with the return address and the status register on the stack. Whatever the subroutine does
  in between, when it leaves the stack as it found it, RTS returns to the instruction after the call
  and RTI does so and restores the status register; both give the caller's stack back.\<close>

theorem call_return:
  fixes s :: "'o DSPState"
  assumes "stack_wf s" and "length (stack_frames s) < 15" and "interrupt_state s \<noteq> DSP_INTERRUPT_LONG"
  shows "\<exists>t. emu_jsr_imm s = Some t \<and> pc t = cur_inst s AND BITMASK 12 \<and> stack_wf t
    \<and> (\<forall>v :: 'o DSPState. stack_wf v \<and> stack_frames v = stack_frames t \<longrightarrow>
      (\<exists>u. emu_rts v = Some u \<and> pc u = (pc s + cur_inst_len s) AND BITMASK 16 \<and> stack_wf u
        \<and> stack_frames u = stack_frames s) \<and>
      (\<exists>u. emu_rti v = Some u \<and> pc u = (pc s + cur_inst_len s) AND BITMASK 16 \<and> stack_wf u
        \<and> stack_frames u = stack_frames s \<and> reg DSP_REG_SR u = reg DSP_REG_SR s AND BITMASK 16))"
proof -
  let ?ret = "(pc s + cur_inst_len s) AND BITMASK 16" and ?sr = "reg DSP_REG_SR s AND BITMASK 16"
  obtain p where p: "push_return (pc s + cur_inst_len s) s = Some p" "stack_wf p"
    "stack_frames p = (?ret, ?sr) # stack_frames s"
    by (rule push_return_frame [OF assms(1,2)])
  let ?t = "add_cycles 2 (goto_pc (cur_inst s AND BITMASK 12) p)"
  have t: "emu_jsr_imm s = Some ?t" using assms(3) p(1) by (simp add: emu_jsr_imm_def call_push_def)
  have "(\<exists>u. emu_rts v = Some u \<and> pc u = ?ret \<and> stack_wf u \<and> stack_frames u = stack_frames s)
    \<and> (\<exists>u. emu_rti v = Some u \<and> pc u = ?ret \<and> stack_wf u \<and> stack_frames u = stack_frames s \<and> reg DSP_REG_SR u = ?sr)"
    if v: "stack_wf v" "stack_frames v = stack_frames ?t" for v :: "'o DSPState"
  proof -
    have "stack_frames v = (?ret, ?sr) # stack_frames s" using v(2) p(3) by simp
    from pop_frame_elim [OF v(1) this] obtain u where u: "dsp_stack_pop v = Some (?ret, ?sr, u)"
      "stack_wf u" "stack_frames u = stack_frames s" by auto
    then show ?thesis
      by (simp add: emu_rts_def emu_rti_def stack_view_set_reg) (simp add: goto_pc_def add_cycles_def)
  qed
  then show ?thesis using t p(2) by (intro exI [of _ ?t]) simp
qed

theorem call_return_witness:
  "\<exists>t u. emu_jsr_imm (fresh_dsp\<lparr>cur_inst := 0x0d0123, cur_inst_len := 1, pc := 0x40\<rparr>) = Some t \<and> pc t = 0x123
    \<and> emu_rts t = Some u \<and> pc u = 0x41"
proof -
  let ?s = "fresh_dsp\<lparr>cur_inst := 0x0d0123, cur_inst_len := 1, pc := 0x40\<rparr>"
  have "stack_wf ?s" "length (stack_frames ?s) < 15" "interrupt_state ?s \<noteq> DSP_INTERRUPT_LONG" by code_simp+
  from call_return [OF this] show ?thesis by simp blast
qed

subsection \<open>Repeated instructions\<close>

text \<open>A state in which nothing but the instructions decides where execution goes on: no interrupt is
  pending or in service, tracing is off and no hardware loop is active.\<close>

definition quiet :: "'o DSPState \<Rightarrow> bool" where
  "quiet s \<longleftrightarrow> interrupt_state s = DSP_INTERRUPT_NONE \<and> interrupt_counter s = 0
     \<and> reg DSP_REG_SR s AND shl 1 DSP_SR_T = 0 \<and> reg DSP_REG_SR s AND shl 1 DSP_SR_LF = 0"

text \<open>The same control state, up to the instruction registers.\<close>

definition same_control :: "'o DSPState \<Rightarrow> 'o DSPState \<Rightarrow> bool" where
  "same_control s t \<longleftrightarrow> pc t = pc s \<and> pram t = pram s \<and> loop_rep t = loop_rep s \<and> pc_on_rep t = pc_on_rep s
     \<and> reg DSP_REG_LC t = reg DSP_REG_LC s \<and> reg DSP_REG_LCSAVE t = reg DSP_REG_LCSAVE s"

definition exec_word :: "u32 \<Rightarrow> 'o DSPState \<Rightarrow> 'o DSPState option" where
  "exec_word w s = exec_decoded (s\<lparr>cur_inst := w, cur_inst_len := 1, instr_cycle := 2\<rparr>)"

text \<open>An instruction that may be repeated: it is one word long, returns, and leaves the control state
  alone.\<close>

definition repeatable :: "'o itself \<Rightarrow> u32 \<Rightarrow> bool" where
  "repeatable _ w \<longleftrightarrow> (\<forall>s :: 'o DSPState. quiet s \<longrightarrow>
     (\<exists>t. exec_word w s = Some t \<and> quiet t \<and> cur_inst_len t = 1 \<and> same_control s t))"

primrec dsp_steps :: "nat \<Rightarrow> 'o DSPState \<Rightarrow> 'o DSPState option" where
  "dsp_steps 0 s = Some s"
| "dsp_steps (Suc n) s = do { t \<leftarrow> dsp_step s; dsp_steps n t }"

text \<open>The state with \<open>n\<close> executions of the instruction \<open>w\<close> at \<open>p\<close> to go.\<close>

definition repeating :: "u32 \<Rightarrow> u32 \<Rightarrow> u32 \<Rightarrow> nat \<Rightarrow> 'o DSPState \<Rightarrow> bool" where
  "repeating w p lc n s \<longleftrightarrow> quiet s \<and> reg DSP_REG_LCSAVE s = lc \<and> pc_on_rep s = 0 \<and> read_memory_p s p = Some w
     \<and> (if n = 0 then pc s = p + 1 \<and> loop_rep s = 0 \<and> reg DSP_REG_LC s = lc
        else pc s = p \<and> loop_rep s = 1 \<and> reg DSP_REG_LC s = of_nat n \<and> n \<le> 0x10000)"

lemma quiet_interrupts: "quiet s \<Longrightarrow> dsp_postexecute_interrupts s = Some s"
  by (simp add: quiet_def dsp_postexecute_interrupts_def search_interrupt_def)

lemma quiet_frame [simp]:
  "quiet (s\<lparr>pc := p\<rparr>) = quiet s" "quiet (s\<lparr>cur_inst_len := n\<rparr>) = quiet s" "quiet (s\<lparr>loop_rep := r\<rparr>) = quiet s"
  "quiet (s\<lparr>pc_on_rep := r\<rparr>) = quiet s" "quiet (set_reg DSP_REG_LC v s) = quiet s" "quiet (set_reg DSP_REG_LCSAVE v s) = quiet s"
  "quiet (add_cycles k s) = quiet s"
  by (simp_all add: quiet_def add_cycles_def)

lemma quiet_update_pc:
  "quiet s \<Longrightarrow> dsp_postexecute_update_pc s = Some ((rep_update s)\<lparr>pc := pc (rep_update s) + cur_inst_len (rep_update s)\<rparr>)"
  by (auto simp: dsp_postexecute_update_pc_def loop_update_def rep_update_def quiet_def Let_def)

lemma read_memory_p_cong: "pram s = pram t \<Longrightarrow> read_memory_p s = read_memory_p t"
  by (simp add: read_memory_p_def fun_eq_iff)

lemma repeat_count:
  assumes "n < 0x10000"
  shows "(of_nat (Suc n) - 1 :: u32) = of_nat n" "(of_nat n :: u32) AND 0xffff = of_nat n"
    "0 < n \<Longrightarrow> (0 :: u32) < of_nat n"
proof -
  have u: "unat (of_nat n :: u32) = n" using assms by (intro unat_of_nat_small) simp
  then have "unat ((of_nat n :: u32) AND 0xffff) = unat (of_nat n :: u32)"
    using assms unat_and_mask [of "of_nat n :: u32" 16] by simp
  then show "(of_nat n :: u32) AND 0xffff = of_nat n" by (simp only: word_unat_eq_iff)
  show "(0 :: u32) < of_nat n" if "0 < n" using u that by (simp add: word_less_nat_alt)
qed simp

lemma repeating_step:
  fixes s :: "'o DSPState"
  assumes "repeatable TYPE('o) w" and "repeating w p lc (Suc n) s"
  shows "\<exists>t. dsp_step s = Some t \<and> repeating w p lc n t"
proof -
  have q: "quiet s" and n: "n \<le> 0xffff" and p: "pc s = p" "read_memory_p s p = Some w"
    using assms(2) by (auto simp: repeating_def)
  from assms(1) q obtain t where t: "exec_word w s = Some t" "quiet t" "cur_inst_len t = 1" "same_control s t"
    unfolding repeatable_def by blast
  have m: "read_memory_p t = read_memory_p s" using t(4) read_memory_p_cong by (auto simp: same_control_def)
  let ?u = "(rep_update t)\<lparr>pc := pc (rep_update t) + cur_inst_len (rep_update t)\<rparr>"
  have r: "repeating w p lc n ?u"
  proof (cases n)
    case 0
    then show ?thesis using assms(2) t m
      by (simp add: repeating_def rep_update_def same_control_def Let_def read_memory_p_cong [of "_\<lparr>pc := _\<rparr>" t])
  next
    case (Suc k)
    then show ?thesis using assms(2) t n m repeat_count [of n]
      by (simp add: repeating_def rep_update_def same_control_def Let_def read_memory_p_cong [of "_\<lparr>pc := _\<rparr>" t])
  qed
  then have "quiet ?u" by (simp add: repeating_def)
  then have "dsp_step s = Some ?u"
    using t p by (simp add: dsp_step_def dsp56k_execute_instruction_def exec_word_def quiet_update_pc quiet_interrupts)
  with r show ?thesis by blast
qed

lemma repeating_steps:
  fixes s :: "'o DSPState"
  assumes "repeatable TYPE('o) w"
  shows "repeating w p lc n s \<Longrightarrow> k \<le> n \<Longrightarrow> \<exists>t. dsp_steps k s = Some t \<and> repeating w p lc (n - k) t"
proof (induction k arbitrary: n s)
  case (Suc k)
  then obtain m where m: "n = Suc m" by (cases n) auto
  from repeating_step [OF assms] Suc.prems(1) m obtain u where "dsp_step s = Some u" "repeating w p lc m u" by blast
  with Suc.IH [of m u] Suc.prems(2) m show ?case by simp
qed simp

text \<open>C16: REP. The instruction after a REP with an immediate count is executed that many times, 65536
  times for the count 0: for every smaller number of steps the program counter still points to it, and
  then it has moved on to the next instruction, with the loop counter restored. The repeated
  instruction is any that is one word long and leaves the control state alone.\<close>

theorem rep_repeats:
  fixes s :: "'o DSPState"
  assumes "repeatable TYPE('o) w" and "quiet s" and "cur_inst_len s = 1"
    and "read_memory_p s (pc s + 1) = Some w"
  defines "n \<equiv> (if loop_count_imm s = 0 then 0x10000 else unat (loop_count_imm s))"
  shows "\<exists>r u. emu_rep_imm s = Some r \<and> dsp_postexecute_update_pc r = Some u \<and> dsp_postexecute_interrupts u = Some u
    \<and> (\<forall>k<n. \<exists>t. dsp_steps k u = Some t \<and> pc t = pc s + 1 \<and> read_memory_p t (pc t) = Some w)
    \<and> (\<exists>t. dsp_steps n u = Some t \<and> pc t = pc s + 2 \<and> loop_rep t = 0 \<and> reg DSP_REG_LC t = reg DSP_REG_LC s)"
proof -
  let ?p = "pc s + 1" and ?lc = "reg DSP_REG_LC s"
  let ?r = "add_cycles 2 (set_reg DSP_REG_LC (loop_count_imm (rep_start s)) (rep_start s))"
  let ?u = "(rep_update ?r)\<lparr>pc := pc (rep_update ?r) + cur_inst_len (rep_update ?r)\<rparr>"
  have r: "emu_rep_imm s = Some ?r" by (simp add: emu_rep_imm_def Let_def)
  have c: "loop_count_imm (rep_start s) = loop_count_imm s" by (simp add: loop_count_imm_def inst_field_def rep_start_def)
  have q: "quiet ?r" using assms(2) by (simp add: rep_start_def)
  have n: "0 < n" "n \<le> 0x10000" "of_nat n = (if loop_count_imm s = 0 then 0x10000 else loop_count_imm s)"
    using unat_loop_count [of s] by (auto simp: n_def unat_gt_0)
  have R: "repeating w ?p ?lc n ?u"
    using assms(2-4) n q
    by (auto simp: repeating_def rep_update_def rep_start_def loop_count_imm_def inst_field_def add_cycles_def read_memory_p_cong [of "_\<lparr>pc := _\<rparr>" s])
  have u: "dsp_postexecute_update_pc ?r = Some ?u" by (rule quiet_update_pc [OF q])
  have i: "dsp_postexecute_interrupts ?u = Some ?u" using R by (simp add: repeating_def quiet_interrupts)
  show ?thesis
  proof (rule exI [of _ ?r], rule exI [of _ ?u], intro conjI allI impI)
    fix k assume "k < n"
    then show "\<exists>t. dsp_steps k ?u = Some t \<and> pc t = pc s + 1 \<and> read_memory_p t (pc t) = Some w"
      using repeating_steps [OF assms(1) R, of k] by (auto simp: repeating_def)
  next
    show "\<exists>t. dsp_steps n ?u = Some t \<and> pc t = pc s + 2 \<and> loop_rep t = 0 \<and> reg DSP_REG_LC t = reg DSP_REG_LC s"
      using repeating_steps [OF assms(1) R, of n] by (auto simp: repeating_def)
  qed (use r u i in simp_all)
qed

lemma opcodes_alu_move: "opcodes_alu ! 0 = Some \<circ> emu_move" by (simp add: opcodes_alu_def)

lemma repeatable_move: "repeatable TYPE('o) 0x200000"
  by (simp add: repeatable_def exec_word_def exec_decoded_def exec_parmove_def opcodes_parmove_def emu_pm_2_def exec_alu_def
      opcodes_alu_move emu_move_def same_control_def quiet_def)

theorem rep_repeats_witness:
  "\<exists>r u t. emu_rep_imm (demo_program [0x0603a0, 0x200000]\<lparr>cur_inst := 0x0603a0, cur_inst_len := 1\<rparr>) = Some r
    \<and> dsp_postexecute_update_pc r = Some u \<and> dsp_steps 3 u = Some t \<and> pc t = 2"
proof -
  let ?s = "demo_program [0x0603a0, 0x200000]\<lparr>cur_inst := 0x0603a0, cur_inst_len := 1\<rparr>"
  have "quiet ?s" "cur_inst_len ?s = 1" "read_memory_p ?s (pc ?s + 1) = Some 0x200000" "loop_count_imm ?s = 3"
    by (simp_all add: quiet_def read_memory_p_def loop_count_imm_def inst_field_def)
  from rep_repeats [OF repeatable_move this(1-3)] this(4) show ?thesis by auto
qed

subsection \<open>Hardware loops\<close>

text \<open>What the stack operations leave alone.\<close>

definition same_but_stack :: "'o DSPState \<Rightarrow> 'o DSPState \<Rightarrow> bool" where
  "same_but_stack s t \<longleftrightarrow> (\<forall>r. r \<notin> {DSP_REG_SP, DSP_REG_SSH, DSP_REG_SSL} \<longrightarrow> reg r t = reg r s)
     \<and> pc t = pc s \<and> pram t = pram s \<and> cur_inst t = cur_inst s \<and> cur_inst_len t = cur_inst_len s \<and> loop_rep t = loop_rep s"

lemma same_but_stack_refl [simp]: "same_but_stack s s" by (simp add: same_but_stack_def)

lemma same_but_stack_set_reg [simp]:
  assumes "r \<in> {DSP_REG_SP, DSP_REG_SSH, DSP_REG_SSL}"
  shows "same_but_stack s (set_reg r v t) = same_but_stack s t"
proof -
  have "reg q (set_reg r v t) = reg q t" if "q \<notin> {DSP_REG_SP, DSP_REG_SSH, DSP_REG_SSL}" for q using that assms by auto
  then show ?thesis unfolding same_but_stack_def by simp
qed

lemma same_but_stack_updates [simp]:
  "same_but_stack s (set_stack p k v t) = same_but_stack s t"
  "same_but_stack s (dsp56k_add_interrupt t i) = same_but_stack s t"
  unfolding same_but_stack_def by (simp_all add: set_stack_def dsp56k_add_interrupt_def)

lemma same_but_stack_push: "ensures (dsp_stack_push s a b c) (same_but_stack s)"
  unfolding dsp_stack_push_def stack_fault_def Let_def by (auto intro!: wp_intros)

lemma same_but_stack_pop: "ensures (dsp_stack_pop s) (\<lambda>(a, b, t). same_but_stack s t \<and> a = reg DSP_REG_SSH s)"
  unfolding dsp_stack_pop_def stack_fault_def Let_def by (auto intro!: wp_intros)

lemma ssh_top:
  fixes s :: "'o DSPState"
  assumes "stack_wf s" and "stack_frames s = f # fs"
  shows "reg DSP_REG_SSH s = fst f"
proof -
  obtain t where "dsp_stack_pop s = Some (fst f, snd f, t)" by (rule pop_frame_elim [OF assms])
  from ensuresD [OF same_but_stack_pop this] show ?thesis by simp
qed

text \<open>The control state of a hardware loop: the loop flag, the last address, the counter and the stack
  frames; and its state after a number of passes, where \<open>old\<close> is the control state outside.\<close>

record loop_control =
  lc_flag :: u32
  lc_la :: u32
  lc_count :: u32
  lc_frames :: "(u32 \<times> u32) list"

definition loop_ctl :: "'o DSPState \<Rightarrow> loop_control" where
  "loop_ctl s = \<lparr>lc_flag = reg DSP_REG_SR s AND shl 1 DSP_SR_LF, lc_la = reg DSP_REG_LA s, lc_count = reg DSP_REG_LC s,
     lc_frames = stack_frames s\<rparr>"

text \<open>A number of passes through the body of a loop. The body is any sequence of steps that ends on the
  last instruction of the loop, outside a REP, with the control state it began with.\<close>

definition body_end :: "'o DSPState \<Rightarrow> 'o DSPState \<Rightarrow> bool" where
  "body_end t v \<longleftrightarrow> loop_ctl v = loop_ctl t \<and> stack_wf v \<and> loop_rep v = 0 \<and> pc v + cur_inst_len v = reg DSP_REG_LA v + 1"

inductive loop_passes :: "nat \<Rightarrow> 'o DSPState \<Rightarrow> 'o DSPState \<Rightarrow> bool" where
  passes_0: "loop_passes 0 s s"
| passes_Suc: "loop_passes n s t \<Longrightarrow> body_end t v \<Longrightarrow> dsp_postexecute_update_pc v = Some u \<Longrightarrow> loop_passes (Suc n) s u"

inductive_cases loop_passes_SucE: "loop_passes (Suc n) s u"
inductive_cases loop_passes_0E: "loop_passes 0 s u"

lemma loop_end_frames:
  fixes s :: "'o DSPState"
  assumes "stack_wf s" and "stack_frames s = (p, sr) # (la, lc) # fs"
  obtains t where "loop_end s = Some t" "stack_wf t" "pc t = pc s"
    "loop_ctl t = \<lparr>lc_flag = sr AND shl 1 DSP_SR_LF, lc_la = la, lc_count = lc, lc_frames = fs\<rparr>"
proof -
  obtain u where u: "dsp_stack_pop s = Some (p, sr, u)" "stack_wf u" "stack_frames u = (la, lc) # fs"
    using pop_frame_elim [OF assms] by auto
  let ?u = "sr_set (sr AND shl 1 DSP_SR_LF) (set_reg DSP_REG_SR (reg DSP_REG_SR u AND 0x7f) u)"
  have "stack_wf ?u" "stack_frames ?u = (la, lc) # fs" using u by (simp_all add: sr_set_def stack_view_set_reg)
  then obtain t where t: "dsp_stack_pop ?u = Some (la, lc, t)" "stack_wf t" "stack_frames t = fs"
    by (rule pop_frame_elim) auto
  have k: "same_but_stack s u" "same_but_stack ?u t" using ensuresD [OF same_but_stack_pop u(1)] ensuresD [OF same_but_stack_pop t(1)] by simp_all
  let ?t = "set_reg DSP_REG_LC lc (set_reg DSP_REG_LA la t)"
  have "loop_end s = Some ?t" using u(1) t(1) by (simp add: loop_end_def Let_def)
  moreover have "pc ?t = pc s" using k by (simp add: same_but_stack_def sr_set_def)
  moreover have "reg DSP_REG_SR ?t AND shl 1 DSP_SR_LF = sr AND shl 1 DSP_SR_LF"
    using k(2) by (simp add: same_but_stack_def sr_set_def word_ao_dist and.assoc)
  ultimately show ?thesis using that t by (simp add: loop_ctl_def stack_view_set_reg)
qed

text \<open>The control state after \<open>n\<close> passes of a loop of \<open>N\<close> passes that was entered from \<open>old\<close>.\<close>

definition ctl_after :: "loop_control \<Rightarrow> u32 \<Rightarrow> u32 \<Rightarrow> u32 \<Rightarrow> nat \<Rightarrow> loop_control" where
  "ctl_after old start sr la m =
     (if m = 0 then old
      else \<lparr>lc_flag = shl 1 DSP_SR_LF, lc_la = la, lc_count = of_nat m AND BITMASK 16,
             lc_frames = (start, sr) # (lc_la old, lc_count old) # lc_frames old\<rparr>)"

lemma count_down:
  assumes "m < 0x10000"
  shows "((of_nat (Suc m) AND 0xffff) - 1 :: u32) AND 0xffff = of_nat m"
proof (cases "m = 0xffff")
  case False
  then have "(of_nat (Suc m) :: u32) AND 0xffff = of_nat (Suc m)" using assms by (intro repeat_count(2)) simp
  then show ?thesis using repeat_count(1,2) [OF assms] by simp
qed simp

lemma loop_pass:
  fixes v :: "'o DSPState"
  assumes m: "m < 0x10000" and c: "loop_ctl t = ctl_after old start sr la (Suc m)" and v: "body_end t v"
    and o: "lc_flag old = sr AND shl 1 DSP_SR_LF"
  shows "\<exists>u. dsp_postexecute_update_pc v = Some u \<and> stack_wf u \<and> loop_ctl u = ctl_after old start sr la m
    \<and> pc u = (if m = 0 then la + 1 else start)"
proof -
  let ?w = "v\<lparr>pc := pc v + cur_inst_len v\<rparr>"
  let ?x = "set_reg DSP_REG_LC (of_nat m) ?w"
  have lf: "reg DSP_REG_SR v AND 0x8000 = 0x8000" and la: "reg DSP_REG_LA v = la" and wf: "stack_wf v"
    and lc: "reg DSP_REG_LC v = of_nat (Suc m) AND 0xffff"
    and fr: "stack_frames v = (start, sr) # (lc_la old, lc_count old) # lc_frames old"
    and pc: "pc v + cur_inst_len v = la + 1" and rep: "loop_rep v = 0"
    using c v by (auto simp: body_end_def loop_ctl_def ctl_after_def)
  have u: "dsp_postexecute_update_pc v = (if m = 0 then loop_end ?x else Some (?x\<lparr>pc := reg DSP_REG_SSH v\<rparr>))"
    using repeat_count(3) [OF m] count_down [OF m]
    by (auto simp: dsp_postexecute_update_pc_def rep_update_def rep loop_update_def Let_def pc la lf lc)
  show ?thesis
  proof (cases "m = 0")
    case True
    have "stack_wf ?x" "stack_frames ?x = (start, sr) # (lc_la old, lc_count old) # lc_frames old"
      using wf fr by (simp_all add: stack_view_set_reg)
    from loop_end_frames [OF this] obtain y where "loop_end ?x = Some y" "stack_wf y" "pc y = pc ?x"
      "loop_ctl y = \<lparr>lc_flag = sr AND shl 1 DSP_SR_LF, lc_la = lc_la old, lc_count = lc_count old, lc_frames = lc_frames old\<rparr>"
      by blast
    then show ?thesis using True u o pc by (simp add: ctl_after_def)
  next
    case False
    then show ?thesis using u wf fr lf la m ssh_top [OF wf fr] repeat_count(2) [OF m]
      by (simp add: ctl_after_def loop_ctl_def stack_view_set_reg)
  qed
qed

lemma loop_passes_ctl:
  fixes b :: "'o DSPState"
  assumes c: "loop_ctl b = ctl_after old start sr la N" and N: "N \<le> 0x10000"
    and o: "lc_flag old = sr AND shl 1 DSP_SR_LF" and wf: "stack_wf b"
  shows "loop_passes n b u \<Longrightarrow> n \<le> N \<Longrightarrow> stack_wf u \<and> loop_ctl u = ctl_after old start sr la (N - n)
    \<and> (n \<noteq> 0 \<longrightarrow> pc u = (if n = N then la + 1 else start))"
proof (induction n arbitrary: u)
  case 0
  then show ?case using c wf by (auto elim: loop_passes_0E)
next
  case (Suc n)
  from Suc.prems(1) obtain t v where t: "loop_passes n b t" "body_end t v" "dsp_postexecute_update_pc v = Some u"
    by (rule loop_passes_SucE)
  have "loop_ctl t = ctl_after old start sr la (Suc (N - Suc n))" using Suc.IH [OF t(1)] Suc.prems(2) by (simp add: Suc_diff_Suc)
  from loop_pass [OF _ this t(2) o] N Suc.prems(2) t(3) show ?case by auto
qed

lemma do_imm_enters:
  fixes s :: "'o DSPState"
  assumes wf: "stack_wf s" and room: "length (stack_frames s) < 14" and s: "cur_inst_len s = 1" "loop_rep s = 0"
    and la: "read_memory_p s (pc s + 1) = Some la" and ne: "la AND BITMASK 16 \<noteq> pc s + 1"
    and f: "fits 16 (reg DSP_REG_LA s)" "fits 16 (reg DSP_REG_LC s)"
  shows "\<exists>d b. emu_do_imm s = Some d \<and> dsp_postexecute_update_pc d = Some b \<and> pc b = pc s + 2 \<and> stack_wf b
    \<and> loop_ctl b = \<lparr>lc_flag = shl 1 DSP_SR_LF, lc_la = la AND BITMASK 16, lc_count = loop_count_imm s,
         lc_frames = ((pc s + 2) AND BITMASK 16, reg DSP_REG_SR s AND BITMASK 16)
           # (reg DSP_REG_LA s, reg DSP_REG_LC s) # stack_frames s\<rparr>"
proof -
  have st: "store_frame (reg DSP_REG_LA s, reg DSP_REG_LC s) = (reg DSP_REG_LA s, reg DSP_REG_LC s)"
    using f by (simp add: store_frame_def fits_def take_bit_eq_mask)
  obtain p where p: "push_loop s = Some p" "stack_wf p" "stack_frames p = (reg DSP_REG_LA s, reg DSP_REG_LC s) # stack_frames s"
    using hwstack.push_room [OF wf, of "(reg DSP_REG_LA s, reg DSP_REG_LC s)"] room st
    by (auto simp: push_loop_def push_frame_def)
  have k: "same_but_stack s p" using ensuresD [OF same_but_stack_push] p(1) by (simp add: push_loop_def)
  let ?p = "(set_reg DSP_REG_LA (la AND BITMASK 16) p)\<lparr>cur_inst_len := 2\<rparr>"
  have rd: "read_memory_p p (pc p + 1) = Some la"
    using la k read_memory_p_cong [of p s] by (simp add: same_but_stack_def)
  then have a: "do_absolute s = Some ?p" using p(1) k s by (simp add: do_absolute_def same_but_stack_def Let_def)
  have w: "stack_wf ?p" "length (stack_frames ?p) < 15" using p room by (simp_all add: stack_view_set_reg)
  obtain q where q: "push_return (pc ?p + cur_inst_len ?p) ?p = Some q" "stack_wf q"
    "stack_frames q = ((pc ?p + cur_inst_len ?p) AND BITMASK 16, reg DSP_REG_SR ?p AND BITMASK 16) # stack_frames ?p"
    by (rule push_return_frame [OF w])
  have l: "same_but_stack ?p q" using ensuresD [OF same_but_stack_push] q(1) by (simp add: push_return_def)
  let ?q = "sr_set (shl 1 DSP_SR_LF) q"
  let ?d = "add_cycles 4 (set_reg DSP_REG_LC (loop_count_imm ?q) ?q)"
  have d: "emu_do_imm s = Some ?d" using a q(1) by (simp add: emu_do_imm_def loop_flag_on_def)
  have cnt: "loop_count_imm ?q = loop_count_imm s"
    using k l by (simp add: loop_count_imm_def inst_field_def same_but_stack_def sr_set_def)
  let ?b = "?d\<lparr>pc := pc s + 2\<rparr>"
  have r: "reg DSP_REG_SR q = reg DSP_REG_SR s" "reg DSP_REG_LA q = la AND 0xffff" "pc q = pc s" "cur_inst_len q = 2"
    "loop_rep q = 0" "pc p = pc s" "reg DSP_REG_SR p = reg DSP_REG_SR s"
    using k l s by (simp_all add: same_but_stack_def)
  have "dsp_postexecute_update_pc ?d = Some ?b" using ne ne [symmetric] r
    by (simp add: add.commute [of 1] dsp_postexecute_update_pc_def rep_update_def loop_update_def Let_def add_cycles_def sr_set_def)
  moreover have "stack_wf ?b" using q(2) by (simp add: stack_view_set_reg sr_set_def)
  moreover have "loop_ctl ?b = \<lparr>lc_flag = shl 1 DSP_SR_LF, lc_la = la AND BITMASK 16, lc_count = loop_count_imm s,
         lc_frames = ((pc s + 2) AND BITMASK 16, reg DSP_REG_SR s AND BITMASK 16)
           # (reg DSP_REG_LA s, reg DSP_REG_LC s) # stack_frames s\<rparr>"
    using q(3) p(3) r cnt by (simp add: loop_ctl_def stack_view_set_reg sr_set_def word_ao_dist)
  ultimately show ?thesis using d by (intro exI [of _ ?d] exI [of _ ?b]) simp
qed

text \<open>C17: DO. A DO loop with an immediate count, entered with room for two frames on the stack, makes
  that many passes, 65536 for the count 0. The body is any that keeps the loop registers, the loop flag
  and the stack frames, such as another loop. While passes are left, the end of the body continues at
  the first instruction of the loop with the counter decremented; at the end of the last pass, execution
  goes on behind the loop, with the loop flag, the loop registers and the stack as they were before the
  DO. In every pass the update at the end of the body returns.\<close>

theorem do_loop_count:
  fixes s :: "'o DSPState"
  assumes wf: "stack_wf s" and room: "length (stack_frames s) < 14" and s: "cur_inst_len s = 1" "loop_rep s = 0"
    and la: "read_memory_p s (pc s + 1) = Some la" and ne: "la AND BITMASK 16 \<noteq> pc s + 1"
    and f: "fits 16 (reg DSP_REG_LA s)" "fits 16 (reg DSP_REG_LC s)"
  defines "N \<equiv> (if loop_count_imm s = 0 then 0x10000 else unat (loop_count_imm s))"
  shows "\<exists>d b. emu_do_imm s = Some d \<and> dsp_postexecute_update_pc d = Some b \<and> pc b = pc s + 2 \<and> stack_wf b
    \<and> (\<forall>n t v. n < N \<and> loop_passes n b t \<and> body_end t v \<longrightarrow> dsp_postexecute_update_pc v \<noteq> None)
    \<and> (\<forall>n u. 0 < n \<and> n < N \<and> loop_passes n b u \<longrightarrow>
         pc u = (pc s + 2) AND BITMASK 16 \<and> reg DSP_REG_LC u = of_nat (N - n) \<and> reg DSP_REG_SR u AND shl 1 DSP_SR_LF \<noteq> 0
         \<and> stack_wf u)
    \<and> (\<forall>u. loop_passes N b u \<longrightarrow> pc u = (la AND BITMASK 16) + 1 \<and> loop_ctl u = loop_ctl s)"
proof -
  let ?start = "(pc s + 2) AND BITMASK 16" and ?sr = "reg DSP_REG_SR s AND BITMASK 16" and ?la = "la AND BITMASK 16"
  obtain d b where d: "emu_do_imm s = Some d" "dsp_postexecute_update_pc d = Some b" "pc b = pc s + 2" "stack_wf b"
    and b: "loop_ctl b = \<lparr>lc_flag = shl 1 DSP_SR_LF, lc_la = ?la, lc_count = loop_count_imm s,
         lc_frames = (?start, ?sr) # (reg DSP_REG_LA s, reg DSP_REG_LC s) # stack_frames s\<rparr>"
    using do_imm_enters [OF wf room s la ne f] by blast
  have N: "0 < N" "N \<le> 0x10000" using unat_loop_count [of s] by (auto simp: N_def unat_gt_0)
  have "of_nat N AND BITMASK 16 = loop_count_imm s"
    using unat_loop_count [of s] repeat_count(2) [of "unat (loop_count_imm s)"] by (auto simp: N_def)
  then have c: "loop_ctl b = ctl_after (loop_ctl s) ?start ?sr ?la N" using b N by (simp add: ctl_after_def loop_ctl_def)
  have o: "lc_flag (loop_ctl s) = ?sr AND shl 1 DSP_SR_LF" by (simp add: loop_ctl_def and.assoc)
  note run = loop_passes_ctl [OF c N(2) o d(4)]
  have A: "\<forall>n t v. n < N \<and> loop_passes n b t \<and> body_end t v \<longrightarrow> dsp_postexecute_update_pc v \<noteq> None"
  proof (intro allI impI, elim conjE)
    fix n t v assume that: "n < N" "loop_passes n b t" "body_end t v"
    have l: "loop_ctl t = ctl_after (loop_ctl s) ?start ?sr ?la (Suc (N - Suc n))"
      using run [OF that(2)] that(1) by (simp add: Suc_diff_Suc)
    have "N - Suc n < 0x10000" using N that(1) by simp
    from loop_pass [OF this l that(3) o] show "dsp_postexecute_update_pc v \<noteq> None" by (elim exE conjE) simp
  qed
  have B: "\<forall>n u. 0 < n \<and> n < N \<and> loop_passes n b u \<longrightarrow> pc u = ?start \<and> reg DSP_REG_LC u = of_nat (N - n)
      \<and> reg DSP_REG_SR u AND shl 1 DSP_SR_LF \<noteq> 0 \<and> stack_wf u"
  proof (intro allI impI, elim conjE)
    fix n u assume that: "0 < n" "n < N" "loop_passes n b u"
    have "of_nat (N - n) AND 0xffff = (of_nat (N - n) :: u32)" using N that(1) by (intro repeat_count(2)) simp
    then show "pc u = ?start \<and> reg DSP_REG_LC u = of_nat (N - n) \<and> reg DSP_REG_SR u AND shl 1 DSP_SR_LF \<noteq> 0 \<and> stack_wf u"
      using run [OF that(3)] that(1,2) by (simp add: ctl_after_def loop_ctl_def)
  qed
  have C: "\<forall>u. loop_passes N b u \<longrightarrow> pc u = ?la + 1 \<and> loop_ctl u = loop_ctl s"
    using run [of N] N(1) by (simp add: ctl_after_def)
  show ?thesis by (rule exI [of _ d], rule exI [of _ b]) (intro conjI d A B C)
qed

theorem do_loop_count_witness:
  "\<exists>d b t u. emu_do_imm (fresh_dsp\<lparr>pram := (\<lambda>_. 5), cur_inst := 0x060280, cur_inst_len := 1\<rparr>) = Some d
    \<and> dsp_postexecute_update_pc d = Some b \<and> loop_passes 1 b t \<and> pc t = 2 \<and> loop_passes 2 b u \<and> pc u = 6"
  (is "\<exists>d b t u. emu_do_imm ?s = _ \<and> _")
proof -
  have s: "stack_wf ?s" "length (stack_frames ?s) < 14" "cur_inst_len ?s = 1" "loop_rep ?s = 0"
    "read_memory_p ?s (pc ?s + 1) = Some 5" "(5::u32) AND BITMASK 16 \<noteq> pc ?s + 1"
    "fits 16 (reg DSP_REG_LA ?s)" "fits 16 (reg DSP_REG_LC ?s)" "loop_count_imm ?s = 2" "pc ?s = 0"
    by code_simp+
  from do_loop_count [OF s(1-8)] s(9,10) obtain d b where d: "emu_do_imm ?s = Some d" "dsp_postexecute_update_pc d = Some b" "stack_wf b"
    and returns: "\<And>n t v. n < 2 \<Longrightarrow> loop_passes n b t \<Longrightarrow> body_end t v \<Longrightarrow> dsp_postexecute_update_pc v \<noteq> None"
    and inside: "\<And>n u. 0 < n \<Longrightarrow> n < 2 \<Longrightarrow> loop_passes n b u \<Longrightarrow> pc u = 2 \<and> stack_wf u"
    and behind: "\<And>u. loop_passes 2 b u \<Longrightarrow> pc u = 6" by auto
  let ?v = "\<lambda>t. t\<lparr>pc := reg DSP_REG_LA t, cur_inst_len := 1, loop_rep := 0\<rparr>"
  have v: "body_end t (?v t)" if "stack_wf t" for t :: "unit DSPState"
    using that by (simp add: body_end_def loop_ctl_def stack_wf_def stack_frames_def)
  obtain t where "dsp_postexecute_update_pc (?v b) = Some t" using returns [OF _ passes_0 v [OF d(3)]] by auto
  then have t: "loop_passes 1 b t" using passes_Suc [OF passes_0 v [OF d(3)]] by simp
  then have i: "pc t = 2" "stack_wf t" using inside [of 1 t] by simp_all
  obtain u where "dsp_postexecute_update_pc (?v t) = Some u" using returns [OF _ t v [OF i(2)]] by auto
  then have "loop_passes 2 b u" using passes_Suc [OF t v [OF i(2)]] by (simp add: numeral_2_eq_2)
  then show ?thesis using d t i behind by blast
qed

end
