(* ===== verification/Dsp_Irq_Props.thy ===== *)
theory Dsp_Irq_Props
  imports Dsp_Run
begin

text \<open>
  The arbitration between pending interrupts after each instruction.
\<close>

subsection \<open>Interrupt arbitration\<close>

definition irq_candidate :: "'o DSPState \<Rightarrow> int \<Rightarrow> nat \<Rightarrow> bool" where
  "irq_candidate s ipl_sr i \<longleftrightarrow> interrupt_is_pending s (of_nat i) = 1 \<and> ipl_sr \<le> interrupt_ipl s (of_nat i)"

text \<open>The interrupt that should win among the first \<open>n\<close>: a candidate of the highest level, and the first
  of that level.\<close>

definition irq_winner :: "'o DSPState \<Rightarrow> int \<Rightarrow> nat \<Rightarrow> nat \<Rightarrow> bool" where
  "irq_winner s ipl_sr n i \<longleftrightarrow> i < n \<and> irq_candidate s ipl_sr i
     \<and> (\<forall>j<n. irq_candidate s ipl_sr j \<longrightarrow> interrupt_ipl s (of_nat j) \<le> interrupt_ipl s (of_nat i)
          \<and> (j < i \<longrightarrow> interrupt_ipl s (of_nat j) < interrupt_ipl s (of_nat i)))"

lemma irq_winner_unique: "irq_winner s sr n i \<Longrightarrow> irq_winner s sr n j \<Longrightarrow> i = j"
  unfolding irq_winner_def by (metis linorder_neqE_nat not_less)

text \<open>The outcome of the loop over the first \<open>n\<close> interrupts.\<close>

definition arbitrated :: "'o DSPState \<Rightarrow> int \<Rightarrow> nat \<Rightarrow> u32 \<Rightarrow> int \<Rightarrow> bool" where
  "arbitrated s ipl_sr n index level \<longleftrightarrow>
     (index = 0xffff \<and> level = -1 \<and> (\<forall>j<n. \<not> irq_candidate s ipl_sr j))
     \<or> (\<exists>i. irq_winner s ipl_sr n i \<and> index = of_nat i \<and> level = interrupt_ipl s (of_nat i))"

lemma arbitrated_level: "arbitrated s sr i index level \<Longrightarrow> j < i \<Longrightarrow> irq_candidate s sr j \<Longrightarrow> interrupt_ipl s (of_nat j) \<le> level"
  by (auto simp: arbitrated_def irq_winner_def)

lemma arbitrated_skip:
  assumes "arbitrated s sr i index level" and "0 \<le> sr"
    and "interrupt_is_pending s (of_nat i) \<noteq> 1 \<or> interrupt_ipl s (of_nat i) < sr \<or> interrupt_ipl s (of_nat i) \<le> level"
  shows "arbitrated s sr (Suc i) index level"
  using assms unfolding arbitrated_def irq_winner_def by (auto simp: irq_candidate_def less_Suc_eq)

lemma arbitrated_take:
  assumes "arbitrated s sr i index level" and "interrupt_is_pending s (of_nat i) = 1"
    and "sr \<le> interrupt_ipl s (of_nat i)" and "level < interrupt_ipl s (of_nat i)"
  shows "arbitrated s sr (Suc i) (of_nat i) (interrupt_ipl s (of_nat i))"
proof -
  have "irq_winner s sr (Suc i) i"
    using arbitrated_level [OF assms(1)] assms(2-4) by (force simp: irq_winner_def irq_candidate_def less_Suc_eq)
  then show ?thesis by (auto simp: arbitrated_def)
qed

lemma winner_level_3:
  assumes "arbitrated s sr i index level" and "level < 3" and "\<forall>j<n. interrupt_ipl s (of_nat j) \<le> 3"
    and "i < n" and "interrupt_is_pending s (of_nat i) = 1" and "interrupt_ipl s (of_nat i) = 3" and "sr \<le> 3"
  shows "irq_winner s sr n i"
  using arbitrated_level [OF assms(1)] assms(2-7) by (force simp: irq_winner_def irq_candidate_def)

lemma arbitrate_arbitrated:
  assumes sr: "0 \<le> sr" "sr \<le> 3" and le: "\<forall>j<n. interrupt_ipl s (of_nat j) \<le> 3"
  shows "arbitrated s sr i index level \<Longrightarrow> level < 3 \<Longrightarrow> i + k = n
    \<Longrightarrow> \<exists>lv. arbitrated s sr n (arbitrate s sr k i index level) lv"
proof (induction k arbitrary: i index level)
  case (Suc k)
  have n: "Suc i + k = n" using Suc.prems(3) by simp
  have ipl: "interrupt_ipl s (of_nat i) \<le> 3" using le n by auto
  show ?case
  proof (cases "interrupt_is_pending s (of_nat i) = 1 \<and> interrupt_ipl s (of_nat i) = 3")
    case True
    then have "irq_winner s sr n i" using winner_level_3 [OF Suc.prems(1,2) le] n sr by simp
    then show ?thesis using True by (auto simp: arbitrated_def)
  next
    case False
    then show ?thesis using Suc.IH [OF arbitrated_skip [OF Suc.prems(1) sr(1)] Suc.prems(2) n]
        Suc.IH [OF arbitrated_take [OF Suc.prems(1)] _ n] ipl
      by (auto simp: Let_def)
  qed
qed auto

text \<open>C18: interrupt arbitration. Outside tracing and with interrupts pending, the search for an interrupt
  takes exactly the one that should win: a pending interrupt whose level is at least the mask in the
  status register, of the highest level among these, and the first of that level. It changes nothing
  when there is none.\<close>

theorem interrupt_arbitration:
  fixes s :: "'o DSPState"
  assumes "reg DSP_REG_SR s AND shl 1 DSP_SR_T = 0" and "interrupt_counter s \<noteq> 0"
    and le: "\<forall>j<12. interrupt_ipl s (of_nat j) \<le> 3"
  defines "ipl_sr \<equiv> uint (shr (reg DSP_REG_SR s) DSP_SR_I0 AND BITMASK 2)"
  shows "((\<forall>i<12. \<not> irq_candidate s ipl_sr i) \<longrightarrow> search_interrupt s = Some s)
    \<and> (\<forall>i. irq_winner s ipl_sr 12 i \<longrightarrow> search_interrupt s = raise_interrupt s (of_nat i))
    \<and> ((\<exists>i<12. irq_candidate s ipl_sr i) \<longrightarrow> (\<exists>!i. irq_winner s ipl_sr 12 i))"
proof -
  have "unat (shr (reg DSP_REG_SR s) DSP_SR_I0 AND BITMASK 2) < 4" unfolding unat_and_mask by simp
  then have "int (unat (shr (reg DSP_REG_SR s) DSP_SR_I0 AND BITMASK 2)) < 4" by linarith
  then have sr: "0 \<le> ipl_sr" "ipl_sr \<le> 3" unfolding ipl_sr_def by simp_all
  let ?r = "arbitrate s ipl_sr 12 0 0xffff (-1)"
  obtain lv where lv: "arbitrated s ipl_sr 12 ?r lv"
    using arbitrate_arbitrated [OF sr le, of 0 "0xffff" "-1" 12] by (auto simp: arbitrated_def)
  have e: "search_interrupt s = (if ?r = 0xffff then Some s else raise_interrupt s ?r)"
    using assms(1,2) by (simp add: search_interrupt_def ipl_sr_def)
  show ?thesis
  proof (cases "\<forall>i<12. \<not> irq_candidate s ipl_sr i")
    case True
    then have "?r = 0xffff" and "\<not> irq_winner s ipl_sr 12 i" for i using lv by (auto simp: arbitrated_def irq_winner_def)
    then show ?thesis using e True by auto
  next
    case False
    then obtain i where i: "irq_winner s ipl_sr 12 i" "?r = of_nat i" using lv by (auto simp: arbitrated_def)
    then have "unat ?r < 12" by (simp add: irq_winner_def unat_of_nat_small)
    then have "?r \<noteq> 0xffff" by auto
    then have "search_interrupt s = raise_interrupt s (of_nat i)" using e i(2) by simp
    then show ?thesis using False i(1) irq_winner_unique [OF i(1)] by metis
  qed
qed

definition two_pending :: "unit DSPState" where
  "two_pending = fresh_dsp\<lparr>interrupt_counter := 2,
     interrupt_is_pending := (\<lambda>i. if i = 6 \<or> i = 7 then 1 else 0), interrupt_ipl := (\<lambda>i. if i = 7 then 2 else 1)\<rparr>"

theorem interrupt_arbitration_witness:
  "\<exists>t. search_interrupt two_pending = Some t \<and> interrupt_instr_fetch t = 0x22 \<and> interrupt_ipl_to_raise t = 3
    \<and> interrupt_is_pending t 6 = 1 \<and> interrupt_is_pending t 7 = 0"
proof -
  let ?sr = "uint (shr (reg DSP_REG_SR two_pending) DSP_SR_I0 AND BITMASK 2)"
  have h: "reg DSP_REG_SR two_pending AND shl 1 DSP_SR_T = 0" "interrupt_counter two_pending \<noteq> 0" "?sr = 0" by code_simp+
  have l: "\<forall>j<12. interrupt_ipl two_pending (of_nat j) \<le> 3" by (simp add: two_pending_def)
  have j: "(of_nat j :: u32) = 6 \<longleftrightarrow> j = 6" "(of_nat j :: u32) = 7 \<longleftrightarrow> j = 7" if "j < 12" for j
    using that by (auto simp: word_unat_eq_iff unat_of_nat_small)
  have w: "irq_winner two_pending 0 12 7"
    by (auto simp: irq_winner_def irq_candidate_def two_pending_def j)
  have "search_interrupt two_pending = raise_interrupt two_pending 7"
    using interrupt_arbitration [OF h(1,2) l] w unfolding h(3) by auto
  moreover have "\<exists>t. raise_interrupt two_pending 7 = Some t \<and> interrupt_instr_fetch t = 0x22 \<and> interrupt_ipl_to_raise t = 3
    \<and> interrupt_is_pending t 6 = 1 \<and> interrupt_is_pending t 7 = 0"
    by (simp add: raise_interrupt_def two_pending_def dsp_interrupt_vector_def)
  ultimately show ?thesis by simp
qed

end
