(* ===== verification/Dsp_Agu_Props.thy ===== *)
theory Dsp_Agu_Props
  imports Dsp_Agu
begin

text \<open>
  What the address modes compute: modulo addressing moves around a buffer, and bit-reversed
  addressing counts in reversed bit order.
\<close>

subsection \<open>Modulo addressing\<close>

lemma unat_pow_16: "j \<le> 15 \<Longrightarrow> unat (2 ^ j :: u16) = 2 ^ j"
proof -
  assume "j \<le> 15"
  then have "(2::nat) ^ j < 2 ^ 16" by (intro power_strict_increasing) simp_all
  then show ?thesis using unat_push_bit [of j "1 :: u16"] by simp
qed

lemma bufsize_loop_pow:
  fixes modu :: u16
  assumes hi: "unat modu \<le> 2 ^ k" and lo: "k = 0 \<or> 2 ^ (k - 1) < unat modu" and k: "k \<le> 15"
  shows "j \<le> k \<Longrightarrow> k - j \<le> fuel \<Longrightarrow> bufsize_loop fuel modu (shl 1 j) (shl 0xffff j) = Some (shl 1 k, shl 0xffff k)"
proof (induction fuel arbitrary: j)
  case 0
  then have "j = k" by simp
  then show ?case using hi k by (subst bufsize_loop.simps) (simp add: word_less_nat_alt unat_pow_16)
next
  case (Suc fuel)
  show ?case
  proof (cases "j = k")
    case True
    then show ?thesis using hi k by (subst bufsize_loop.simps) (simp add: word_less_nat_alt unat_pow_16)
  next
    case False
    then have "(2::nat) ^ j \<le> 2 ^ (k - 1)" using Suc.prems(1) by (intro power_increasing) simp_all
    moreover have "2 ^ (k - 1) < unat modu" using lo False Suc.prems(1) by auto
    ultimately have "(2::nat) ^ j < unat modu" by (rule le_less_trans)
    then have "shl 1 j < modu" using Suc.prems(1) k by (simp add: word_less_nat_alt unat_pow_16)
    then show ?thesis using Suc.IH [of "Suc j"] False Suc.prems by (subst bufsize_loop.simps) (simp add: push_bit_push_bit mult.commute [of "2 ^ j" 2])
  qed
qed

lemma lobound_value:
  assumes "fits 16 r" and "k \<le> 15"
  shows "uint (ucast (r AND ucast (shl (0xffff::u16) k)) :: u16) = uint r div 2 ^ k * 2 ^ k"
proof -
  let ?l = "ucast (r AND ucast (shl (0xffff::u16) k)) :: u16"
  have l: "?l = shl (shr (ucast r :: u16) k) k"
  proof (rule bit_word_eqI)
    have m: "(0xffff::u16) = mask 16" by (simp add: mask_numeral)
    fix n assume "n < LENGTH(16)"
    then show "bit (ucast (r AND ucast (shl (0xffff::u16) k)) :: u16) n = bit (shl (shr (ucast r :: u16) k) k) n"
      unfolding m by (auto simp: bit_simps)
  qed
  have u: "unat (ucast r :: u16) = unat r"
    using assms(1) by (simp add: unsigned_ucast_eq fits_iff_unat take_bit_nat_eq_self_iff)
  have "unat r < 2 ^ LENGTH(16)" using assms(1) by (simp add: fits_iff_unat)
  then have "unat r div 2 ^ k * 2 ^ k < 2 ^ LENGTH(16)" by (rule le_less_trans [OF div_times_less_eq_dividend])
  then have "unat ?l = unat r div 2 ^ k * 2 ^ k" unfolding l unat_push_bit unat_drop_bit u by (rule mod_less)
  then have "int (unat ?l) = int (unat r div 2 ^ k * 2 ^ k)" by (rule arg_cong)
  then show ?thesis by (simp only: of_nat_unat of_nat_mult of_nat_div of_nat_power of_nat_numeral)
qed

text \<open>The value of the update in integers, once the loops have not changed the modifier.\<close>

lemma modulo_step:
  fixes r modu m :: int
  assumes "0 < modu" "modu \<le> 2 ^ k" "k \<le> 15" "0 \<le> r" "r < 2 ^ 15" "r mod 2 ^ k < modu"
    "- modu \<le> m" "m < modu" "r + m < 2 ^ 15"
  defines "lo \<equiv> r div 2 ^ k * 2 ^ k"
  shows "(if s16 (s16 r + m) > lo + modu - 1 then s16 (s16 (s16 r + m) - modu)
          else if s16 (s16 r + m) < lo then s16 (s16 (s16 r + m) + modu) else s16 (s16 r + m))
    = lo + (r - lo + m) mod modu" "0 \<le> lo" "lo + modu \<le> 2 ^ 15"
proof -
  let ?o = "r mod 2 ^ k"
  have r: "r = lo + ?o" by (simp add: lo_def div_mult_mod_eq)
  have o: "0 \<le> ?o" by simp
  have d: "(2::int) ^ 15 = 2 ^ (15 - k) * 2 ^ k" using assms(3) by (simp flip: power_add)
  have "r div 2 ^ k * 2 ^ k < 2 ^ (15 - k) * 2 ^ k" using assms(5) r o unfolding d lo_def by linarith
  then have "r div 2 ^ k < 2 ^ (15 - k)" by (rule mult_right_less_imp_less) simp
  then have "(r div 2 ^ k + 1) * 2 ^ k \<le> 2 ^ (15 - k) * 2 ^ k" by (intro mult_right_mono) simp_all
  then have h: "lo + 2 ^ k \<le> 2 ^ 15" unfolding d by (simp add: lo_def algebra_simps)
  show l: "0 \<le> lo" using assms(4) by (simp add: lo_def pos_imp_zdiv_nonneg_iff)
  show "lo + modu \<le> 2 ^ 15" using h assms(2) by simp
  have k: "(2::int) ^ k \<le> 2 ^ 15" using assms(3) by (intro power_increasing) simp_all
  have s1: "s16 r = r" using assms(4,5) by (intro s16_id) linarith+
  have s2: "s16 (r + m) = r + m" using assms(2,4,7,9) k by (intro s16_id) linarith+
  note s = s1 s2
  have e: "r - lo + m = ?o + m" using r by linarith
  consider "?o + m \<ge> modu" | "?o + m < 0" | "0 \<le> ?o + m" "?o + m < modu" by linarith
  then show "(if s16 (s16 r + m) > lo + modu - 1 then s16 (s16 (s16 r + m) - modu)
          else if s16 (s16 r + m) < lo then s16 (s16 (s16 r + m) + modu) else s16 (s16 r + m))
    = lo + (r - lo + m) mod modu"
  proof cases
    case 1
    have "(?o + m - modu) mod modu = ?o + m - modu" using 1 assms(6,8) by (intro mod_pos_pos_trivial) simp_all
    then have "(?o + m) mod modu = ?o + m - modu" by simp
    moreover have "r + m > lo + modu - 1" using 1 r by linarith
    moreover have "s16 (r + m - modu) = r + m - modu" using 1 r l assms(1,9) by (intro s16_id) linarith+
    ultimately show ?thesis unfolding s e by (simp add: lo_def minus_mod_eq_div_mult [symmetric])
  next
    case 2
    have "(?o + m + modu) mod modu = ?o + m + modu" using 2 o assms(7) by (intro mod_pos_pos_trivial) linarith+
    then have "(?o + m) mod modu = ?o + m + modu" by simp
    moreover have "\<not> r + m > lo + modu - 1" "r + m < lo" using 2 r assms(1) by linarith+
    moreover have "s16 (r + m + modu) = r + m + modu" using 2 l o r assms(4,5,7) h assms(2) by (intro s16_id) linarith+
    ultimately show ?thesis unfolding s e by (simp add: lo_def minus_mod_eq_div_mult [symmetric])
  next
    case 3
    then have "\<not> r + m > lo + modu - 1" "\<not> r + m < lo" using r by linarith+
    moreover have "(?o + m) mod modu = ?o + m" using 3 by simp
    ultimately show ?thesis unfolding s e by (simp add: lo_def minus_mod_eq_div_mult [symmetric])
  qed
qed

lemma word_of_int_mask_16: "0 \<le> v \<Longrightarrow> v < 2 ^ 16 \<Longrightarrow> word_of_int v AND BITMASK 16 = (word_of_int v :: u32)"
proof -
  assume "0 \<le> v" "v < 2 ^ 16"
  moreover then have "take_bit 32 v = v" by (simp add: take_bit_int_eq_self_iff)
  ultimately have "fits 16 (word_of_int v)" by (simp add: fits_iff_unat unsigned_of_int nat_less_iff)
  then show ?thesis by (simp add: fits_def take_bit_eq_mask)
qed

lemma unat_modulus: "unat m < 2 ^ 15 \<Longrightarrow> unat (ucast (m + 1 :: u32) :: u16) = unat m + 1"
  by (simp add: unsigned_ucast_eq unat_add_small take_bit_nat_eq_self_iff)

lemma uint_hibound:
  fixes a b :: u16
  assumes "0 < uint b" and "uint a + uint b \<le> 2 ^ 15"
  shows "uint (a + b - 1) = uint a + uint b - 1"
proof -
  have "(uint a + uint b) mod 2 ^ 16 = uint a + uint b" using assms by (intro mod_pos_pos_trivial) simp_all
  moreover have "0 \<le> uint a + uint b - 1" using assms(1) uint_ge_0 [of a] by linarith
  then have "(uint a + uint b - 1) mod 2 ^ 16 = uint a + uint b - 1" using assms(2) by (intro mod_pos_pos_trivial) simp_all
  ultimately show ?thesis unfolding uint_word_ariths by simp
qed

text \<open>C19: modulo addressing. With a modulus between 2 and 32768 in the modifier register, an address
  register that points into its buffer is moved around the buffer: the buffer starts at the multiple
  of the smallest power of two that is not below the modulus, and the new address is the sum taken
  modulo the modulus, counted from that base. The offset is below the modulus in absolute value (or
  its negation), and the sum stays below 32768, where \<open>int16_t\<close> would wrap.\<close>

theorem modulo_update:
  fixes s :: "'a dsp_core_scheme" and numreg :: u32 and modifier :: int
  defines "M \<equiv> uint (reg (DSP_REG_M0 + numreg) s)" and "r \<equiv> uint (reg (DSP_REG_R0 + numreg) s)"
  assumes M: "1 \<le> M" "M \<le> 32767" and k: "M + 1 \<le> 2 ^ k" "2 ^ (k - 1) < M + 1"
    and r: "r < 2 ^ 15" "r mod 2 ^ k < M + 1"
    and m: "- (M + 1) \<le> modifier" "modifier < M + 1" "r + modifier < 2 ^ 15"
  shows "emu_update_rn s numreg modifier = Some (set_reg (DSP_REG_R0 + numreg)
    (word_of_int (r div 2 ^ k * 2 ^ k + (r mod 2 ^ k + modifier) mod (M + 1))) s)"
proof -
  let ?m = "reg (DSP_REG_M0 + numreg) s" and ?r = "reg (DSP_REG_R0 + numreg) s" and ?lo = "r div 2 ^ k * 2 ^ k"
  have k15: "k \<le> 15"
  proof (rule ccontr)
    assume "\<not> k \<le> 15"
    then have "(2::int) ^ 15 \<le> 2 ^ (k - 1)" by (intro power_increasing) simp_all
    then show False using k(2) M(2) by simp
  qed
  have r0: "0 \<le> r" by (simp add: r_def)
  have un: "int (unat ?m) = M" "int (unat ?r) = r" by (simp_all add: M_def r_def)
  have "int (unat ?m) < int (2 ^ 15)" "int (unat ?r) < int (2 ^ 16)" unfolding un using M r(1) by simp_all
  then have small: "unat ?m < 2 ^ 15" "unat ?r < 2 ^ 16" by (simp_all only: of_nat_less_iff)
  then have mn: "unat (ucast (?m + 1) :: u16) = unat ?m + 1" by (intro unat_modulus)
  have modu: "uint (ucast (?m + 1) :: u16) = M + 1" using arg_cong [OF mn, of int] un(1) by simp
  have r16: "fits 16 ?r" using small(2) by (simp add: fits_iff_unat)
  have "int (unat ?m + 1) \<le> int (2 ^ k)" "int (2 ^ (k - 1)) < int (unat ?m + 1)" using k un(1) by simp_all
  then have kn: "unat (ucast (?m + 1) :: u16) \<le> 2 ^ k" "2 ^ (k - 1) < unat (ucast (?m + 1) :: u16)"
    unfolding mn of_nat_le_iff of_nat_less_iff by simp_all
  have buf: "bufsize_loop 16 (ucast (?m + 1)) 1 (ucast (BITMASK 16 :: u32)) = Some (shl 1 k, shl 0xffff k)"
    using bufsize_loop_pow [OF kn(1) disjI2 [OF kn(2)] k15, of 0 16] k15 by simp
  have lob: "uint (ucast (?r AND ucast (shl (0xffff::u16) k)) :: u16) = ?lo"
    unfolding r_def by (rule lobound_value [OF r16 k15])
  have "0 < M + 1" using M by simp
  note step = modulo_step [OF this k(1) k15 r0 r m]
  have hib: "uint (ucast (?r AND ucast (shl (0xffff::u16) k)) + ucast (?m + 1) - 1 :: u16) = ?lo + (M + 1) - 1"
    using uint_hibound [of "ucast (?m + 1)"] lob modu step(3) M by simp
  have nd: "\<not> M + 1 < modifier" "modifier \<noteq> M + 1" using m by simp_all
  have "emu_update_rn_modulo s numreg modifier = Some (set_reg (DSP_REG_R0 + numreg)
      (word_of_int (?lo + (r - ?lo + modifier) mod (M + 1)) AND BITMASK 16) s)"
    unfolding emu_update_rn_modulo_def buf step(1) [symmetric]
    by (simp only: Let_def buf bind.simps case_prod_conv modu lob hib nd if_False if_True simp_thms flip: r_def)
  moreover have "word_of_int (?lo + (r - ?lo + modifier) mod (M + 1)) AND BITMASK 16
      = (word_of_int (?lo + (r mod 2 ^ k + modifier) mod (M + 1)) :: u32)"
  proof -
    have "r - ?lo = r mod 2 ^ k" by (simp add: minus_div_mult_eq_mod)
    moreover have "0 \<le> (r - ?lo + modifier) mod (M + 1)" "(r - ?lo + modifier) mod (M + 1) < M + 1"
      by (rule pos_mod_sign pos_mod_bound, use M in simp)+
    ultimately show ?thesis using step(2,3) by (subst word_of_int_mask_16) simp_all
  qed
  moreover have "emu_update_rn s numreg modifier = emu_update_rn_modulo s numreg modifier"
  proof -
    have "unat (ucast ?m :: u16) = unat ?m"
      using small(1) by (simp add: unsigned_ucast_eq take_bit_nat_eq_self_iff)
    moreover have "0 < unat ?m" using un(1) M(1) by linarith
    ultimately show ?thesis using small(1)
      by (auto simp: emu_update_rn_def Let_def word_le_nat_alt word_unat_eq_iff)
  qed
  ultimately show ?thesis by simp
qed

theorem modulo_update_witness:
  "emu_update_rn (set_reg DSP_REG_M0 9 (set_reg DSP_REG_R0 0x108 fresh_dsp)) 0 5
    = Some (set_reg DSP_REG_R0 0x103 (set_reg DSP_REG_M0 9 (set_reg DSP_REG_R0 0x108 fresh_dsp)))"
  using modulo_update [of 0 "set_reg DSP_REG_M0 9 (set_reg DSP_REG_R0 0x108 fresh_dsp)" 4 5] by simp

subsection \<open>Bit-reversed addressing\<close>

text \<open>The low \<open>k\<close> bits of a word, read in the opposite order.\<close>

definition bit_reversed :: "nat \<Rightarrow> u32 \<Rightarrow> u32" where
  "bit_reversed k v = horner_sum of_bool 2 (rev (map (bit v) [0..<k]))"

lemma bit_high_mask: "k \<le> 16 \<Longrightarrow> bit (BITMASK 16 - BITMASK k :: u32) j \<longleftrightarrow> k \<le> j \<and> j < 16"
proof -
  assume k: "k \<le> 16"
  have "(2::u32) ^ 16 = 2 ^ (16 - k) * 2 ^ k" using k by (simp only: power_add [symmetric]) simp
  then have "(BITMASK 16 - BITMASK k :: u32) = push_bit k (mask (16 - k))"
    by (simp only: mask_eq_exp_minus_1 push_bit_eq_mult) (simp only: algebra_simps mult_1_left)
  then show ?thesis using k by (auto simp: bit_simps simp del: mask_u32_values)
qed

lemma bit_reverse_fold:
  "m \<le> k \<Longrightarrow> k \<le> 16 \<Longrightarrow>
    bit (fold (\<lambda>i value. if r AND shl 1 i \<noteq> 0 then value OR shl 1 (k - i - 1) else value) [0..<m] (v::u32)) j
    \<longleftrightarrow> bit v j \<or> (\<exists>i<m. bit (r::u32) i \<and> j = k - i - 1)"
proof (induction m)
  case (Suc m)
  then show ?case by (auto simp: test_bit_shl bit_simps less_Suc_eq simp del: push_bit_of_1)
qed simp

lemma bit_reverse_low:
  assumes "k \<le> 16"
  shows "bit (reverse_low k r) j \<longleftrightarrow> (if j < k then bit r (k - 1 - j) else j < 16 \<and> bit r j)"
proof -
  have "(\<exists>i<k. bit r i \<and> j = k - i - 1) \<longleftrightarrow> j < k \<and> bit r (k - 1 - j)"
    by (auto intro!: exI [of _ "k - 1 - j"])
  then show ?thesis using bit_reverse_fold [of k k r] bit_high_mask [OF assms] assms
    by (auto simp: reverse_low_def bit_and_iff simp del: mask_u32_values)
qed

lemma bit_reversed_low: "k \<le> 16 \<Longrightarrow> bit_reversed k r = take_bit k (reverse_low k r)"
proof -
  assume k: "k \<le> 16"
  have "rev (map (bit r) [0..<k]) = map (bit (reverse_low k r)) [0..<k]"
    by (rule nth_equalityI) (simp_all add: rev_nth bit_reverse_low [OF k])
  then show ?thesis by (simp add: bit_reversed_def horner_sum_bit_eq_take_bit)
qed

lemma bit_reversed_of: "k \<le> 16 \<Longrightarrow> bit_reversed k (reverse_low k r) = take_bit k r"
proof -
  assume k: "k \<le> 16"
  have "rev (map (bit (reverse_low k r)) [0..<k]) = map (bit r) [0..<k]"
    by (rule nth_equalityI) (simp_all add: rev_nth bit_reverse_low [OF k])
  then show ?thesis by (simp add: bit_reversed_def horner_sum_bit_eq_take_bit)
qed

lemma take_bit_add_left:
  assumes "k \<le> 32"
  shows "take_bit k (take_bit k (x::u32) + n) = take_bit k (x + n)"
proof -
  have d: "(2::nat) ^ k dvd 2 ^ LENGTH(32)" using assms by (intro le_imp_power_dvd) simp
  have "unat (take_bit k (take_bit k x + n)) = unat (take_bit k (x + n))"
    by (simp only: unsigned_take_bit_eq unat_word_ariths) (simp only: take_bit_eq_mod mod_mod_cancel [OF d] mod_add_left_eq)
  then show ?thesis by (simp only: word_unat_eq_iff)
qed

lemma take_bit_add_exp:
  assumes "k \<le> 16"
  shows "take_bit k ((x::u32) + 2 ^ k) = take_bit k x"
proof -
  have d: "(2::nat) ^ k dvd 2 ^ LENGTH(32)" using assms by (intro le_imp_power_dvd) simp
  have "(2::nat) ^ k < 2 ^ 32" using assms by (intro power_strict_increasing) simp_all
  then have "unat (2 ^ k :: u32) = 2 ^ k" using unat_push_bit [of k "1 :: u32"] by simp
  then have "unat (take_bit k (x + 2 ^ k)) = unat (take_bit k x)"
    by (simp only: unsigned_take_bit_eq unat_word_ariths) (simp only: take_bit_eq_mod mod_mod_cancel [OF d] mod_add_self2)
  then show ?thesis by (simp only: word_unat_eq_iff)
qed

lemma bitreverse_step:
  assumes "k \<le> 16" and "fits 16 r"
  defines "r' \<equiv> reverse_low k ((r AND (BITMASK 16 - BITMASK k)) OR ((reverse_low k r + 1) AND BITMASK k))"
  shows "bit_reversed k r' = take_bit k (bit_reversed k r + 1)" "shr r' k = shr r k" "fits 16 r'"
proof -
  let ?v = "(reverse_low k r + 1) AND BITMASK k"
  let ?q = "(r AND (BITMASK 16 - BITMASK k)) OR ?v"
  have q: "bit ?q j \<longleftrightarrow> (if j < k then bit (reverse_low k r + 1) j else j < 16 \<and> bit r j)" for j
    unfolding bit_or_iff bit_and_iff bit_high_mask [OF assms(1)] bit_mask_iff using assms(1) by (auto dest: bit_imp_le_length)
  have "bit_reversed k r' = take_bit k ?q" unfolding r'_def by (rule bit_reversed_of [OF assms(1)])
  also have "\<dots> = take_bit k (reverse_low k r + 1)"
    by (intro bit_word_eqI) (simp only: bit_take_bit_iff q if_True cong: conj_cong)
  also have "\<dots> = take_bit k (bit_reversed k r + 1)"
    unfolding bit_reversed_low [OF assms(1)] by (rule take_bit_add_left [symmetric]) (use assms(1) in simp)
  finally show "bit_reversed k r' = take_bit k (bit_reversed k r + 1)" .
  have b: "bit r' j \<longleftrightarrow> (if j < k then bit ?q (k - 1 - j) else j < 16 \<and> bit r j)" for j
    unfolding r'_def bit_reverse_low [OF assms(1)] q by auto
  show "shr r' k = shr r k"
    using assms(2) by (intro bit_word_eqI) (auto simp: bit_drop_bit_eq b fits_iff_bit)
  show "fits 16 r'" using assms(1) by (auto simp: fits_iff_bit b split: if_splits)
qed

lemma revbits_lowest:
  assumes "bit n b" and "\<And>i. i < b \<Longrightarrow> \<not> bit n i" and "b < 16"
  shows "j \<le> b \<Longrightarrow> b < j + m \<Longrightarrow> revbits_loop m n j = b"
proof (induction m arbitrary: j)
  case (Suc m)
  have "revbits_loop (Suc m) n j = (if bit n j then j else revbits_loop m n (Suc j))" using test_bit_shl [of n j] by simp
  then show ?case using assms(1) assms(2) [of j] Suc.IH [of "Suc j"] Suc.prems by (cases "j = b") simp_all
qed simp

lemma bit_reversed_inject:
  assumes "k \<le> 16" and "bit_reversed k a = bit_reversed k b" and "shr a k = shr b k"
  shows "a = b"
proof (rule bit_word_eqI)
  fix n assume "n < LENGTH(32)"
  show "bit a n = bit b n"
  proof (cases "n < k")
    case True
    have "bit (bit_reversed k a) (k - 1 - n) = bit (bit_reversed k b) (k - 1 - n)" using assms(2) by simp
    then show ?thesis using True by (simp add: bit_reversed_low [OF assms(1)] bit_take_bit_iff bit_reverse_low [OF assms(1)])
  next
    case False
    have "bit (shr a k) (n - k) = bit (shr b k) (n - k)" using assms(3) by simp
    then show ?thesis using False by (simp add: bit_drop_bit_eq)
  qed
qed

primrec update_rn_times :: "u32 \<Rightarrow> int \<Rightarrow> nat \<Rightarrow> 'a dsp_core_scheme \<Rightarrow> 'a dsp_core_scheme option" where
  "update_rn_times numreg modifier 0 s = Some s"
| "update_rn_times numreg modifier (Suc i) s = do {
     t \<leftarrow> update_rn_times numreg modifier i s;
     emu_update_rn t numreg modifier }"

lemma bitreverse_one:
  assumes "reg (DSP_REG_M0 + numreg) s = 0" and "fits 16 (reg (DSP_REG_R0 + numreg) s)"
    and "bit (reg (DSP_REG_N0 + numreg) s) (k - 1)" and "\<And>i. i < k - 1 \<Longrightarrow> \<not> bit (reg (DSP_REG_N0 + numreg) s) i"
    and "1 \<le> k" "k \<le> 16"
  shows "\<exists>r. emu_update_rn s numreg modifier = Some (set_reg (DSP_REG_R0 + numreg) r s) \<and> fits 16 r
    \<and> bit_reversed k r = take_bit k (bit_reversed k (reg (DSP_REG_R0 + numreg) s) + 1)
    \<and> shr r k = shr (reg (DSP_REG_R0 + numreg) s) k"
proof -
  have "revbits_loop 16 (reg (DSP_REG_N0 + numreg) s) 0 = k - 1"
    using revbits_lowest [OF assms(3,4), of 0 16] assms(5,6) by simp
  then have "revbits_loop 16 (reg (DSP_REG_N0 + numreg) s) 0 + 1 = k" using assms(5) by simp
  then have "emu_update_rn s numreg modifier = Some (set_reg (DSP_REG_R0 + numreg) (reverse_low k
      ((reg (DSP_REG_R0 + numreg) s AND (BITMASK 16 - BITMASK k)) OR ((reverse_low k (reg (DSP_REG_R0 + numreg) s) + 1) AND BITMASK k))) s)"
    using assms(1) by (simp add: emu_update_rn_def emu_update_rn_bitreverse_def Let_def)
  then show ?thesis using bitreverse_step [OF assms(6,2)] by blast
qed

text \<open>C20: bit-reversed addressing. With the modifier register at 0 and the lowest set bit of the offset
  register at position \<open>k - 1\<close>, any number \<open>i\<close> of updates adds \<open>i\<close> to the low \<open>k\<close> bits of the address
  register read in the opposite order, modulo \<open>2 ^ k\<close>, and leaves the other bits and the other registers
  alone. After \<open>2 ^ k\<close> updates the register is back at its first value: a table of \<open>2 ^ k\<close> entries is visited
  in bit-reversed order.\<close>

theorem bitreverse_updates:
  fixes s :: "'a dsp_core_scheme" and numreg :: u32
  defines "R \<equiv> DSP_REG_R0 + numreg" and "N \<equiv> DSP_REG_N0 + numreg"
  assumes M: "reg (DSP_REG_M0 + numreg) s = 0" and R: "fits 16 (reg R s)"
    and N: "bit (reg N s) (k - 1)" "\<And>i. i < k - 1 \<Longrightarrow> \<not> bit (reg N s) i" and k: "1 \<le> k" "k \<le> 16"
  shows "\<exists>t. update_rn_times numreg modifier i s = Some t \<and> bit_reversed k (reg R t) = take_bit k (bit_reversed k (reg R s) + of_nat i)
    \<and> shr (reg R t) k = shr (reg R s) k \<and> (\<forall>q. q \<noteq> R \<longrightarrow> reg q t = reg q s) \<and> (i = 2 ^ k \<longrightarrow> reg R t = reg R s)"
proof -
  have "\<exists>t. update_rn_times numreg modifier i s = Some t \<and> bit_reversed k (reg R t) = take_bit k (bit_reversed k (reg R s) + of_nat i)
    \<and> shr (reg R t) k = shr (reg R s) k \<and> (\<forall>q. q \<noteq> R \<longrightarrow> reg q t = reg q s) \<and> fits 16 (reg R t)"
  proof (induction i)
    case 0
    show ?case using R bit_reversed_low [OF k(2), of "reg R s"] by simp
  next
    case (Suc i)
    then obtain t where t: "update_rn_times numreg modifier i s = Some t" "\<And>q. q \<noteq> R \<Longrightarrow> reg q t = reg q s" "fits 16 (reg R t)"
      "bit_reversed k (reg R t) = take_bit k (bit_reversed k (reg R s) + of_nat i)" "shr (reg R t) k = shr (reg R s) k" by blast
    have "reg (DSP_REG_M0 + numreg) t = 0" "reg N t = reg N s" using t(2) M by (simp_all add: R_def N_def)
    then obtain r where "emu_update_rn t numreg modifier = Some (set_reg R r t)" "fits 16 r"
      "bit_reversed k r = take_bit k (bit_reversed k (reg R t) + 1)" "shr r k = shr (reg R t) k"
      using bitreverse_one [of numreg t k modifier] t(3) N k unfolding R_def N_def by metis
    moreover have "take_bit k (take_bit k (bit_reversed k (reg R s) + of_nat i) + 1) = take_bit k (bit_reversed k (reg R s) + of_nat (Suc i))"
      using k by (subst take_bit_add_left) (simp_all add: add_ac)
    ultimately show ?case using t by simp
  qed
  then obtain t where t: "update_rn_times numreg modifier i s = Some t" "\<forall>q. q \<noteq> R \<longrightarrow> reg q t = reg q s"
      "bit_reversed k (reg R t) = take_bit k (bit_reversed k (reg R s) + of_nat i)" "shr (reg R t) k = shr (reg R s) k" by blast
  moreover have "reg R t = reg R s" if "i = 2 ^ k"
  proof (rule bit_reversed_inject [OF k(2) _ t(4)])
    show "bit_reversed k (reg R t) = bit_reversed k (reg R s)"
      using t(3) that bit_reversed_low [OF k(2), of "reg R s"] take_bit_add_exp [OF k(2)] by simp
  qed
  ultimately show ?thesis by blast
qed

theorem bitreverse_updates_witness:
  "\<exists>t. update_rn_times 0 1 3 (set_reg DSP_REG_M0 0 (set_reg DSP_REG_N0 4 (set_reg DSP_REG_R0 0x100 fresh_dsp))) = Some t
    \<and> bit_reversed 3 (reg DSP_REG_R0 t) = 3 \<and> shr (reg DSP_REG_R0 t) 3 = 0x20"
proof -
  let ?s = "set_reg DSP_REG_M0 0 (set_reg DSP_REG_N0 4 (set_reg DSP_REG_R0 0x100 fresh_dsp))"
  have h: "reg (DSP_REG_M0 + 0) ?s = 0" "fits 16 (reg (DSP_REG_R0 + 0) ?s)" "bit (reg (DSP_REG_N0 + 0) ?s) (3 - 1)"
    by (simp_all add: fits_numeral_iff)
  have n: "\<not> bit (reg (DSP_REG_N0 + 0) ?s) i" if "i < 3 - 1" for i
    using that by (auto simp: less_Suc_eq numeral_2_eq_2)
  have v: "bit_reversed 3 0x100 = 0" by code_simp
  show ?thesis using bitreverse_updates [OF h n, where i = 3 and modifier = 1] v by auto
qed

end
