(* ===== verification/Dsp_Cond_Props.thy ===== *)
theory Dsp_Cond_Props
  imports Dsp_Alu_Correct Dsp_Pm
begin

text \<open>
  The conditions that follow a comparison, the limiter through which the moves read an
  accumulator, and the sign of an arithmetic shift to the right.
\<close>

subsection \<open>Conditions after a comparison\<close>

lemma calc_cc_flags:
  "emu_calc_cc s 0 \<longleftrightarrow> \<not> flag DSP_SR_C s" "emu_calc_cc s 8 \<longleftrightarrow> flag DSP_SR_C s"
  "emu_calc_cc s 1 \<longleftrightarrow> flag DSP_SR_N s = flag DSP_SR_V s" "emu_calc_cc s 9 \<longleftrightarrow> flag DSP_SR_N s \<noteq> flag DSP_SR_V s"
  "emu_calc_cc s 2 \<longleftrightarrow> \<not> flag DSP_SR_Z s" "emu_calc_cc s 10 \<longleftrightarrow> flag DSP_SR_Z s"
  "emu_calc_cc s 7 \<longleftrightarrow> \<not> flag DSP_SR_Z s \<and> flag DSP_SR_N s = flag DSP_SR_V s"
  "emu_calc_cc s 15 \<longleftrightarrow> flag DSP_SR_Z s \<or> flag DSP_SR_N s \<noteq> flag DSP_SR_V s"
proof -
  have b: "shr (reg DSP_REG_SR s) k AND 1 = of_bool (flag k s)" for k by (simp add: flag_def and_1_bit)
  have t: "reg DSP_REG_SR s AND shl 1 k = 0 \<longleftrightarrow> \<not> flag k s" for k
    using test_bit_shl [of "reg DSP_REG_SR s" k] by (auto simp: flag_def)
  have c: "reg DSP_REG_SR s AND shl 1 0 = 1 \<longleftrightarrow> flag 0 s"
    using b [of 0] by simp
  show "emu_calc_cc s 0 \<longleftrightarrow> \<not> flag DSP_SR_C s" "emu_calc_cc s 8 \<longleftrightarrow> flag DSP_SR_C s"
  "emu_calc_cc s 1 \<longleftrightarrow> flag DSP_SR_N s = flag DSP_SR_V s" "emu_calc_cc s 9 \<longleftrightarrow> flag DSP_SR_N s \<noteq> flag DSP_SR_V s"
  "emu_calc_cc s 2 \<longleftrightarrow> \<not> flag DSP_SR_Z s" "emu_calc_cc s 10 \<longleftrightarrow> flag DSP_SR_Z s"
  "emu_calc_cc s 7 \<longleftrightarrow> \<not> flag DSP_SR_Z s \<and> flag DSP_SR_N s = flag DSP_SR_V s"
  "emu_calc_cc s 15 \<longleftrightarrow> flag DSP_SR_Z s \<or> flag DSP_SR_N s \<noteq> flag DSP_SR_V s"
    unfolding emu_calc_cc_def Let_def b t c
    by (cases "flag 0 s"; cases "flag 1 s"; cases "flag 2 s"; cases "flag 3 s"; simp)+
qed

lemma wrapped_order:
  fixes x y :: int
  assumes "- (2 ^ 55) \<le> x" "x < 2 ^ 55" "- (2 ^ 55) \<le> y" "y < 2 ^ 55"
  shows "(wrap56 (x - y) < 0) = out_of_56 (x - y) \<longleftrightarrow> y \<le> x" "wrap56 (x - y) = 0 \<longleftrightarrow> x = y"
proof -
  let ?d = "x - y"
  have w: "wrap56 ?d = (if out_of_56 ?d then if 0 \<le> ?d then ?d - 2 ^ 56 else ?d + 2 ^ 56 else ?d)"
  proof -
    consider "?d < - (2 ^ 55)" | "- (2 ^ 55) \<le> ?d" "?d < 2 ^ 55" | "2 ^ 55 \<le> ?d" by linarith
    then show ?thesis
    proof cases
      case 1
      then have "(?d + 2 ^ 55 + 2 ^ 56) mod 2 ^ 56 = ?d + 2 ^ 55 + 2 ^ 56" using assms by (intro mod_pos_pos_trivial) simp_all
      then have "(?d + 2 ^ 55) mod 2 ^ 56 = ?d + 2 ^ 55 + 2 ^ 56" using mod_add_self2 [of "?d + 2 ^ 55" "2 ^ 56"] by (simp only:)
      then show ?thesis using 1 unfolding wrap56_def out_of_56_def by simp
    next
      case 2
      then show ?thesis by (simp add: wrap56_def out_of_56_def)
    next
      case 3
      then have "(?d + 2 ^ 55 - 2 ^ 56) mod 2 ^ 56 = ?d + 2 ^ 55 - 2 ^ 56" using assms by (intro mod_pos_pos_trivial) simp_all
      then have "(?d + 2 ^ 55) mod 2 ^ 56 = ?d + 2 ^ 55 - 2 ^ 56" using minus_mod_self2 [of "?d + 2 ^ 55" "2 ^ 56"] by (simp only:)
      then show ?thesis using 3 unfolding wrap56_def out_of_56_def by simp
    qed
  qed
  then show "(wrap56 ?d < 0) = out_of_56 ?d \<longleftrightarrow> y \<le> x" "wrap56 ?d = 0 \<longleftrightarrow> x = y"
    using assms by (auto simp: out_of_56_def)
qed

lemma sint_u32: "sint (w::u32) = (if unat w < 2 ^ 31 then int (unat w) else int (unat w) - 2 ^ 32)"
proof -
  have l: "unat w < 2 ^ 32" using unat_less_exp [of w] by simp
  have s: "sint w = take_bit 32 (int (unat w) + 2 ^ 31) - 2 ^ 31"
    by (simp add: sint_uint signed_take_bit_eq_take_bit_shift)
  show ?thesis
  proof (cases "unat w < 2 ^ 31")
    case True
    then have "take_bit 32 (int (unat w) + 2 ^ 31) = int (unat w) + 2 ^ 31" by (simp add: take_bit_int_eq_self_iff del: of_nat_unat)
    then show ?thesis using s True by simp
  next
    case False
    then have "(int (unat w) + 2 ^ 31 - 2 ^ 32) mod 2 ^ 32 = int (unat w) + 2 ^ 31 - 2 ^ 32"
      using l by (intro mod_pos_pos_trivial) (simp_all del: of_nat_unat)
    then have "take_bit 32 (int (unat w) + 2 ^ 31) = int (unat w) + 2 ^ 31 - 2 ^ 32"
      using minus_mod_self2 [of "int (unat w) + 2 ^ 31" "2 ^ 32"] by (simp only: take_bit_eq_mod)
    then show ?thesis using s False by simp
  qed
qed

lemma sval56_range: "wf3 d \<Longrightarrow> - (2 ^ 55) \<le> sval56 d \<and> sval56 d < 2 ^ 55"
  using wf3_val56_less [of d] by (auto simp: sval56_def signed56_def)

text \<open>C21: the conditions after a CMP, in every scaling mode but the reserved one. Whatever the operands, and also when the subtraction overflows, the
  conditions GE, LT, GT, LE, NE and EQ decide the order of the two accumulator values as signed 56-bit
  numbers, and CC and CS their order as unsigned numbers.\<close>

theorem cmp_conditions:
  assumes "regs_wf s" and "wf3 (src s)" and "scaling s \<noteq> 3"
  shows "let t = alu_cmp a src s; x = sval56 (load56 a s); y = sval56 (src s) in
    (emu_calc_cc t 1 \<longleftrightarrow> y \<le> x) \<and> (emu_calc_cc t 9 \<longleftrightarrow> x < y) \<and> (emu_calc_cc t 7 \<longleftrightarrow> y < x) \<and> (emu_calc_cc t 15 \<longleftrightarrow> x \<le> y)
    \<and> (emu_calc_cc t 2 \<longleftrightarrow> x \<noteq> y) \<and> (emu_calc_cc t 10 \<longleftrightarrow> x = y)
    \<and> (emu_calc_cc t 0 \<longleftrightarrow> val56 (src s) \<le> val56 (load56 a s)) \<and> (emu_calc_cc t 8 \<longleftrightarrow> val56 (load56 a s) < val56 (src s))"
proof -
  have l: "wf3 (load56 a s)" by (rule wf3_load56 [OF assms(1)])
  let ?d = "snd (dsp_sub56 (src s) (load56 a s))" and ?x = "sval56 (load56 a s)" and ?y = "sval56 (src s)"
  have d: "wf3 ?d" "sval56 ?d = wrap56 (?x - ?y)"
    by (rule dsp_sub56_spec sub56_signed; fact assms(2) l)+
  have t: "alu_cmp a src s = flags_vc ?d (ccr_bits (out_of_56 (?x - ?y)) (out_of_56 (?x - ?y)) (val56 (load56 a s) < val56 (src s))) s"
    unfolding alu_cmp_def case_prod_unfold Let_def dsp_sub56_spec(3) [OF assms(2) l] out_of_56_def by (rule refl)
  note f = flag_vc [OF assms(3) d(1)] and o = wrapped_order [of ?x ?y]
  have o: "(wrap56 (?x - ?y) < 0) = out_of_56 (?x - ?y) \<longleftrightarrow> ?y \<le> ?x" "wrap56 (?x - ?y) = 0 \<longleftrightarrow> ?x = ?y"
    using wrapped_order [of ?x ?y] sval56_range [OF l] sval56_range [OF assms(2)] by simp_all
  show ?thesis unfolding Let_def t calc_cc_flags f d(2) o by (intro conjI) auto
qed

theorem cmp_conditions_witness:
  "emu_calc_cc (emu_cmp_x0_a alu_sample) 7 \<and> \<not> emu_calc_cc (emu_cmp_x0_a alu_sample) 0"
proof -
  have "wf3 (src_reg DSP_REG_X0 alu_sample)" by (intro wf3_src regs_wf_sample)
  from cmp_conditions [where src = "src_reg DSP_REG_X0" and a = ACC_A, OF regs_wf_sample this scaling_sample]
  show ?thesis unfolding Let_def emu_cmp_x0_a_def sample_values by (simp add: value56)
qed

subsection \<open>The limiter\<close>

text \<open>C22: reading an accumulator through the limiter, without scaling. The 24-bit result is the upper
  part of the accumulator (A2:A1, a signed number) clamped to the range of 24-bit numbers; the limit
  flag is set exactly when the value was out of range, and nothing else changes.\<close>

theorem limiter_clamps:
  fixes s :: "'a dsp_core_scheme" and numreg :: u32
  defines "hi \<equiv> reg (DSP_REG_A2 + (numreg AND 1)) s" and "mid \<equiv> reg (DSP_REG_A1 + (numreg AND 1)) s"
  defines "x \<equiv> sint (shl hi 24 + mid)"
  defines "c \<equiv> max (- (2 ^ 23)) (min (2 ^ 23 - 1) x)"
  assumes "fits 8 hi" and "fits 24 mid" and "shr (reg DSP_REG_SR s) DSP_SR_S0 AND BITMASK 2 = 0"
  shows "\<exists>v. emu_pm_read_accu24 s numreg = (x \<noteq> c, v, if x \<noteq> c then sr_set (shl 1 DSP_SR_L) s else s)
    \<and> uint v = c mod 2 ^ 24"
proof -
  let ?h = "unat hi" and ?m = "unat mid"
  have b: "?h < 256" "?m < 2 ^ 24" using assms(5,6) by (simp_all add: fits_iff_unat)
  have u: "unat (shl hi 24 + mid) = ?h * 2 ^ 24 + ?m"
    using b by (subst unat_add_small) (simp_all add: unat_push_bit)
  have x: "x = (if ?h < 128 then int (?h * 2 ^ 24 + ?m) else int (?h * 2 ^ 24 + ?m) - 2 ^ 32)"
    unfolding x_def sint_u32 u using b by simp
  have v: "(shl hi 24 + mid) AND BITMASK 24 = mid"
  proof -
    have "unat ((shl hi 24 + mid) AND BITMASK 24) = unat mid" unfolding unat_and_mask u using b by simp
    then show ?thesis by (simp only: word_unat_eq_iff)
  qed
  have n: "hi AND shl 1 7 \<noteq> 0 \<longleftrightarrow> 128 \<le> ?h"
  proof -
    have "bit hi 7 \<longleftrightarrow> bit (unat hi) 7" by (simp add: bit_unsigned_iff)
    moreover have "bit (unat hi) 7 \<longleftrightarrow> odd (unat hi div 128)" by (simp add: bit_iff_odd)
    moreover have "unat hi div 128 = (if 128 \<le> unat hi then 1 else 0)" using b(1) by (auto intro!: div_nat_eqI)
    ultimately show ?thesis unfolding test_bit_shl by simp
  qed
  have not_two: "((0::u32) = 2) = False" "((0::u32) = 1) = False" by simp_all
  have e: "emu_pm_read_accu24 s numreg =
      (if hi = 0 \<and> mid \<le> 0x007fffff then (False, mid, s) else if hi = 0xff \<and> mid \<ge> 0x00800000 then (False, mid, s)
       else if 128 \<le> ?h then (True, 0x00800000, sr_set (shl 1 DSP_SR_L) s) else (True, 0x007fffff, sr_set (shl 1 DSP_SR_L) s))"
    unfolding emu_pm_read_accu24_def Let_def assms(7) hi_def [symmetric] mid_def [symmetric] v n
      zero_neq_one if_False not_two v by (rule refl)
  have z: "hi = 0 \<longleftrightarrow> ?h = 0" "hi = 0xff \<longleftrightarrow> ?h = 255" "mid \<le> 0x007fffff \<longleftrightarrow> ?m < 2 ^ 23" "mid \<ge> 0x00800000 \<longleftrightarrow> 2 ^ 23 \<le> ?m"
    by (auto simp: word_unat_eq_iff word_le_nat_alt)
  have "int ?m < int (2 ^ 24)" using b(2) by (simp only: of_nat_less_iff)
  then have i: "uint mid mod 2 ^ 24 = uint mid" by simp
  consider "?h = 0" "?m < 2 ^ 23" | "?h = 255" "2 ^ 23 \<le> ?m" | "128 \<le> ?h" "\<not> (?h = 255 \<and> 2 ^ 23 \<le> ?m)"
    | "?h < 128" "\<not> (?h = 0 \<and> ?m < 2 ^ 23)" by linarith
  then show ?thesis
  proof cases
    case 1
    then have "x = int ?m" "c = x" unfolding c_def x by (simp_all del: of_nat_unat)
    then have "\<not> x \<noteq> c" "c mod 2 ^ 24 = uint mid" using i by simp_all
    then show ?thesis using 1 e z by simp
  next
    case 2
    then have "x = int ?m - 2 ^ 24" "c = x" unfolding c_def x using b by (simp_all del: of_nat_unat)
    then have "\<not> x \<noteq> c" "c mod 2 ^ 24 = uint mid" using i by simp_all
    then show ?thesis using 2 e z by simp
  next
    case 3
    then have "x < - (2 ^ 23)" unfolding x using b by (simp del: of_nat_unat) linarith
    then have "x \<noteq> c" "c = - (2 ^ 23)" by (simp_all add: c_def)
    then show ?thesis using 3 e z by simp
  next
    case 4
    then have "2 ^ 23 \<le> x" unfolding x using b by (simp del: of_nat_unat) linarith
    then have "x \<noteq> c" "c = 2 ^ 23 - 1" by (simp_all add: c_def)
    then show ?thesis using 4 e z by simp
  qed
qed

theorem limiter_clamps_witness:
  "\<exists>v. emu_pm_read_accu24 alu_sample DSP_REG_A = (True, v, sr_set (shl 1 DSP_SR_L) alu_sample) \<and> uint v = 0x7fffff"
proof -
  have r: "reg (DSP_REG_A2 + (DSP_REG_A AND 1)) alu_sample = 0x7f" "reg (DSP_REG_A1 + (DSP_REG_A AND 1)) alu_sample = 0xffffff"
    "reg DSP_REG_SR alu_sample = 0" by code_simp+
  have h: "fits 8 (reg (DSP_REG_A2 + (DSP_REG_A AND 1)) alu_sample)" "fits 24 (reg (DSP_REG_A1 + (DSP_REG_A AND 1)) alu_sample)"
    "shr (reg DSP_REG_SR alu_sample) DSP_SR_S0 AND BITMASK 2 = 0" unfolding r by (simp_all add: fits_numeral_iff)
  have x: "sint (shl (0x7f::u32) 24 + 0xffffff) = 2 ^ 31 - 1" by (simp add: push_bit_eq_mult)
  from limiter_clamps [OF h, unfolded r x] show ?thesis by simp
qed

text \<open>The doubled value that the limiter compares in the scale-up mode.\<close>

lemma scaled_up_value:
  assumes "fits 8 hi" and "fits 24 mid"
  shows "unat ((shl (shl hi 24 + mid) 1 OR (shr lo 23 AND 1)) AND BITMASK 24) = (2 * unat mid + of_bool (bit lo 23)) mod 2 ^ 24"
proof -
  let ?h = "unat hi" and ?m = "unat mid"
  have b: "?h < 256" "?m < 2 ^ 24" using assms by (simp_all add: fits_iff_unat)
  have u: "unat (shl hi 24 + mid) = ?h * 2 ^ 24 + ?m"
    using b by (subst unat_add_small) (simp_all add: unat_push_bit)
  have "shl x 1 AND of_bool k = (0::u32)" for x k
    by (rule bit_eqI) (auto simp: bit_and_iff bit_push_bit_iff of_bool_def bit_1_iff simp del: push_bit_Suc push_bit_numeral)
  then have eq: "shl (shl hi 24 + mid) 1 OR (shr lo 23 AND 1) = shl (shl hi 24 + mid) 1 + of_bool (bit lo 23)"
    unfolding and_1_bit by (rule or_disjoint_add)
  obtain k where bo: "(of_bool (bit lo 23) :: nat) = k" by simp
  have "unat (shl (shl hi 24 + mid) 1 + of_bool (bit lo 23)) = (2 * (?h * 2 ^ 24 + ?m) mod 2 ^ 32 + k) mod 2 ^ 32"
  proof -
    have l: "LENGTH(32) = 32" by simp
    have w: "unat (of_bool k :: u32) = of_bool k" for k by (cases k) simp_all
    have "unat (shl x 1 + of_bool k) = (2 * unat x mod 2 ^ 32 + of_bool k) mod 2 ^ 32" for x :: u32 and k
      unfolding unat_word_ariths unat_push_bit l w power_one_right by (simp only: mult.commute)
    from this [of "shl hi 24 + mid" "bit lo 23"] show ?thesis unfolding u bo .
  qed
  then have "unat (shl (shl hi 24 + mid) 1 + of_bool (bit lo 23)) mod 2 ^ 24 = (2 * (?h * 2 ^ 24 + ?m) + k) mod 2 ^ 24"
    by (simp only: mod_add_left_eq) (rule mod_mod_cancel, simp)
  also have "2 * (?h * 2 ^ 24 + ?m) + k = (2 * ?m + k) + (2 * ?h) * 2 ^ 24" by (simp only: ring_distribs ac_simps)
  also have "((2 * ?m + k) + (2 * ?h) * 2 ^ 24) mod 2 ^ 24 = (2 * ?m + k) mod 2 ^ 24" by (rule mod_mult_self1)
  finally have "unat (shl (shl hi 24 + mid) 1 + of_bool (bit lo 23)) mod 2 ^ 24 = (2 * ?m + k) mod 2 ^ 24" .
  then show ?thesis unfolding unat_and_mask eq bo .
qed

lemma sign_bit_8: "fits 8 (hi::u32) \<Longrightarrow> hi AND shl 1 7 \<noteq> 0 \<longleftrightarrow> 128 \<le> unat hi"
proof -
  assume "fits 8 hi"
  then have b: "unat hi < 256" by (simp add: fits_iff_unat)
  have "bit hi 7 \<longleftrightarrow> bit (unat hi) 7" by (simp add: bit_unsigned_iff)
  moreover have "bit (unat hi) 7 \<longleftrightarrow> odd (unat hi div 128)" by (simp add: bit_iff_odd)
  moreover have "unat hi div 128 = (if 128 \<le> unat hi then 1 else 0)" using b by (auto intro!: div_nat_eqI)
  ultimately show ?thesis unfolding test_bit_shl by simp
qed

text \<open>C23: reading an accumulator through the limiter in the scale-up mode. The value is twice the upper part of the accumulator
  plus the next bit, \<open>y\<close>. Since it is cut to 24 bits before it is compared, the limiter misses the values with A2 = 0 and
  A1 from 0x800000 to 0xbfffff and those with A2 = 0xff and A1 from 0x400000 to 0x7fffff: it delivers the low 24 bits of \<open>y\<close> and does
  not set the limit flag, though \<open>y\<close> is out of range. For all other values the result is \<open>y\<close> clamped, and the limit
  flag is set exactly when \<open>y\<close> was out of range.\<close>

theorem limiter_scale_up_misses:
  fixes s :: "'a dsp_core_scheme" and numreg :: u32
  defines "hi \<equiv> reg (DSP_REG_A2 + (numreg AND 1)) s" and "mid \<equiv> reg (DSP_REG_A1 + (numreg AND 1)) s"
    and "lo \<equiv> reg (DSP_REG_A0 + (numreg AND 1)) s"
  defines "y \<equiv> 2 * sint (shl hi 24 + mid) + of_bool (bit lo 23)"
  defines "c \<equiv> max (- (2 ^ 23)) (min (2 ^ 23 - 1) y)"
  defines "missed \<equiv> hi = 0 \<and> 0x800000 \<le> mid \<and> mid < 0xC00000 \<or> hi = 0xff \<and> 0x400000 \<le> mid \<and> mid < 0x800000"
  assumes "fits 8 hi" and "fits 24 mid" and "shr (reg DSP_REG_SR s) DSP_SR_S0 AND BITMASK 2 = 2"
  shows "\<exists>v. emu_pm_read_accu24 s numreg =
      (if missed then (False, v, s) else (y \<noteq> c, v, if y \<noteq> c then sr_set (shl 1 DSP_SR_L) s else s))
    \<and> uint v = (if missed then y else c) mod 2 ^ 24 \<and> (missed \<longrightarrow> y \<noteq> c)"
proof -
  define z where "z = (shl (shl hi 24 + mid) 1 OR (shr lo 23 AND 1)) AND BITMASK 24"
  obtain h m k n where hm: "unat hi = h" "unat mid = m" "(of_bool (bit lo 23) :: nat) = k" "unat z = n" by simp
  have b: "h < 256" "m < 0x1000000" "k \<le> 1" using assms(7,8) hm by (auto simp: fits_iff_unat)
  have u: "unat (shl hi 24 + mid) = h * 0x1000000 + m"
    using b by (subst unat_add_small) (simp_all add: unat_push_bit hm)
  have z: "n = (if m < 0x800000 then 2 * m + k else 2 * m + k - 0x1000000)"
  proof (cases "m < 0x800000")
    case True
    then have "2 * m + k < 0x1000000" using b(3) by linarith
    then show ?thesis using True scaled_up_value [OF assms(7,8), of lo] hm by (simp add: z_def)
  next
    case False
    then have "2 * m + k - 0x1000000 < 0x1000000" "0x1000000 \<le> 2 * m + k" using b(2,3) by simp_all
    then show ?thesis using False scaled_up_value [OF assms(7,8), of lo] hm by (simp add: z_def le_mod_geq)
  qed
  have y: "y = 2 * (if h < 128 then int (h * 0x1000000 + m) else int (h * 0x1000000 + m) - 0x100000000) + int k"
    unfolding y_def sint_u32 u using b hm(3) by (auto simp: of_bool_def)
  have e: "emu_pm_read_accu24 s numreg =
      (if h = 0 \<and> n < 0x800000 then (False, z, s) else if h = 255 \<and> 0x800000 \<le> n then (False, z, s)
       else if 128 \<le> h then (True, 0x00800000, sr_set (shl 1 DSP_SR_L) s) else (True, 0x007fffff, sr_set (shl 1 DSP_SR_L) s))"
  proof -
    have "hi = 0 \<longleftrightarrow> h = 0" "hi = 0xff \<longleftrightarrow> h = 255" "z \<le> 0x007fffff \<longleftrightarrow> n < 0x800000" "z \<ge> 0x00800000 \<longleftrightarrow> 0x800000 \<le> n"
      by (auto simp: word_unat_eq_iff word_le_nat_alt hm)
    moreover have "((2::u32) = 1) = False" by simp
    ultimately show ?thesis
      unfolding emu_pm_read_accu24_def Let_def assms(9) hi_def [symmetric] mid_def [symmetric] lo_def [symmetric]
      by (simp only: if_False if_True z_def [symmetric] sign_bit_8 [OF assms(7), unfolded hm(1)] simp_thms)
  qed
  have ms: "missed \<longleftrightarrow> h = 0 \<and> 0x800000 \<le> m \<and> m < 0xC00000 \<or> h = 255 \<and> 0x400000 \<le> m \<and> m < 0x800000"
    unfolding missed_def by (auto simp: word_unat_eq_iff word_le_nat_alt word_less_nat_alt hm)
  have "y = 2 * int m + int k + 0x1000000 * (if h < 128 then 2 * int h else 2 * int h - 0x200)" unfolding y by simp
  then have "y mod 2 ^ 24 = int ((2 * m + k) mod 2 ^ 24)" by (simp add: zmod_int)
  also have "(2 * m + k) mod 2 ^ 24 = n" using scaled_up_value [OF assms(7,8), of lo] hm by (simp add: z_def)
  finally have v: "uint z = y mod 2 ^ 24" using hm(4) by (metis of_nat_unat)
  have c: "y < - (2 ^ 23) \<Longrightarrow> c = - (2 ^ 23)" "2 ^ 23 \<le> y \<Longrightarrow> c = 2 ^ 23 - 1" "- (2 ^ 23) \<le> y \<Longrightarrow> y < 2 ^ 23 \<Longrightarrow> c = y"
    by (simp_all add: c_def)
  have up: "2 ^ 23 \<le> y" if "h < 128" "\<not> (h = 0 \<and> m < 0x400000)"
  proof -
    have "0x800000 \<le> 2 * (h * 0x1000000 + m) + k" using that by (cases "h = 0") simp_all
    moreover have "y = int (2 * (h * 0x1000000 + m) + k)" using that(1) unfolding y by simp
    ultimately show ?thesis by simp
  qed
  have dn: "y < - (2 ^ 23)" if "128 \<le> h" "\<not> (h = 255 \<and> 0xC00000 \<le> m)"
  proof -
    have "2 * (h * 0x1000000 + m) + k + 0x800000 < 0x200000000" 
    proof -
      have "h \<le> 254 \<or> h = 255 \<and> m + 1 \<le> 0xC00000" using that(2) b(1) by linarith
      then show ?thesis using b(2,3) by (elim disjE conjE) simp_all
    qed
    moreover have "y = int (2 * (h * 0x1000000 + m) + k) - 0x200000000" using that(1) unfolding y by simp
    ultimately show ?thesis by simp
  qed
  consider (missed) missed | (inside) "\<not> missed" "h = 0 \<and> m < 0x400000 \<or> h = 255 \<and> 0xC00000 \<le> m"
    | (above) "\<not> missed" "h < 128" "\<not> (h = 0 \<and> m < 0x400000)" | (below) "\<not> missed" "128 \<le> h" "\<not> (h = 255 \<and> 0xC00000 \<le> m)"
    using not_less [of h 128] by blast
  then show ?thesis
  proof cases
    case missed
    then have "h = 0 \<and> n < 0x800000 \<or> h = 255 \<and> 0x800000 \<le> n" unfolding ms z using b by auto
    then have "emu_pm_read_accu24 s numreg = (False, z, s)" unfolding e by auto
    moreover have "h < 128 \<and> \<not> (h = 0 \<and> m < 0x400000) \<or> 128 \<le> h \<and> \<not> (h = 255 \<and> 0xC00000 \<le> m)" using missed unfolding ms by auto
    then have "2 ^ 23 \<le> y \<or> y < - (2 ^ 23)" using up dn by blast
    then have "y \<noteq> c" using c(1,2) by (elim disjE) simp_all
    ultimately show ?thesis using missed v by (intro exI [of _ z]) simp
  next
    case inside
    then have "h = 0 \<and> n < 0x800000 \<or> h = 255 \<and> 0x800000 \<le> n" unfolding z using b by auto
    then have "emu_pm_read_accu24 s numreg = (False, z, s)" unfolding e by auto
    moreover have "- (2 ^ 23) \<le> y \<and> y < 2 ^ 23" using inside(2) b unfolding y by auto
    then have "y = c" using c(3) by simp
    ultimately show ?thesis using inside(1) v by (intro exI [of _ z]) simp
  next
    case above
    then have "\<not> (h = 0 \<and> n < 0x800000)" "h \<noteq> 255" unfolding z ms using b by auto
    then have "emu_pm_read_accu24 s numreg = (True, 0x007fffff, sr_set (shl 1 DSP_SR_L) s)" unfolding e using above(2) by simp
    moreover have "c = 2 ^ 23 - 1" by (rule c(2) [OF up [OF above(2,3)]])
    moreover have "y \<noteq> 2 ^ 23 - 1" using up [OF above(2,3)] by simp
    ultimately show ?thesis using above(1) by (intro exI [of _ "0x007fffff"]) simp
  next
    case below
    then have "\<not> (h = 255 \<and> 0x800000 \<le> n)" "h \<noteq> 0" unfolding z ms using b by auto
    then have "emu_pm_read_accu24 s numreg = (True, 0x00800000, sr_set (shl 1 DSP_SR_L) s)" unfolding e using below(2) by simp
    moreover have "c = - (2 ^ 23)" by (rule c(1) [OF dn [OF below(2,3)]])
    moreover have "y \<noteq> - (2 ^ 23)" using dn [OF below(2,3)] by simp
    ultimately show ?thesis using below(1) by (intro exI [of _ "0x00800000"]) simp
  qed
qed

theorem limiter_scale_up_misses_witness:
  "\<exists>v. emu_pm_read_accu24 (set_reg DSP_REG_A1 0xA00000 (set_reg DSP_REG_SR 0x800 fresh_dsp)) 0
    = (False, v, set_reg DSP_REG_A1 0xA00000 (set_reg DSP_REG_SR 0x800 fresh_dsp)) \<and> uint v = 0x400000"
proof -
  let ?s = "set_reg DSP_REG_A1 0xA00000 (set_reg DSP_REG_SR 0x800 fresh_dsp)"
  have r: "reg (DSP_REG_A2 + (0 AND 1)) ?s = 0" "reg (DSP_REG_A1 + (0 AND 1)) ?s = 0xA00000"
    "reg (DSP_REG_A0 + (0 AND 1)) ?s = 0" "shr (reg DSP_REG_SR ?s) DSP_SR_S0 AND BITMASK 2 = 2"
    by code_simp+
  have "fits 8 (reg (DSP_REG_A2 + (0 AND 1)) ?s)" "fits 24 (reg (DSP_REG_A1 + (0 AND 1)) ?s)" unfolding r by (simp_all add: fits_iff_unat)
  moreover have "sint (shl (0::u32) 24 + 0xA00000) = 0xA00000" by simp
  ultimately show ?thesis using limiter_scale_up_misses [of 0 ?s, unfolded r(1-3)] r(1,2,4) by simp
qed

subsection \<open>Arithmetic shift to the right\<close>

text \<open>C24: an arithmetic shift to the right loses the sign. For a negative accumulator, ASR shifts a zero into the
  sign bit: the result is positive, half of the accumulator read as an unsigned number, instead of the
  accumulator divided by two.\<close>

theorem asr_loses_sign:
  assumes "regs_wf s" and "sval56 (load56 a s) < 0"
  shows "sval56 (load56 a (alu_asr a s)) = (sval56 (load56 a s) + 2 ^ 56) div 2 \<and> 0 < sval56 (load56 a (alu_asr a s))"
proof -
  have l: "wf3 (load56 a s)" by (rule wf3_load56 [OF assms(1)])
  have v: "val56 (snd (dsp_asr56 (load56 a s) 1)) = val56 (load56 a s) div 2" using dsp_asr56_spec(2) [OF l, of 1] by simp
  have t: "load56 a (alu_asr a s) = snd (dsp_asr56 (load56 a s) 1)" unfolding alu_asr_def case_prod_unfold Let_def
    by (simp add: load56_store56)
  have n: "2 ^ 55 \<le> val56 (load56 a s)" "sval56 (load56 a s) = int (val56 (load56 a s)) - 2 ^ 56"
    using assms(2) by (auto simp: sval56_def signed56_def split: if_splits)
  have "val56 (load56 a s) div 2 < 2 ^ 55" using wf3_val56_less [OF l] by simp
  then have "sval56 (load56 a (alu_asr a s)) = int (val56 (load56 a s) div 2)" unfolding t sval56_def signed56_def v by simp
  moreover have "0 < val56 (load56 a s) div 2" using div_le_mono [OF n(1), of 2] by simp
  ultimately show ?thesis using n(2) by (simp add: zdiv_int)
qed

theorem asr_loses_sign_witness:
  "sval56 (load56 ACC_A (set_reg DSP_REG_A2 0xFF (set_reg DSP_REG_A1 0xFFFFFF alu_sample))) < 0
    \<and> 0 < sval56 (load56 ACC_A (emu_asr_a (set_reg DSP_REG_A2 0xFF (set_reg DSP_REG_A1 0xFFFFFF alu_sample))))"
proof -
  let ?s = "set_reg DSP_REG_A2 0xFF (set_reg DSP_REG_A1 0xFFFFFF alu_sample)"
  have "regs_wf ?s" by (intro regs_wf_set_reg regs_wf_sample) (simp_all add: fits_numeral_iff)
  moreover have "load56 ACC_A ?s = (0xff, 0xffffff, 0xffffff)" by code_simp
  then have "sval56 (load56 ACC_A ?s) < 0" by (simp add: value56)
  ultimately show ?thesis using asr_loses_sign [of ?s ACC_A] by (simp add: emu_asr_a_def)
qed

end
