(* ===== verification/Swizzle.thy ===== *)
theory Swizzle
  imports Prelude
begin

text \<open>
  Texture swizzling, \<open>nv2a/swizzle.c\<close>: the bit masks of the swizzled order, the offset of a texel, and the
  conversion of boxes and rectangles between the linear and the swizzled layout.

  A buffer is a function from byte offsets, seen from the pointer the caller passes; the source and the
  destination do not overlap. Offsets are computed in 32-bit arithmetic as in C and added to the pointer
  without wrapping. The loops that may not end are \<open>partial_function\<close>s.
\<close>

subsection \<open>Masks\<close>

partial_function (option) swizzle_mask_loop ::
  "u32 \<Rightarrow> u32 \<Rightarrow> u32 \<Rightarrow> u32 \<Rightarrow> u32 \<Rightarrow> u32 \<Rightarrow> u32 \<Rightarrow> u32 \<Rightarrow> (u32 \<times> u32 \<times> u32 \<times> u32) option" where
  "swizzle_mask_loop width height depth x y z bt mask_bit =
     (let (x, mask_bit, dx) = (if bt < width then (x OR mask_bit, shl mask_bit 1, False) else (x, mask_bit, True));
          (y, mask_bit, dy) = (if bt < height then (y OR mask_bit, shl mask_bit 1, False) else (y, mask_bit, dx));
          (z, mask_bit, dz) = (if bt < depth then (z OR mask_bit, shl mask_bit 1, False) else (z, mask_bit, dy))
      in if dz then Some (x, y, z, mask_bit)
         else swizzle_mask_loop width height depth x y z (shl bt 1) mask_bit)"

text \<open>The assertion reads \<open>x ^ y ^ (z == (mask_bit - 1))\<close>, since \<open>==\<close> binds tighter.\<close>

definition generate_swizzle_masks :: "u32 \<Rightarrow> u32 \<Rightarrow> u32 \<Rightarrow> (u32 \<times> u32 \<times> u32) option" where
  "generate_swizzle_masks width height depth = do {
     (x, y, z, mask_bit) \<leftarrow> swizzle_mask_loop width height depth 0 0 0 1 1;
     assert (x XOR y XOR of_bool (z = mask_bit - 1) \<noteq> 0);
     Some (x, y, z) }"

subsection \<open>Offsets\<close>

partial_function (option) fill_pattern_loop :: "u32 \<Rightarrow> u32 \<Rightarrow> u32 \<Rightarrow> u32 \<Rightarrow> u32 option" where
  "fill_pattern_loop pattern value result bt =
     (if value = 0 then Some result
      else if pattern AND bt \<noteq> 0 then
        fill_pattern_loop pattern (shr value 1) (result OR (if value AND 1 \<noteq> 0 then bt else 0)) (shl bt 1)
      else fill_pattern_loop pattern value result (shl bt 1))"

definition fill_pattern :: "u32 \<Rightarrow> u32 \<Rightarrow> u32 option" where
  "fill_pattern pattern value = fill_pattern_loop pattern value 0 1"

definition get_swizzled_offset :: "u32 \<Rightarrow> u32 \<Rightarrow> u32 \<Rightarrow> u32 \<Rightarrow> u32 \<Rightarrow> u32 \<Rightarrow> u32 \<Rightarrow> u32 option" where
  "get_swizzled_offset x y z mask_x mask_y mask_z bytes_per_pixel = do {
     fx \<leftarrow> fill_pattern mask_x x;
     fy \<leftarrow> fill_pattern mask_y y;
     fz \<leftarrow> fill_pattern mask_z z;
     Some (bytes_per_pixel * (fx OR fy OR fz)) }"

subsection \<open>Boxes and rectangles\<close>

type_synonym buffer = "nat \<Rightarrow> u8"

text \<open>\<open>memcpy(dst + doff, src + soff, n)\<close> and a counting loop.\<close>

definition copy_bytes :: "buffer \<Rightarrow> nat \<Rightarrow> buffer \<Rightarrow> nat \<Rightarrow> nat \<Rightarrow> buffer" where
  "copy_bytes dst doff src soff n = (\<lambda>i. if doff \<le> i \<and> i < doff + n then src (soff + (i - doff)) else dst i)"

definition for_loop :: "nat \<Rightarrow> (nat \<Rightarrow> 's \<Rightarrow> 's option) \<Rightarrow> 's \<Rightarrow> 's option" where
  "for_loop n body s = fold (\<lambda>i r. do { t \<leftarrow> r; body i t }) [0..<n] (Some s)"

definition linear_offset :: "nat \<Rightarrow> nat \<Rightarrow> u32 \<Rightarrow> u32 \<Rightarrow> nat" where
  "linear_offset x y row_pitch bytes_per_pixel = unat (of_nat y * row_pitch) + unat (of_nat x * bytes_per_pixel)"

definition swizzle_box :: "buffer \<Rightarrow> u32 \<Rightarrow> u32 \<Rightarrow> u32 \<Rightarrow> buffer \<Rightarrow> u32 \<Rightarrow> u32 \<Rightarrow> u32 \<Rightarrow> buffer option" where
  "swizzle_box src_buf width height depth dst_buf row_pitch slice_pitch bytes_per_pixel = do {
     (mask_x, mask_y, mask_z) \<leftarrow> generate_swizzle_masks width height depth;
     for_loop (unat depth) (\<lambda>z. for_loop (unat height) (\<lambda>y. for_loop (unat width) (\<lambda>x dst. do {
       off \<leftarrow> get_swizzled_offset (of_nat x) (of_nat y) 0 mask_x mask_y 0 bytes_per_pixel;
       Some (copy_bytes dst (unat off)
               src_buf (z * unat slice_pitch + linear_offset x y row_pitch bytes_per_pixel) (unat bytes_per_pixel)) }))) dst_buf }"

definition unswizzle_box :: "buffer \<Rightarrow> u32 \<Rightarrow> u32 \<Rightarrow> u32 \<Rightarrow> buffer \<Rightarrow> u32 \<Rightarrow> u32 \<Rightarrow> u32 \<Rightarrow> buffer option" where
  "unswizzle_box src_buf width height depth dst_buf row_pitch slice_pitch bytes_per_pixel = do {
     (mask_x, mask_y, mask_z) \<leftarrow> generate_swizzle_masks width height depth;
     for_loop (unat depth) (\<lambda>z. for_loop (unat height) (\<lambda>y. for_loop (unat width) (\<lambda>x dst. do {
       off \<leftarrow> get_swizzled_offset (of_nat x) (of_nat y) (of_nat z) mask_x mask_y mask_z bytes_per_pixel;
       Some (copy_bytes dst (z * unat slice_pitch + linear_offset x y row_pitch bytes_per_pixel)
               src_buf (unat off) (unat bytes_per_pixel)) }))) dst_buf }"

definition unswizzle_rect :: "buffer \<Rightarrow> u32 \<Rightarrow> u32 \<Rightarrow> buffer \<Rightarrow> u32 \<Rightarrow> u32 \<Rightarrow> buffer option" where
  "unswizzle_rect src_buf width height dst_buf pitch bytes_per_pixel =
     unswizzle_box src_buf width height 1 dst_buf pitch 0 bytes_per_pixel"

definition swizzle_rect :: "buffer \<Rightarrow> u32 \<Rightarrow> u32 \<Rightarrow> buffer \<Rightarrow> u32 \<Rightarrow> u32 \<Rightarrow> buffer option" where
  "swizzle_rect src_buf width height dst_buf pitch bytes_per_pixel =
     swizzle_box src_buf width height 1 dst_buf pitch 0 bytes_per_pixel"

subsection \<open>Depositing bits under a pattern\<close>

text \<open>The rank of a position is the number of pattern bits below it; the bits of a value are deposited at
  the pattern bits in order.\<close>

definition rank :: "u32 \<Rightarrow> nat \<Rightarrow> nat" where
  "rank p n = card {m. m < n \<and> bit p m}"

definition deposited :: "u32 \<Rightarrow> u32 \<Rightarrow> u32 \<Rightarrow> bool" where
  "deposited p v r \<longleftrightarrow> (\<forall>n. bit r n \<longleftrightarrow> bit p n \<and> bit v (rank p n))"

lemma rank_0 [simp]: "rank p 0 = 0" by (simp add: rank_def)

lemma rank_Suc: "rank p (Suc n) = rank p n + of_bool (bit p n)"
proof -
  have "{m. m < Suc n \<and> bit p m} = (if bit p n then insert n {m. m < n \<and> bit p m} else {m. m < n \<and> bit p m})"
    by (auto simp: less_Suc_eq)
  then show ?thesis by (simp add: rank_def)
qed

lemma rank_mono: "m \<le> n \<Longrightarrow> rank p m \<le> rank p n"
  by (induction n) (auto simp: rank_Suc le_Suc_eq)

lemma rank_less: "m < n \<Longrightarrow> bit p m \<Longrightarrow> rank p m < rank p n"
  using rank_mono [of "Suc m" n p] by (simp add: rank_Suc)

text \<open>Every rank below the number of pattern bits belongs to a pattern bit.\<close>

lemma rank_surj: "j < rank p n \<Longrightarrow> \<exists>m<n. bit p m \<and> rank p m = j"
proof (induction n)
  case (Suc n)
  show ?case
  proof (cases "j < rank p n")
    case True
    then show ?thesis using Suc.IH less_SucI by blast
  next
    case False
    then have "bit p n" "rank p n = j" using Suc.prems by (cases "bit p n"; simp add: rank_Suc)+
    then show ?thesis by blast
  qed
qed simp

lemma test_bit_pow: "(p::u32) AND 2 ^ n \<noteq> 0 \<longleftrightarrow> bit p n"
  using test_bit_shl [of p n] by simp

lemma shr_zero_bits: "shr (v::u32) k = 0 \<longleftrightarrow> (\<forall>j\<ge>k. \<not> bit v j)"
proof -
  have "\<not> bit v (k + j)" if "\<not> j < 32" for j using bit_imp_le_length [of v "k + j"] that by auto
  then have "shr v k = 0 \<longleftrightarrow> (\<forall>j. \<not> bit v (k + j))"
    by (auto simp: bit_eq_iff bit_drop_bit_eq)
  then show ?thesis by (metis le_iff_add)
qed

lemma fill_pattern_loop_deposits:
  assumes v: "shr v (rank p 32) = 0"
  shows "n \<le> 32 \<Longrightarrow> (\<And>m. bit r m \<longleftrightarrow> m < n \<and> bit p m \<and> bit v (rank p m))
    \<Longrightarrow> \<exists>r'. fill_pattern_loop p (shr v (rank p n)) r (2 ^ n) = Some r' \<and> deposited p v r'"
proof (induction "32 - n" arbitrary: n r)
  case 0
  then have "n = 32" by simp
  then have "\<And>m. bit r m \<longleftrightarrow> bit p m \<and> bit v (rank p m)" using 0 bit_imp_le_length [of p] by fastforce
  then show ?case using v \<open>n = 32\<close> by (subst fill_pattern_loop.simps) (simp add: deposited_def)
next
  case (Suc k)
  show ?case
  proof (cases "shr v (rank p n) = 0")
    case True
    then have "\<not> bit v (rank p m)" if "n \<le> m" for m using rank_mono [OF that] by (simp add: shr_zero_bits)
    then have "deposited p v r" unfolding deposited_def using Suc.prems(2) not_less by blast
    then show ?thesis using True by (subst fill_pattern_loop.simps) simp
  next
    case False
    let ?r = "if bit p n then r OR (if shr v (rank p n) AND 1 \<noteq> 0 then 2 ^ n else 0) else r"
    have n: "n < 32" "k = 32 - Suc n" using Suc.hyps(2) by simp_all
    have b: "bit (2 ^ n :: u32) m \<longleftrightarrow> m = n" for m using n(1) by (auto simp: bit_simps)
    have one: "shr v (rank p n) AND 1 \<noteq> 0 \<longleftrightarrow> bit v (rank p n)" by (simp add: and_1_bit)
    have "bit ?r m \<longleftrightarrow> m < Suc n \<and> bit p m \<and> bit v (rank p m)" for m
      unfolding one using Suc.prems(2) [of m] b [of m] by (auto simp: bit_or_iff less_Suc_eq)
    then obtain r' where r': "fill_pattern_loop p (shr v (rank p (Suc n))) ?r (2 ^ Suc n) = Some r'" "deposited p v r'"
      using Suc.hyps(1) [OF n(2), of ?r] n(1) by auto
    have "fill_pattern_loop p (shr v (rank p n)) r (2 ^ n) = fill_pattern_loop p (shr v (rank p (Suc n))) ?r (2 ^ Suc n)"
      using False by (subst fill_pattern_loop.simps) (simp add: test_bit_pow rank_Suc drop_bit_drop_bit push_bit_eq_mult mult.commute [of "2 ^ n" 2])
    then show ?thesis using r' by simp
  qed
qed

text \<open>With more value bits than pattern bits, the loop runs on when its bit has been shifted out.\<close>

lemma fill_pattern_loop_hangs: "fill_pattern_loop p v r 0 = Some r' \<Longrightarrow> v = 0"
proof (induction p v r "0 :: u32" r' rule: fill_pattern_loop.raw_induct [rotated, consumes 1, case_names step])
  case (step loop p v r r')
  then show ?case by (auto split: if_splits)
qed

lemma fill_pattern_loop_reaches:
  assumes v: "shr v (rank p 32) \<noteq> 0"
  shows "n \<le> 32 \<Longrightarrow> \<exists>r. fill_pattern_loop p v 0 1 = fill_pattern_loop p (shr v (rank p n)) r (2 ^ n)"
proof (induction n)
  case (Suc n)
  then obtain r where r: "fill_pattern_loop p v 0 1 = fill_pattern_loop p (shr v (rank p n)) r (2 ^ n)" by auto
  have "rank p n \<le> rank p 32" using Suc.prems by (intro rank_mono) simp
  then have "shr v (rank p n) \<noteq> 0" using v by (force simp: shr_zero_bits)
  then show ?case unfolding r by (subst fill_pattern_loop.simps)
      (auto simp: test_bit_pow rank_Suc drop_bit_drop_bit push_bit_eq_mult mult.commute [of "2 ^ n" 2])
qed auto

lemma fill_pattern_spec:
  "case fill_pattern p v of Some r \<Rightarrow> shr v (rank p 32) = 0 \<and> deposited p v r | None \<Rightarrow> shr v (rank p 32) \<noteq> 0"
proof (cases "shr v (rank p 32) = 0")
  case True
  then show ?thesis using fill_pattern_loop_deposits [OF True, of 0 0] by (auto simp: fill_pattern_def)
next
  case False
  have z: "(2::u32) ^ 32 = 0" by simp
  obtain r where "fill_pattern_loop p v 0 1 = fill_pattern_loop p (shr v (rank p 32)) r 0"
    using fill_pattern_loop_reaches [OF False, of 32, unfolded z] by auto
  then show ?thesis using fill_pattern_loop_hangs [of p "shr v (rank p 32)" r] False
    by (cases "fill_pattern_loop p (shr v (rank p 32)) r 0") (auto simp: fill_pattern_def)
qed

subsection \<open>The positions of the mask bits\<close>

text \<open>The number of bits of a coordinate below \<open>w\<close>.\<close>

definition bits_for :: "u32 \<Rightarrow> nat" where
  "bits_for w = length (takeWhile (\<lambda>n. 2 ^ n < unat w) [0..<32])"

lemma bits_for_iff: "2 ^ i < unat w \<longleftrightarrow> i < bits_for w"
proof (cases "i < bits_for w")
  case True
  then have "takeWhile (\<lambda>n. 2 ^ n < unat w) [0..<32] ! i = i" "i < 32"
    using length_takeWhile_le [of "\<lambda>n. 2 ^ n < unat w" "[0..<32]"] by (simp_all add: bits_for_def takeWhile_nth)
  then show ?thesis using True set_takeWhileD [of i "\<lambda>n. 2 ^ n < unat w" "[0..<32]"] nth_mem [of i] unfolding bits_for_def by metis
next
  case False
  then have p: "(2::nat) ^ bits_for w \<le> 2 ^ i" by (intro power_increasing) simp_all
  have "unat w \<le> 2 ^ bits_for w"
  proof (cases "bits_for w < 32")
    case True
    then show ?thesis using nth_length_takeWhile [of "\<lambda>n. 2 ^ n < unat w" "[0..<32]"] by (simp add: bits_for_def)
  next
    case False
    then have "bits_for w = 32" using length_takeWhile_le [of "\<lambda>n. 2 ^ n < unat w" "[0..<32]"] by (simp add: bits_for_def)
    then show ?thesis using unat_less_exp [of w] by simp
  qed
  then have "unat w \<le> 2 ^ i" using p by (rule le_trans)
  then show ?thesis using False by simp
qed

text \<open>Bit \<open>j\<close> of \<open>x\<close>, \<open>y\<close> and \<open>z\<close> in the interleaved order, where a coordinate that has no bits left is
  skipped, and the sets of positions after \<open>i\<close> rounds.\<close>

definition pos_x :: "nat \<Rightarrow> nat \<Rightarrow> nat \<Rightarrow> nat \<Rightarrow> nat" where
  "pos_x a b c j = j + min j b + min j c"

definition pos_y :: "nat \<Rightarrow> nat \<Rightarrow> nat \<Rightarrow> nat \<Rightarrow> nat" where
  "pos_y a b c j = min (Suc j) a + j + min j c"

definition pos_z :: "nat \<Rightarrow> nat \<Rightarrow> nat \<Rightarrow> nat \<Rightarrow> nat" where
  "pos_z a b c j = min (Suc j) a + min (Suc j) b + j"

lemmas pos_defs = pos_x_def pos_y_def pos_z_def

definition mask_at :: "(nat \<Rightarrow> nat) \<Rightarrow> nat \<Rightarrow> u32 \<Rightarrow> bool" where
  "mask_at pos n p \<longleftrightarrow> (\<forall>m. bit p m \<longleftrightarrow> m \<in> pos ` {..<n})"

definition used :: "nat \<Rightarrow> nat \<Rightarrow> nat \<Rightarrow> nat \<Rightarrow> nat" where
  "used a b c i = min i a + min i b + min i c"

lemma mask_at_0 [simp]: "mask_at pos 0 0" by (simp add: mask_at_def)

lemma mask_at_Suc:
  assumes "mask_at pos n p" and "pos n = k" and "k < 32"
  shows "mask_at pos (Suc n) (p OR 2 ^ k)"
  using assms by (auto simp: mask_at_def bit_simps lessThan_Suc)

lemma pow_less_iff:
  assumes "i \<le> 31"
  shows "(2::u32) ^ i < w \<longleftrightarrow> i < bits_for w"
proof -
  have "(2::nat) ^ i < 2 ^ 32" using assms by (intro power_strict_increasing) simp_all
  then have "unat (2 ^ i :: u32) = 2 ^ i" using unat_push_bit [of i "1 :: u32"] by simp
  then show ?thesis using bits_for_iff [of i w] by (simp add: word_less_nat_alt)
qed

lemma swizzle_mask_loop_step:
  assumes "i \<le> 31" and "a = bits_for w" "b = bits_for h" "c = bits_for d"
  shows "swizzle_mask_loop w h d x y z (2 ^ i) (2 ^ k) =
    (if a \<le> i \<and> b \<le> i \<and> c \<le> i then Some (x, y, z, 2 ^ k)
     else swizzle_mask_loop w h d (if i < a then x OR 2 ^ k else x) (if i < b then y OR 2 ^ (k + of_bool (i < a)) else y)
       (if i < c then z OR 2 ^ (k + of_bool (i < a) + of_bool (i < b)) else z) (2 ^ Suc i)
       (2 ^ (k + of_bool (i < a) + of_bool (i < b) + of_bool (i < c))))"
  unfolding assms(2-4)
  by (subst swizzle_mask_loop.simps)
    (cases "i < bits_for w"; cases "i < bits_for h"; cases "i < bits_for d";
      simp add: pow_less_iff [OF assms(1)] push_bit_eq_mult mult.commute [of _ 2])

lemma mask_at_min:
  assumes "mask_at p (min i n) x" and "i < n \<Longrightarrow> p i = k \<and> k < 32"
  shows "mask_at p (min (Suc i) n) (if i < n then x OR 2 ^ k else x)"
  using assms mask_at_Suc [of p i x k] by (cases "i < n") (simp_all add: min_def split: if_splits)

lemma used_Suc: "used a b c (Suc i) = used a b c i + of_bool (i < a) + of_bool (i < b) + of_bool (i < c)"
  by (auto simp: used_def min_def)

lemma swizzle_mask_loop_masks:
  assumes "a = bits_for w" "b = bits_for h" "c = bits_for d" and k: "a + b + c \<le> 32" and m: "a \<le> 31" "b \<le> 31" "c \<le> 31"
  shows "mask_at (pos_x a b c) (min i a) x \<Longrightarrow> mask_at (pos_y a b c) (min i b) y \<Longrightarrow> mask_at (pos_z a b c) (min i c) z
    \<Longrightarrow> i \<le> max a (max b c) \<Longrightarrow> \<exists>x' y' z'. swizzle_mask_loop w h d x y z (2 ^ i) (2 ^ used a b c i) = Some (x', y', z', 2 ^ (a + b + c))
      \<and> mask_at (pos_x a b c) a x' \<and> mask_at (pos_y a b c) b y' \<and> mask_at (pos_z a b c) c z'"
proof (induction "max a (max b c) - i" arbitrary: i x y z)
  case 0
  then have i: "a \<le> i" "b \<le> i" "c \<le> i" by simp_all
  moreover have "i \<le> 31" using 0 m by auto
  moreover have "used a b c i = a + b + c" using i by (simp add: used_def)
  ultimately show ?case using 0 swizzle_mask_loop_step [of i a w b h c d] assms(1-3) by simp
next
  case (Suc n)
  then have i: "i \<le> 31" "\<not> (a \<le> i \<and> b \<le> i \<and> c \<le> i)" "Suc i \<le> max a (max b c)" "n = max a (max b c) - Suc i" using m by auto
  let ?k = "used a b c i"
  let ?x = "if i < a then x OR 2 ^ ?k else x" and ?y = "if i < b then y OR 2 ^ (?k + of_bool (i < a)) else y"
  let ?z = "if i < c then z OR 2 ^ (?k + of_bool (i < a) + of_bool (i < b)) else z"
  have u: "used a b c (Suc i) \<le> 32" using k by (auto simp: used_def min_def)
  have "mask_at (pos_x a b c) (min (Suc i) a) ?x"
    by (rule mask_at_min [OF Suc.prems(1)]) (use u in \<open>simp add: used_Suc pos_x_def used_def\<close>)
  moreover have "mask_at (pos_y a b c) (min (Suc i) b) ?y"
    by (rule mask_at_min [OF Suc.prems(2)]) (use u in \<open>simp add: used_Suc, simp add: pos_y_def used_def min_def\<close>)
  moreover have "mask_at (pos_z a b c) (min (Suc i) c) ?z"
    by (rule mask_at_min [OF Suc.prems(3)]) (use u in \<open>simp add: used_Suc, simp add: pos_z_def used_def min_def\<close>)
  moreover have "swizzle_mask_loop w h d x y z (2 ^ i) (2 ^ ?k) = swizzle_mask_loop w h d ?x ?y ?z (2 ^ Suc i) (2 ^ used a b c (Suc i))"
    using swizzle_mask_loop_step [OF i(1) assms(1-3), of x y z ?k] unfolding if_not_P [OF i(2)] used_Suc .
  ultimately show ?case using Suc.hyps(1) [OF i(4), of ?x ?y ?z] i(3) by simp
qed

end
