(* ===== verification/Swizzle_Props.thy ===== *)
theory Swizzle_Props
  imports Swizzle
begin

text \<open>
  Correctness of the texture swizzling: the masks interleave the bits of the coordinates, the offsets of the
  texels are distinct, and swizzling a rectangle and unswizzling the result gives the rectangle back.
\<close>

subsection \<open>The masks\<close>

definition sizes_ok :: "u32 \<Rightarrow> u32 \<Rightarrow> u32 \<Rightarrow> bool" where
  "sizes_ok w h d \<longleftrightarrow> bits_for w \<le> 31 \<and> bits_for h \<le> 31 \<and> bits_for d \<le> 31 \<and> bits_for w + bits_for h + bits_for d \<le> 32"

definition masks_of :: "u32 \<Rightarrow> u32 \<Rightarrow> u32 \<Rightarrow> u32 \<Rightarrow> u32 \<Rightarrow> u32 \<Rightarrow> bool" where
  "masks_of w h d x y z \<longleftrightarrow> mask_at (pos_x (bits_for w) (bits_for h) (bits_for d)) (bits_for w) x
     \<and> mask_at (pos_y (bits_for w) (bits_for h) (bits_for d)) (bits_for h) y
     \<and> mask_at (pos_z (bits_for w) (bits_for h) (bits_for d)) (bits_for d) z"

lemma pos_bounds:
  "j < a \<Longrightarrow> pos_x a b c j < a + b + c"
  "j < b \<Longrightarrow> pos_y a b c j < a + b + c"
  "j < c \<Longrightarrow> pos_z a b c j < a + b + c"
  by (auto simp: pos_defs min_def)

lemma pos_strict:
  "i < j \<Longrightarrow> pos_x a b c i < pos_x a b c j"
  "i < j \<Longrightarrow> pos_y a b c i < pos_y a b c j"
  "i < j \<Longrightarrow> pos_z a b c i < pos_z a b c j"
  by (auto simp: pos_defs min_def)

lemma pos_disjoint:
  "i < a \<Longrightarrow> j < b \<Longrightarrow> pos_x a b c i \<noteq> pos_y a b c j"
  "i < a \<Longrightarrow> j < c \<Longrightarrow> pos_x a b c i \<noteq> pos_z a b c j"
  "i < b \<Longrightarrow> j < c \<Longrightarrow> pos_y a b c i \<noteq> pos_z a b c j"
  by (cases "i \<le> j"; simp add: pos_defs min_def)+

lemma pos_inj: "inj_on (pos_x a b c) A" "inj_on (pos_y a b c) A" "inj_on (pos_z a b c) A"
  by (auto intro!: strict_mono_on_imp_inj_on strict_mono_onI pos_strict)

lemma mask_at_bit: "mask_at pos n p \<Longrightarrow> bit p m \<Longrightarrow> \<exists>j<n. m = pos j"
  by (auto simp: mask_at_def)

lemma mask_at_disjoint:
  assumes "mask_at f n p" "mask_at g k q" and "\<And>i j. i < n \<Longrightarrow> j < k \<Longrightarrow> f i \<noteq> g j"
  shows "\<not> (bit p m \<and> bit q m)"
  using mask_at_bit [OF assms(1), of m] mask_at_bit [OF assms(2), of m] assms(3) by auto

lemma mask_xyz:
  assumes "masks_of w h d x y z"
  shows "mask_at (pos_x (bits_for w) (bits_for h) (bits_for d)) (bits_for w) x"
    and "mask_at (pos_y (bits_for w) (bits_for h) (bits_for d)) (bits_for h) y"
    and "mask_at (pos_z (bits_for w) (bits_for h) (bits_for d)) (bits_for d) z"
  using assms by (simp_all add: masks_of_def)

lemma masks_disjoint:
  assumes "masks_of w h d x y z"
  shows "\<not> (bit x n \<and> bit y n)" and "\<not> (bit x n \<and> bit z n)" and "\<not> (bit y n \<and> bit z n)"
  by (rule mask_at_disjoint [OF mask_xyz(1) [OF assms] mask_xyz(2) [OF assms] pos_disjoint(1)]
      mask_at_disjoint [OF mask_xyz(1) [OF assms] mask_xyz(3) [OF assms] pos_disjoint(2)]
      mask_at_disjoint [OF mask_xyz(2) [OF assms] mask_xyz(3) [OF assms] pos_disjoint(3)]; assumption)+

lemma mask_at_fits:
  assumes "mask_at f n p" and "\<And>i. i < n \<Longrightarrow> f i < k"
  shows "fits k p"
  using mask_at_bit [OF assms(1)] assms(2) by (auto simp: fits_iff_bit)

lemma masks_fit:
  assumes "masks_of w h d x y z"
  shows "fits (bits_for w + bits_for h + bits_for d) x" and "fits (bits_for w + bits_for h + bits_for d) y"
    and "fits (bits_for w + bits_for h + bits_for d) z"
  by (rule mask_at_fits [OF mask_xyz(1) [OF assms] pos_bounds(1)] mask_at_fits [OF mask_xyz(2) [OF assms] pos_bounds(2)]
      mask_at_fits [OF mask_xyz(3) [OF assms] pos_bounds(3)]; assumption)+

lemma mask_at_rank:
  assumes "mask_at pos n p" and "inj_on pos {..<n}"
  shows "rank p 32 = n"
proof -
  have "{m. m < 32 \<and> bit p m} = pos ` {..<n}"
    using assms(1) bit_imp_le_length [of p] by (auto simp: mask_at_def)
  then show ?thesis using assms(2) by (simp add: rank_def card_image)
qed

lemma masks_rank:
  assumes "masks_of w h d x y z"
  shows "rank x 32 = bits_for w" and "rank y 32 = bits_for h" and "rank z 32 = bits_for d"
  by (rule mask_at_rank [OF mask_xyz(1) [OF assms] pos_inj(1)] mask_at_rank [OF mask_xyz(2) [OF assms] pos_inj(2)]
      mask_at_rank [OF mask_xyz(3) [OF assms] pos_inj(3)])+

text \<open>The assertion of \<open>generate_swizzle_masks\<close> cannot fail: it is false only if \<open>x ^ y\<close> is the value of the
  comparison, so if \<open>x ^ y\<close> is 1 and \<open>z\<close> has all the bits, or if there are no bits at all and the comparison
  fails.\<close>

lemma masks_union:
  assumes "masks_of w h d 0 0 z"
  shows "z = 2 ^ bits_for d - 1"
proof -
  have a: "bits_for w = 0" "bits_for h = 0" using masks_rank [OF assms] by (simp_all add: rank_def)
  have "bit z n \<longleftrightarrow> n < bits_for d" for n using assms unfolding masks_of_def a mask_at_def by (auto simp: pos_z_def)
  then have "z = mask (bits_for d)" using bit_imp_le_length [of z] by (auto simp: bit_eq_iff bit_mask_iff)
  then show ?thesis by (simp add: mask_eq_exp_minus_1)
qed

lemma xor_zero: "a XOR b = 0 \<Longrightarrow> a = (b :: u32)"
  by (simp add: bit_eq_iff bit_xor_iff)

lemma swizzle_assertion:
  assumes m: "masks_of w h d x y z"
  shows "x XOR y XOR of_bool (z = 2 ^ (bits_for w + bits_for h + bits_for d) - 1) \<noteq> 0"
proof
  let ?n = "bits_for w + bits_for h + bits_for d"
  assume e: "x XOR y XOR of_bool (z = 2 ^ ?n - 1) = 0"
  note fit = masks_fit(1,2) [OF m, unfolded fits_iff_bit, rule_format, of 0]
  show False
  proof (cases "z = 2 ^ ?n - 1")
    case True
    then have "z = mask ?n" by (simp add: mask_eq_exp_minus_1)
    then have z: "bit z k" if "k < ?n" "k < 32" for k using that by (simp add: bit_mask_iff)
    have "x XOR y = 1" by (rule xor_zero) (use e True in \<open>simp add: xor.assoc\<close>)
    then have "bit (x XOR y) 0" by simp
    then have b: "bit x 0 \<or> bit y 0" by (auto simp: bit_xor_iff simp del: bit_0)
    have "\<not> bit z 0" using b masks_disjoint(2,3) [OF m, of 0] by argo
    moreover have "bit z 0" by (rule z) (use b fit in argo, simp)
    ultimately show False by contradiction
  next
    case False
    have xy: "x = y" by (rule xor_zero) (use e False in simp)
    then have n: "\<not> bit x k" for k using masks_disjoint(1) [OF m, of k] by simp
    have "x = 0" by (rule bit_eqI) (simp add: n)
    then have m0: "masks_of w h d 0 0 z" using m xy by simp
    have "bits_for w = 0" "bits_for h = 0" using masks_rank(1,2) [OF m0] by (simp_all add: rank_def)
    then show False using masks_union [OF m0] False by simp
  qed
qed

lemma generate_masks:
  assumes "sizes_ok w h d"
  shows "\<exists>x y z. generate_swizzle_masks w h d = Some (x, y, z) \<and> masks_of w h d x y z"
proof -
  let ?a = "bits_for w" and ?b = "bits_for h" and ?c = "bits_for d"
  have "\<exists>x y z. swizzle_mask_loop w h d 0 0 0 (2 ^ 0) (2 ^ used ?a ?b ?c 0) = Some (x, y, z, 2 ^ (?a + ?b + ?c))
      \<and> mask_at (pos_x ?a ?b ?c) ?a x \<and> mask_at (pos_y ?a ?b ?c) ?b y \<and> mask_at (pos_z ?a ?b ?c) ?c z"
    by (rule swizzle_mask_loop_masks) (use assms in \<open>simp_all add: sizes_ok_def\<close>)
  then obtain x y z where l: "swizzle_mask_loop w h d 0 0 0 1 1 = Some (x, y, z, 2 ^ (?a + ?b + ?c))"
    and m: "masks_of w h d x y z" unfolding masks_of_def by (auto simp: used_def)
  show ?thesis using swizzle_assertion [OF m] m by (simp add: generate_swizzle_masks_def l)
qed

subsection \<open>Offsets of texels\<close>

definition deposit :: "u32 \<Rightarrow> u32 \<Rightarrow> u32" where
  "deposit p v = the (fill_pattern p v)"

lemma fill_pattern_deposit:
  assumes "fits (rank p 32) v"
  shows "fill_pattern p v = Some (deposit p v)" and "deposited p v (deposit p v)"
proof -
  have "shr v (rank p 32) = 0" using assms unfolding shr_zero_bits fits_iff_bit by fastforce
  then show "fill_pattern p v = Some (deposit p v)" "deposited p v (deposit p v)"
    using fill_pattern_spec [of p v] by (auto simp: deposit_def split: option.splits)
qed

lemma fill_pattern_zero [simp]: "fill_pattern p 0 = Some 0"
  unfolding fill_pattern_def by (subst fill_pattern_loop.simps) simp

lemma deposited_inj:
  assumes "deposited p v r" "deposited p v' r" and "fits (rank p 32) v" "fits (rank p 32) v'"
  shows "v = v'"
proof (rule bit_eqI)
  fix n
  show "bit v n \<longleftrightarrow> bit v' n"
  proof (cases "n < rank p 32")
    case True
    then obtain m where "bit p m" "rank p m = n" using rank_surj by blast
    then show ?thesis using assms(1,2) unfolding deposited_def by blast
  next
    case False
    then show ?thesis using assms(3,4) unfolding fits_iff_bit by blast
  qed
qed

lemma deposited_subset: "deposited p v r \<Longrightarrow> bit r n \<Longrightarrow> bit p n"
  by (simp add: deposited_def)

lemma bits_for_bound: "x < unat w \<Longrightarrow> x < 2 ^ bits_for w"
  using bits_for_iff [of "bits_for w" w] by simp

lemma coordinate_fits: "x < unat w \<Longrightarrow> fits (bits_for w) (of_nat x)"
  using bits_for_bound [of x w] unat_less_exp [of w] by (simp add: fits_iff_unat unat_of_nat_small)

definition texel :: "u32 \<Rightarrow> u32 \<Rightarrow> u32 \<Rightarrow> nat \<Rightarrow> nat \<Rightarrow> nat \<Rightarrow> u32" where
  "texel mx my mz x y z = deposit mx (of_nat x) OR deposit my (of_nat y) OR deposit mz (of_nat z)"

lemma get_swizzled_offset_texel:
  assumes m: "masks_of w h d mx my mz" and "x < unat w" "y < unat h" "z < unat d"
  shows "get_swizzled_offset (of_nat x) (of_nat y) (of_nat z) mx my mz bpp = Some (bpp * texel mx my mz x y z)"
  using fill_pattern_deposit(1) assms(2-4) [THEN coordinate_fits]
  by (simp add: get_swizzled_offset_def masks_rank [OF m] texel_def)

lemma texel_deposits:
  assumes m: "masks_of w h d mx my mz" and "x < unat w" "y < unat h" "z < unat d"
  shows "deposited mx (of_nat x) (deposit mx (of_nat x))" "deposited my (of_nat y) (deposit my (of_nat y))"
    "deposited mz (of_nat z) (deposit mz (of_nat z))"
  using assms(2-4) [THEN coordinate_fits] by (simp_all add: fill_pattern_deposit(2) masks_rank [OF m])

lemma texel_inj:
  assumes m: "masks_of w h d mx my mz" and c: "x < unat w" "y < unat h" "z < unat d" and c': "x' < unat w" "y' < unat h" "z' < unat d"
    and e: "texel mx my mz x y z = texel mx my mz x' y' z'"
  shows "x = x' \<and> y = y' \<and> z = z'"
proof -
  note t = texel_deposits [OF m c] texel_deposits [OF m c']
  have a: "bit (texel mx my mz x y z) n \<longleftrightarrow> bit (texel mx my mz x' y' z') n" for n unfolding e ..
  have "deposit mx (of_nat x) = deposit mx (of_nat x') \<and> deposit my (of_nat y) = deposit my (of_nat y')
      \<and> deposit mz (of_nat z) = deposit mz (of_nat z')"
    using a masks_disjoint [OF m] t [THEN deposited_subset] unfolding texel_def bit_or_iff by (blast intro: bit_eqI)
  then have "(of_nat x :: u32) = of_nat x'" "(of_nat y :: u32) = of_nat y'" "(of_nat z :: u32) = of_nat z'"
    using t deposited_inj c [THEN coordinate_fits] c' [THEN coordinate_fits] by (metis masks_rank [OF m])+
  moreover have "unat w < 2 ^ 32" "unat h < 2 ^ 32" "unat d < 2 ^ 32" by (rule unat_less_exp)+
  ultimately show ?thesis using c c' by (metis order.strict_trans unat_of_nat_small)
qed

lemma texel_fits:
  assumes m: "masks_of w h d mx my mz" and "x < unat w" "y < unat h" "z < unat d"
  shows "fits (bits_for w + bits_for h + bits_for d) (texel mx my mz x y z)"
  using masks_fit [OF m] texel_deposits [OF assms, THEN deposited_subset]
  unfolding texel_def fits_iff_bit bit_or_iff by blast


lemma deposit_zero [simp]: "deposit p 0 = 0" by (simp add: deposit_def)

text \<open>If all the texels fit into the address space, their offsets are exact and they do not overlap.\<close>

definition texels_fit :: "u32 \<Rightarrow> u32 \<Rightarrow> u32 \<Rightarrow> u32 \<Rightarrow> bool" where
  "texels_fit w h d bpp \<longleftrightarrow> unat bpp * 2 ^ (bits_for w + bits_for h + bits_for d) \<le> 2 ^ 32"

lemma texel_bound:
  assumes "masks_of w h d mx my mz" "x < unat w" "y < unat h" "z < unat d"
  shows "unat (texel mx my mz x y z) < 2 ^ (bits_for w + bits_for h + bits_for d)"
  using texel_fits [OF assms] by (simp add: fits_iff_unat)

lemma texel_offset:
  assumes "masks_of w h d mx my mz" "texels_fit w h d bpp" "x < unat w" "y < unat h" "z < unat d"
  shows "unat (bpp * texel mx my mz x y z) = unat bpp * unat (texel mx my mz x y z)"
proof (cases "bpp = 0")
  case False
  then have "0 < unat bpp" by (simp add: unat_gt_0)
  then have "unat bpp * unat (texel mx my mz x y z) < unat bpp * 2 ^ (bits_for w + bits_for h + bits_for d)"
    using texel_bound [OF assms(1,3-5)] by (rule mult_less_mono2 [rotated])
  also have "\<dots> \<le> 2 ^ 32" using assms(2) by (simp only: texels_fit_def)
  finally show ?thesis by (rule unat_mult_small)
qed simp

lemma apart_multiples: "i \<noteq> j \<Longrightarrow> n * i + n \<le> n * j \<or> n * j + n \<le> n * (i::nat)"
  using mult_le_mono2 [of "Suc i" j n] mult_le_mono2 [of "Suc j" i n] by (cases "i < j") auto

lemma texels_apart:
  assumes "masks_of w h d mx my mz" "texels_fit w h d bpp" and c: "x < unat w" "y < unat h" "z < unat d"
    and c': "x' < unat w" "y' < unat h" "z' < unat d" and ne: "(x, y, z) \<noteq> (x', y', z')"
  shows "unat (bpp * texel mx my mz x y z) + unat bpp \<le> unat (bpp * texel mx my mz x' y' z')
    \<or> unat (bpp * texel mx my mz x' y' z') + unat bpp \<le> unat (bpp * texel mx my mz x y z)"
proof -
  have "texel mx my mz x y z \<noteq> texel mx my mz x' y' z'" using texel_inj [OF assms(1) c c'] ne by blast
  then have "unat (texel mx my mz x y z) \<noteq> unat (texel mx my mz x' y' z')" using unsigned_word_eqI by blast
  then show ?thesis unfolding texel_offset [OF assms(1,2) c] texel_offset [OF assms(1,2) c'] by (rule apart_multiples)
qed

subsection \<open>Loops of copies\<close>

lemma for_loop_total:
  assumes "\<And>i s. i < n \<Longrightarrow> body i s = Some (f i s)"
  shows "for_loop n body s = Some (fold f [0..<n] s)"
proof -
  have "fold (\<lambda>i r. do { t \<leftarrow> r; body i t }) xs (Some s) = Some (fold f xs s)" if "\<forall>i\<in>set xs. i < n" for xs
    using that by (induction xs arbitrary: s) (simp_all add: assms)
  then show ?thesis by (simp add: for_loop_def)
qed

definition box :: "nat \<Rightarrow> nat \<Rightarrow> nat \<Rightarrow> (nat \<times> nat \<times> nat) list" where
  "box d h w = List.product [0..<d] (List.product [0..<h] [0..<w])"

lemma fold_product: "fold f (List.product xs ys) s = fold (\<lambda>x. fold (\<lambda>y. f (x, y)) ys) xs s"
  by (induction xs arbitrary: s) (simp_all add: fold_map comp_def)

lemma for_loop_box:
  assumes "\<And>z y x s. z < d \<Longrightarrow> y < h \<Longrightarrow> x < w \<Longrightarrow> body z y x s = Some (f (z, y, x) s)"
  shows "for_loop d (\<lambda>z. for_loop h (\<lambda>y. for_loop w (body z y))) s = Some (fold f (box d h w) s)"
  unfolding box_def fold_product
  by (intro for_loop_total) (simp add: for_loop_total assms)

definition copies :: "'a list \<Rightarrow> ('a \<Rightarrow> nat) \<Rightarrow> ('a \<Rightarrow> nat) \<Rightarrow> nat \<Rightarrow> buffer \<Rightarrow> buffer \<Rightarrow> buffer" where
  "copies ts D S n src = fold (\<lambda>t b. copy_bytes b (D t) src (S t) n) ts"

lemma copies_outside: "(\<And>t. t \<in> set ts \<Longrightarrow> i < D t \<or> D t + n \<le> i) \<Longrightarrow> copies ts D S n src dst i = dst i"
proof (induction ts arbitrary: dst)
  case (Cons u ts)
  then have "copies ts D S n src (copy_bytes dst (D u) src (S u) n) i = copy_bytes dst (D u) src (S u) n i" by simp
  then show ?case using Cons.prems [of u] by (auto simp: copies_def copy_bytes_def)
qed (simp add: copies_def)

text \<open>The last copy to a cell wins, so with the copies to one place all from one place, the order is irrelevant.\<close>

lemma copies_inside:
  assumes "t \<in> set ts" and "k < n"
    and "\<And>t'. t' \<in> set ts \<Longrightarrow> (D t' = D t \<and> S t' = S t) \<or> D t' + n \<le> D t \<or> D t + n \<le> D t'"
  shows "copies ts D S n src dst (D t + k) = src (S t + k)"
  using assms
proof (induction ts arbitrary: dst rule: rev_induct)
  case (snoc u ts)
  have "copies (ts @ [u]) D S n src dst (D t + k) = copy_bytes (copies ts D S n src dst) (D u) src (S u) n (D t + k)"
    by (simp add: copies_def)
  moreover have "t \<in> set ts \<or> D u = D t \<and> S u = S t" using snoc.prems(1) by auto
  moreover have "t \<in> set ts \<Longrightarrow> copies ts D S n src dst (D t + k) = src (S t + k)" using snoc by simp
  moreover have "(D u = D t \<and> S u = S t) \<or> D u + n \<le> D t \<or> D t + n \<le> D u" using snoc.prems(3) by simp
  ultimately show ?case using \<open>k < n\<close> by (elim disjE conjE) (simp_all add: copy_bytes_def)
qed simp


definition swizzled_at :: "u32 \<Rightarrow> u32 \<Rightarrow> u32 \<Rightarrow> u32 \<Rightarrow> nat \<times> nat \<times> nat \<Rightarrow> nat" where
  "swizzled_at mx my mz bpp t = (case t of (z, y, x) \<Rightarrow> unat (bpp * texel mx my mz x y z))"

definition linear_at :: "u32 \<Rightarrow> u32 \<Rightarrow> u32 \<Rightarrow> nat \<times> nat \<times> nat \<Rightarrow> nat" where
  "linear_at rp sp bpp t = (case t of (z, y, x) \<Rightarrow> z * unat sp + linear_offset x y rp bpp)"

definition last_at :: "u32 \<Rightarrow> u32 \<Rightarrow> u32 \<Rightarrow> u32 \<Rightarrow> nat \<times> nat \<times> nat \<Rightarrow> nat" where
  "last_at mx my mz bpp t = (case t of (z, y, x) \<Rightarrow> swizzled_at mx my mz bpp (0, y, x))"

lemma mem_box: "(z, y, x) \<in> set (box d h w) \<longleftrightarrow> z < d \<and> y < h \<and> x < w"
  by (auto simp: box_def)

lemma mem_box_1: "t \<in> set (box 1 h w) \<Longrightarrow> \<exists>y x. t = (0, y, x) \<and> y < h \<and> x < w"
  by (auto simp: box_def)

lemma unswizzle_box_copies:
  assumes g: "generate_swizzle_masks w h d = Some (mx, my, mz)" and m: "masks_of w h d mx my mz"
  shows "unswizzle_box src w h d dst rp sp bpp = Some (copies (box (unat d) (unat h) (unat w))
    (linear_at rp sp bpp) (swizzled_at mx my mz bpp) (unat bpp) src dst)"
  unfolding unswizzle_box_def g copies_def
  by (simp, rule for_loop_box) (simp add: get_swizzled_offset_texel [OF m] linear_at_def swizzled_at_def)

text \<open>Swizzling uses the offset of the first slice for all slices.\<close>

lemma swizzle_box_copies:
  assumes g: "generate_swizzle_masks w h d = Some (mx, my, mz)" and m: "masks_of w h d mx my mz"
  shows "swizzle_box src w h d dst rp sp bpp = Some (copies (box (unat d) (unat h) (unat w))
    (last_at mx my mz bpp) (linear_at rp sp bpp) (unat bpp) src dst)"
proof -
  have "get_swizzled_offset (of_nat x) (of_nat y) 0 mx my 0 bpp = Some (bpp * texel mx my mz x y 0)"
    if "x < unat w" "y < unat h" "z < unat d" for x y z
    using get_swizzled_offset_texel [OF m that(1,2), of 0 bpp] that(3) by (simp add: get_swizzled_offset_def)
  then show ?thesis unfolding swizzle_box_def g copies_def
    by (simp, intro for_loop_box) (simp add: linear_at_def last_at_def swizzled_at_def)
qed

lemma swizzled_apart:
  assumes "masks_of w h d mx my mz" "texels_fit w h d bpp"
    and "t \<in> set (box (unat d) (unat h) (unat w))" "t' \<in> set (box (unat d) (unat h) (unat w))" and "t \<noteq> t'"
  shows "swizzled_at mx my mz bpp t + unat bpp \<le> swizzled_at mx my mz bpp t'
    \<or> swizzled_at mx my mz bpp t' + unat bpp \<le> swizzled_at mx my mz bpp t"
proof -
  obtain z y x where t: "t = (z, y, x)" by (cases t)
  obtain z' y' x' where t': "t' = (z', y', x')" by (cases t')
  show ?thesis using assms(3-5) texels_apart [OF assms(1,2), of x y z x' y' z'] unfolding t t' mem_box swizzled_at_def by auto
qed

definition linear_fits :: "u32 \<Rightarrow> u32 \<Rightarrow> u32 \<Rightarrow> u32 \<Rightarrow> bool" where
  "linear_fits w h rp bpp \<longleftrightarrow> unat w * unat bpp \<le> unat rp \<and> unat h * unat rp < 2 ^ 32"

lemma row_bound: "x < w \<Longrightarrow> w * n \<le> p \<Longrightarrow> x * n + n \<le> (p :: nat)"
  using mult_le_mono1 [of "Suc x" w n] by (simp add: add.commute)

lemma linear_offset_exact:
  assumes "linear_fits w h rp bpp" "x < unat w" "y < unat h"
  shows "linear_offset x y rp bpp = y * unat rp + x * unat bpp"
proof -
  have l: "unat w * unat bpp \<le> unat rp" "unat h * unat rp < 2 ^ 32" using assms(1) by (simp_all only: linear_fits_def)
  have y: "y * unat rp < 2 ^ 32" using l(2) assms(3) mult_le_mono1 [of y "unat h" "unat rp"] by linarith
  have x: "x * unat bpp < 2 ^ 32" using row_bound [OF assms(2) l(1)] unat_less_exp [of rp] by linarith
  have u: "unat (of_nat x :: u32) = x" "unat (of_nat y :: u32) = y"
    using assms(2,3) unat_less_exp [of w] unat_less_exp [of h] by (auto intro!: unat_of_nat_small simp del: unat_of_nat)
  show ?thesis unfolding linear_offset_def using unat_mult_small [of "of_nat y" rp] unat_mult_small [of "of_nat x" bpp] x y
    by (simp only: u)
qed

lemma linear_apart:
  assumes f: "linear_fits w h rp bpp" and t: "t \<in> set (box 1 (unat h) (unat w))" "t' \<in> set (box 1 (unat h) (unat w))" "t \<noteq> t'"
  shows "linear_at rp sp bpp t + unat bpp \<le> linear_at rp sp bpp t' \<or> linear_at rp sp bpp t' + unat bpp \<le> linear_at rp sp bpp t"
proof -
  obtain y x where u: "t = (0, y, x)" "y < unat h" "x < unat w" using mem_box_1 [OF t(1)] by blast
  obtain y' x' where u': "t' = (0, y', x')" "y' < unat h" "x' < unat w" using mem_box_1 [OF t(2)] by blast
  have w: "unat w * unat bpp \<le> unat rp" using f by (simp only: linear_fits_def)
  have b: "x * unat bpp + unat bpp \<le> unat rp" "x' * unat bpp + unat bpp \<le> unat rp" using row_bound w u(3) u'(3) by blast+
  have r: "y * unat rp + unat rp \<le> y' * unat rp" if "y < y'" using mult_le_mono1 [of "Suc y" y' "unat rp"] that by simp
  have r': "y' * unat rp + unat rp \<le> y * unat rp" if "y' < y" using mult_le_mono1 [of "Suc y'" y "unat rp"] that by simp
  have e: "linear_at rp sp bpp t = y * unat rp + x * unat bpp" "linear_at rp sp bpp t' = y' * unat rp + x' * unat bpp"
    using linear_offset_exact [OF f u(3,2)] linear_offset_exact [OF f u'(3,2)] by (simp_all add: linear_at_def u(1) u'(1))
  show ?thesis
  proof (cases "y = y'")
    case True
    then show ?thesis unfolding e using apart_multiples [of x x' "unat bpp"] t(3) u(1) u'(1) by (simp add: mult.commute)
  next
    case False
    then show ?thesis unfolding e using r r' b by linarith
  qed
qed

text \<open>The bytes of the pixels of a rectangle with the given pitch.\<close>

definition in_rect :: "u32 \<Rightarrow> u32 \<Rightarrow> u32 \<Rightarrow> u32 \<Rightarrow> nat \<Rightarrow> bool" where
  "in_rect w h pitch bpp i \<longleftrightarrow> i div unat pitch < unat h \<and> i mod unat pitch < unat w * unat bpp"

lemma in_rect_iff:
  assumes f: "linear_fits w h pitch bpp"
  shows "in_rect w h pitch bpp i \<longleftrightarrow> (\<exists>t k. t \<in> set (box 1 (unat h) (unat w)) \<and> k < unat bpp \<and> i = linear_at pitch 0 bpp t + k)"
proof
  assume r: "in_rect w h pitch bpp i"
  let ?m = "i mod unat pitch"
  have n: "0 < unat bpp" using r unfolding in_rect_def by (cases "unat bpp = 0") auto
  have x: "?m div unat bpp < unat w" using r n by (simp add: in_rect_def less_mult_imp_div_less)
  have "i = linear_at pitch 0 bpp (0, i div unat pitch, ?m div unat bpp) + ?m mod unat bpp"
    using r x linear_offset_exact [OF f x, of "i div unat pitch"] by (simp add: in_rect_def linear_at_def add.assoc)
  moreover have "(0, i div unat pitch, ?m div unat bpp) \<in> set (box 1 (unat h) (unat w))" using r x by (simp add: mem_box in_rect_def)
  moreover have "?m mod unat bpp < unat bpp" using n by simp
  ultimately show "\<exists>t k. t \<in> set (box 1 (unat h) (unat w)) \<and> k < unat bpp \<and> i = linear_at pitch 0 bpp t + k" by blast
next
  assume "\<exists>t k. t \<in> set (box 1 (unat h) (unat w)) \<and> k < unat bpp \<and> i = linear_at pitch 0 bpp t + k"
  then obtain y x k where c: "y < unat h" "x < unat w" "k < unat bpp" and i: "i = linear_at pitch 0 bpp (0, y, x) + k" by (auto simp: mem_box)
  have p: "x * unat bpp + k < unat w * unat bpp" using row_bound [OF c(2) order_refl, of "unat bpp"] c(3) by linarith
  then have "x * unat bpp + k < unat pitch" using f unfolding linear_fits_def by linarith
  moreover have "i = y * unat pitch + (x * unat bpp + k)" using i linear_offset_exact [OF f c(2,1)] by (simp add: linear_at_def)
  ultimately show "in_rect w h pitch bpp i" using c(1) p by (simp add: in_rect_def)
qed

lemma bits_for_eqI:
  assumes "unat w \<le> 2 ^ n" and "n = 0 \<or> 2 ^ (n - 1) < unat w"
  shows "bits_for w = n"
  using assms bits_for_iff [of n w] bits_for_iff [of "n - 1" w] by (cases n) auto

lemma bits_for_values: "bits_for 1 = 0" "bits_for 2 = 1" "bits_for 3 = 2" "bits_for 4 = 2" "bits_for 8 = 3"
  by (rule bits_for_eqI; simp)+

subsection \<open>Properties\<close>

text \<open>C25: A rectangle that is swizzled and unswizzled comes back unchanged: both loops return, the pixels of the
  result are the pixels of the source, and every other byte of the destination, in the padding of the rows or
  after them, is kept. The rows do not overlap and the sizes stay within 32 bits.\<close>

theorem swizzle_rect_roundtrip:
  assumes ok: "sizes_ok w h 1" "texels_fit w h 1 bpp" and f: "linear_fits w h pitch bpp"
  shows "\<exists>swz. swizzle_rect src w h tmp pitch bpp = Some swz
    \<and> unswizzle_rect swz w h dst pitch bpp = Some (\<lambda>i. if in_rect w h pitch bpp i then src i else dst i)"
proof -
  obtain mx my mz where g: "generate_swizzle_masks w h 1 = Some (mx, my, mz)" and m: "masks_of w h 1 mx my mz"
    using generate_masks [OF ok(1)] by blast
  let ?B = "box 1 (unat h) (unat w)" and ?L = "linear_at pitch 0 bpp" and ?S = "swizzled_at mx my mz bpp"
  let ?swz = "copies ?B (last_at mx my mz bpp) ?L (unat bpp) src tmp"
  let ?lin = "copies ?B ?L ?S (unat bpp) ?swz dst"
  have last: "last_at mx my mz bpp t = ?S t" if "t \<in> set ?B" for t using mem_box_1 [OF that] by (auto simp: last_at_def)
  have swz: "?swz (?S t + k) = src (?L t + k)" if t: "t \<in> set ?B" "k < unat bpp" for t k
  proof -
    have "?S t' = ?S t \<and> ?L t' = ?L t \<or> ?S t' + unat bpp \<le> ?S t \<or> ?S t + unat bpp \<le> ?S t'" if "t' \<in> set ?B" for t'
      using swizzled_apart [OF m ok(2), of t' t, unfolded unsigned_1] that t(1) by (cases "t' = t") simp_all
    then have "?swz (last_at mx my mz bpp t + k) = src (?L t + k)" by (intro copies_inside [OF t]) (simp only: last t(1))
    then show ?thesis by (simp only: last [OF t(1)])
  qed
  have lin: "?lin (?L t + k) = src (?L t + k)" if t: "t \<in> set ?B" "k < unat bpp" for t k
  proof -
    have "?L t' = ?L t \<and> ?S t' = ?S t \<or> ?L t' + unat bpp \<le> ?L t \<or> ?L t + unat bpp \<le> ?L t'" if "t' \<in> set ?B" for t'
      using linear_apart [OF f that t(1)] by (cases "t' = t") simp_all
    then have "?lin (?L t + k) = ?swz (?S t + k)" by (rule copies_inside [OF t])
    then show ?thesis by (simp only: swz [OF t])
  qed
  have "?lin i = (if in_rect w h pitch bpp i then src i else dst i)" for i
  proof (cases "in_rect w h pitch bpp i")
    case True
    then show ?thesis using lin unfolding in_rect_iff [OF f] by auto
  next
    case False
    then have "i < ?L t \<or> ?L t + unat bpp \<le> i" if "t \<in> set ?B" for t
      using that le_Suc_ex [of "?L t" i] unfolding in_rect_iff [OF f] by (metis add_less_cancel_left not_less)
    then show ?thesis using False by (simp add: copies_outside)
  qed
  then show ?thesis unfolding swizzle_rect_def unswizzle_rect_def
    using swizzle_box_copies [OF g m] unswizzle_box_copies [OF g m] by auto
qed

theorem swizzle_rect_roundtrip_witness:
  "sizes_ok 3 2 1 \<and> texels_fit 3 2 1 4 \<and> linear_fits 3 2 16 4
    \<and> (\<exists>swz. swizzle_rect (\<lambda>i. of_nat i) 3 2 (\<lambda>i. 0) 16 4 = Some swz
    \<and> unswizzle_rect swz 3 2 (\<lambda>i. 0) 16 4 = Some (\<lambda>i. if in_rect 3 2 16 4 i then of_nat i else 0))"
proof -
  have "sizes_ok 3 2 1" "texels_fit 3 2 1 4" "linear_fits 3 2 16 4"
    by (simp_all add: sizes_ok_def texels_fit_def linear_fits_def bits_for_values)
  then show ?thesis using swizzle_rect_roundtrip [of 3 2 4 16 "\<lambda>i. of_nat i" "\<lambda>i. 0" "\<lambda>i. 0"] by blast
qed

text \<open>C26: The swizzle masks interleave the coordinates: bit \<open>j\<close> of a coordinate goes to the position after the
  lower bits of all three coordinates, and \<open>x\<close> comes before \<open>y\<close> before \<open>z\<close>; a coordinate with fewer bits is
  skipped, and the assertion of the code holds.\<close>

theorem swizzle_masks_interleave:
  assumes "sizes_ok w h d" and "a = bits_for w" "b = bits_for h" "c = bits_for d"
  shows "\<exists>x y z. generate_swizzle_masks w h d = Some (x, y, z)
    \<and> (\<forall>n. bit x n \<longleftrightarrow> (\<exists>j<a. n = j + min j b + min j c))
    \<and> (\<forall>n. bit y n \<longleftrightarrow> (\<exists>j<b. n = min (Suc j) a + j + min j c))
    \<and> (\<forall>n. bit z n \<longleftrightarrow> (\<exists>j<c. n = min (Suc j) a + min (Suc j) b + j))"
  using generate_masks [OF assms(1)] unfolding assms(2-4) masks_of_def mask_at_def pos_defs [abs_def] image_iff Bex_def lessThan_iff .

theorem swizzle_masks_interleave_witness:
  "sizes_ok 8 2 4 \<and> bits_for 8 = 3 \<and> bits_for 2 = 1 \<and> bits_for 4 = 2
    \<and> (\<exists>x y z. generate_swizzle_masks 8 2 4 = Some (x, y, z)
      \<and> (\<forall>n. bit x n \<longleftrightarrow> (\<exists>j<3. n = j + min j 1 + min j 2))
      \<and> (\<forall>n. bit y n \<longleftrightarrow> (\<exists>j<1. n = min (Suc j) 3 + j + min j 2))
      \<and> (\<forall>n. bit z n \<longleftrightarrow> (\<exists>j<2. n = min (Suc j) 3 + min (Suc j) 1 + j)))"
proof -
  have c: "sizes_ok 8 2 4" "bits_for 8 = 3" "bits_for 2 = 1" "bits_for 4 = 2"
    by (simp_all add: sizes_ok_def bits_for_values)
  show ?thesis using swizzle_masks_interleave [OF c(1) c(2-4) [symmetric]] c by blast
qed

text \<open>C27: Filling a pattern ends exactly if the value has no more bits than the pattern, and then puts bit \<open>i\<close> of the
  value at the \<open>i\<close>-th set bit of the pattern and nothing elsewhere; with more bits than that the loop never
  ends.\<close>

theorem fill_pattern_deposits:
  "case fill_pattern p v of
     Some r \<Rightarrow> shr v (rank p 32) = 0 \<and> (\<forall>n. bit r n \<longleftrightarrow> bit p n \<and> bit v (rank p n))
   | None \<Rightarrow> shr v (rank p 32) \<noteq> 0"
  using fill_pattern_spec [of p v] unfolding deposited_def .

text \<open>C28: The texels of a box have offsets within the swizzled image, and the bytes of two different texels do not
  overlap.\<close>

theorem swizzled_texels_disjoint:
  assumes "sizes_ok w h d" and fit: "texels_fit w h d bpp"
    and c: "x < unat w" "y < unat h" "z < unat d" and c': "x' < unat w" "y' < unat h" "z' < unat d" and ne: "(x, y, z) \<noteq> (x', y', z')"
  shows "\<exists>mx my mz p q. generate_swizzle_masks w h d = Some (mx, my, mz)
    \<and> get_swizzled_offset (of_nat x) (of_nat y) (of_nat z) mx my mz bpp = Some p
    \<and> get_swizzled_offset (of_nat x') (of_nat y') (of_nat z') mx my mz bpp = Some q
    \<and> unat p + unat bpp \<le> unat bpp * 2 ^ (bits_for w + bits_for h + bits_for d)
    \<and> (unat p + unat bpp \<le> unat q \<or> unat q + unat bpp \<le> unat p)"
proof -
  obtain mx my mz where g: "generate_swizzle_masks w h d = Some (mx, my, mz)" and m: "masks_of w h d mx my mz"
    using generate_masks [OF assms(1)] by blast
  have "unat bpp * Suc (unat (texel mx my mz x y z)) \<le> unat bpp * 2 ^ (bits_for w + bits_for h + bits_for d)"
    using texel_bound [OF m c] by (intro mult_le_mono2) simp
  then have "unat (bpp * texel mx my mz x y z) + unat bpp \<le> unat bpp * 2 ^ (bits_for w + bits_for h + bits_for d)"
    unfolding texel_offset [OF m fit c] by simp
  then show ?thesis using g get_swizzled_offset_texel [OF m c] get_swizzled_offset_texel [OF m c'] texels_apart [OF m fit c c' ne] by blast
qed

theorem swizzled_texels_disjoint_witness:
  "sizes_ok 8 8 4 \<and> texels_fit 8 8 4 4 \<and> (5, 7, 2) \<noteq> (4::nat, 7::nat, 3::nat)
    \<and> (\<exists>mx my mz p q. generate_swizzle_masks 8 8 4 = Some (mx, my, mz)
    \<and> get_swizzled_offset (of_nat 5) (of_nat 7) (of_nat 2) mx my mz 4 = Some p
    \<and> get_swizzled_offset (of_nat 4) (of_nat 7) (of_nat 3) mx my mz 4 = Some q
    \<and> unat p + unat (4 :: u32) \<le> unat (4 :: u32) * 2 ^ (bits_for 8 + bits_for 8 + bits_for 4)
    \<and> (unat p + unat (4 :: u32) \<le> unat q \<or> unat q + unat (4 :: u32) \<le> unat p))"
proof -
  have "sizes_ok 8 8 4" "texels_fit 8 8 4 4" by (simp_all add: sizes_ok_def texels_fit_def bits_for_values)
  moreover have "5 < unat (8::u32)" "7 < unat (8::u32)" "2 < unat (4::u32)" "4 < unat (8::u32)" "3 < unat (4::u32)"
    "(5, 7, 2) \<noteq> (4::nat, 7::nat, 3::nat)" by simp_all
  ultimately show ?thesis using swizzled_texels_disjoint [of 8 8 4 4 5 7 2 4 7 3] by blast
qed

text \<open>Copies whose destinations are all written again later have no effect.\<close>

lemma copies_append: "copies (ts @ us) D S n src dst = copies us D S n src (copies ts D S n src dst)"
  by (simp add: copies_def)

lemma copies_overwritten:
  assumes over: "\<And>t. t \<in> set ts \<Longrightarrow> \<exists>u\<in>set us. D u = D t"
    and apart: "\<And>u u'. u \<in> set us \<Longrightarrow> u' \<in> set us \<Longrightarrow> u \<noteq> u' \<Longrightarrow> D u' + n \<le> D u \<or> D u + n \<le> D u'"
    and same: "\<And>u k. u \<in> set us \<Longrightarrow> k < n \<Longrightarrow> src (S u + k) = src' (S u + k)"
  shows "copies (ts @ us) D S n src dst = copies (ts @ us) D S n src' dst"
proof
  fix i
  show "copies (ts @ us) D S n src dst i = copies (ts @ us) D S n src' dst i"
  proof (cases "\<exists>u\<in>set us. D u \<le> i \<and> i < D u + n")
    case True
    then obtain u k where u: "u \<in> set us" "k < n" "i = D u + k" by (metis add_less_cancel_left le_iff_add)
    have a: "(D t' = D u \<and> S t' = S u) \<or> D t' + n \<le> D u \<or> D u + n \<le> D t'" if "t' \<in> set us" for t'
      using apart [OF u(1) that] by (cases "u = t'") auto
    have "copies us D S n s b (D u + k) = s (S u + k)" for s b by (rule copies_inside [OF u(1,2)]) (rule a)
    then show ?thesis unfolding copies_append u(3) by (simp only: same [OF u(1,2)])
  next
    case False
    then have us: "i < D t \<or> D t + n \<le> i" if "t \<in> set us" for t using that by (meson not_less)
    have "i < D t \<or> D t + n \<le> i" if t: "t \<in> set (ts @ us)" for t
      using t over [of t] us by (metis Un_iff set_append)
    then show ?thesis by (simp only: copies_outside)
  qed
qed

lemma box_Suc: "box (Suc d) h w = box d h w @ map (Pair d) (List.product [0..<h] [0..<w])"
proof -
  have "List.product (xs @ [a]) ys = List.product xs ys @ map (Pair a) ys" for xs :: "nat list" and a and ys :: "(nat \<times> nat) list"
    by (induction xs) simp_all
  then show ?thesis by (simp add: box_def)
qed

text \<open>C29: Swizzling a box with several slices loses all but the last: every slice is written to the place of the
  first, so two images with the same last slice have the same result. (\<open>swizzle_box\<close> passes \<open>0\<close> for the \<open>z\<close>
  coordinate and for its mask, \<open>unswizzle_box\<close> does not.)\<close>

theorem swizzle_box_last_slice:
  assumes ok: "sizes_ok w h d" "texels_fit w h d bpp"
    and same: "\<forall>y<unat h. \<forall>x<unat w. \<forall>k<unat bpp. src ((unat d - 1) * unat sp + linear_offset x y rp bpp + k)
      = src' ((unat d - 1) * unat sp + linear_offset x y rp bpp + k)"
  shows "\<exists>swz. swizzle_box src w h d dst rp sp bpp = Some swz \<and> swizzle_box src' w h d dst rp sp bpp = Some swz"
proof -
  obtain mx my mz where g: "generate_swizzle_masks w h d = Some (mx, my, mz)" and m: "masks_of w h d mx my mz"
    using generate_masks [OF ok(1)] by blast
  have "copies (box (unat d) (unat h) (unat w)) (last_at mx my mz bpp) (linear_at rp sp bpp) (unat bpp) src dst
      = copies (box (unat d) (unat h) (unat w)) (last_at mx my mz bpp) (linear_at rp sp bpp) (unat bpp) src' dst"
  proof (cases "unat d")
    case (Suc n)
    have apart: "last_at mx my mz bpp (n, u') + unat bpp \<le> last_at mx my mz bpp (n, u)
        \<or> last_at mx my mz bpp (n, u) + unat bpp \<le> last_at mx my mz bpp (n, u')"
      if "u \<in> set (List.product [0..<unat h] [0..<unat w])" "u' \<in> set (List.product [0..<unat h] [0..<unat w])" "u \<noteq> u'" for u u'
      using swizzled_apart [OF m ok(2), of "(0, u')" "(0, u)"] that Suc by (cases u; cases u') (auto simp: last_at_def box_def)
    show ?thesis unfolding Suc box_Suc
      by (rule copies_overwritten) (use apart same Suc in \<open>auto simp: last_at_def linear_at_def box_def\<close>)
  qed (simp add: box_def copies_def)
  then show ?thesis using swizzle_box_copies [OF g m] by auto
qed

theorem swizzle_box_last_slice_witness:
  "sizes_ok 1 1 2 \<and> texels_fit 1 1 2 1 \<and> (\<lambda>i. if i = 0 then 5 else 7) \<noteq> ((\<lambda>i. 7) :: buffer)
    \<and> (\<exists>swz. swizzle_box (\<lambda>i. if i = 0 then 5 else 7) 1 1 2 (\<lambda>i. 0) 1 1 1 = Some swz
      \<and> swizzle_box (\<lambda>i. 7) 1 1 2 (\<lambda>i. 0) 1 1 1 = Some swz)"
proof -
  have ok: "sizes_ok 1 1 2" "texels_fit 1 1 2 1" by (simp_all add: sizes_ok_def texels_fit_def bits_for_values)
  have "(\<lambda>i. if i = 0 then 5 else 7) \<noteq> ((\<lambda>i. 7) :: buffer)" by (auto dest: fun_cong [of _ _ 0])
  then show ?thesis using ok swizzle_box_last_slice [OF ok, of "\<lambda>i. if i = 0 then 5 else 7" 1 1 "\<lambda>i. 7" "\<lambda>i. 0"]
    by (simp add: linear_offset_def)
qed

end
