(* ===== verification/Texture_Upload.thy ===== *)
theory Texture_Upload
  imports Swizzle_Props
begin

text \<open>
  The upload of a texture in \<open>nv2a_pgraph.c\<close>: the table of colour formats, \<open>convert_texture_data\<close>,
  \<open>upload_gl_texture\<close> and \<open>generate_texture\<close>, with every assertion that can stop them, and the textures for which
  they return.

  OpenGL and the allocator are parameters: \<open>host\<close> says what \<open>glGenTextures\<close> answers, what the other OpenGL calls do
  to an abstract state, and what a fresh heap block contains. An OpenGL call is a value with the arguments of the call
  (the border argument, which is always 0, is left out), and the data it points to is the buffer at the pointer. The
  pointers \<open>texture_data\<close> and \<open>palette_data\<close> are offsets in the memory that the graphics unit shares with the guest. Heap blocks are
  taken to be as large as the accesses to them, and debug labels are left out.
\<close>

subsection \<open>OpenGL\<close>

abbreviation (input) GL_TEXTURE_1D :: u32 where "GL_TEXTURE_1D \<equiv> 0x0DE0"
abbreviation (input) GL_TEXTURE_2D :: u32 where "GL_TEXTURE_2D \<equiv> 0x0DE1"
abbreviation (input) GL_TEXTURE_3D :: u32 where "GL_TEXTURE_3D \<equiv> 0x806F"
abbreviation (input) GL_TEXTURE_RECTANGLE :: u32 where "GL_TEXTURE_RECTANGLE \<equiv> 0x84F5"
abbreviation (input) GL_TEXTURE_CUBE_MAP :: u32 where "GL_TEXTURE_CUBE_MAP \<equiv> 0x8513"
abbreviation (input) GL_TEXTURE_CUBE_MAP_POSITIVE_X :: u32 where "GL_TEXTURE_CUBE_MAP_POSITIVE_X \<equiv> 0x8515"
abbreviation (input) GL_TEXTURE_CUBE_MAP_NEGATIVE_X :: u32 where "GL_TEXTURE_CUBE_MAP_NEGATIVE_X \<equiv> 0x8516"
abbreviation (input) GL_TEXTURE_CUBE_MAP_POSITIVE_Y :: u32 where "GL_TEXTURE_CUBE_MAP_POSITIVE_Y \<equiv> 0x8517"
abbreviation (input) GL_TEXTURE_CUBE_MAP_NEGATIVE_Y :: u32 where "GL_TEXTURE_CUBE_MAP_NEGATIVE_Y \<equiv> 0x8518"
abbreviation (input) GL_TEXTURE_CUBE_MAP_POSITIVE_Z :: u32 where "GL_TEXTURE_CUBE_MAP_POSITIVE_Z \<equiv> 0x8519"
abbreviation (input) GL_TEXTURE_CUBE_MAP_NEGATIVE_Z :: u32 where "GL_TEXTURE_CUBE_MAP_NEGATIVE_Z \<equiv> 0x851A"
abbreviation (input) GL_UNPACK_ROW_LENGTH :: u32 where "GL_UNPACK_ROW_LENGTH \<equiv> 0x0CF2"
abbreviation (input) GL_TEXTURE_BASE_LEVEL :: u32 where "GL_TEXTURE_BASE_LEVEL \<equiv> 0x813C"
abbreviation (input) GL_TEXTURE_MAX_LEVEL :: u32 where "GL_TEXTURE_MAX_LEVEL \<equiv> 0x813D"
abbreviation (input) GL_TEXTURE_SWIZZLE_RGBA :: u32 where "GL_TEXTURE_SWIZZLE_RGBA \<equiv> 0x8E46"

abbreviation (input) GL_ZERO :: u32 where "GL_ZERO \<equiv> 0"
abbreviation (input) GL_ONE :: u32 where "GL_ONE \<equiv> 1"
abbreviation (input) GL_RED :: u32 where "GL_RED \<equiv> 0x1903"
abbreviation (input) GL_GREEN :: u32 where "GL_GREEN \<equiv> 0x1904"
abbreviation (input) GL_RG :: u32 where "GL_RG \<equiv> 0x8227"
abbreviation (input) GL_RGB :: u32 where "GL_RGB \<equiv> 0x1907"
abbreviation (input) GL_RGBA :: u32 where "GL_RGBA \<equiv> 0x1908"
abbreviation (input) GL_BGRA :: u32 where "GL_BGRA \<equiv> 0x80E1"
abbreviation (input) GL_DEPTH_COMPONENT :: u32 where "GL_DEPTH_COMPONENT \<equiv> 0x1902"
abbreviation (input) GL_DEPTH_STENCIL :: u32 where "GL_DEPTH_STENCIL \<equiv> 0x84F9"
abbreviation (input) GL_R8 :: u32 where "GL_R8 \<equiv> 0x8229"
abbreviation (input) GL_R16 :: u32 where "GL_R16 \<equiv> 0x822A"
abbreviation (input) GL_RG8 :: u32 where "GL_RG8 \<equiv> 0x822B"
abbreviation (input) GL_RGB5 :: u32 where "GL_RGB5 \<equiv> 0x8050"
abbreviation (input) GL_RGB8 :: u32 where "GL_RGB8 \<equiv> 0x8051"
abbreviation (input) GL_RGBA4 :: u32 where "GL_RGBA4 \<equiv> 0x8056"
abbreviation (input) GL_RGB5_A1 :: u32 where "GL_RGB5_A1 \<equiv> 0x8057"
abbreviation (input) GL_RGBA8 :: u32 where "GL_RGBA8 \<equiv> 0x8058"
abbreviation (input) GL_RGB565 :: u32 where "GL_RGB565 \<equiv> 0x8D62"
abbreviation (input) GL_RG8_SNORM :: u32 where "GL_RG8_SNORM \<equiv> 0x8F95"
abbreviation (input) GL_RGB8_SNORM :: u32 where "GL_RGB8_SNORM \<equiv> 0x8F96"
abbreviation (input) GL_DEPTH_COMPONENT16 :: u32 where "GL_DEPTH_COMPONENT16 \<equiv> 0x81A5"
abbreviation (input) GL_DEPTH24_STENCIL8 :: u32 where "GL_DEPTH24_STENCIL8 \<equiv> 0x88F0"
abbreviation (input) GL_COMPRESSED_RGBA_S3TC_DXT1_EXT :: u32 where "GL_COMPRESSED_RGBA_S3TC_DXT1_EXT \<equiv> 0x83F1"
abbreviation (input) GL_COMPRESSED_RGBA_S3TC_DXT3_EXT :: u32 where "GL_COMPRESSED_RGBA_S3TC_DXT3_EXT \<equiv> 0x83F2"
abbreviation (input) GL_COMPRESSED_RGBA_S3TC_DXT5_EXT :: u32 where "GL_COMPRESSED_RGBA_S3TC_DXT5_EXT \<equiv> 0x83F3"
abbreviation (input) GL_BYTE :: u32 where "GL_BYTE \<equiv> 0x1400"
abbreviation (input) GL_UNSIGNED_BYTE :: u32 where "GL_UNSIGNED_BYTE \<equiv> 0x1401"
abbreviation (input) GL_UNSIGNED_SHORT :: u32 where "GL_UNSIGNED_SHORT \<equiv> 0x1403"
abbreviation (input) GL_UNSIGNED_SHORT_5_6_5 :: u32 where "GL_UNSIGNED_SHORT_5_6_5 \<equiv> 0x8363"
abbreviation (input) GL_UNSIGNED_SHORT_4_4_4_4_REV :: u32 where "GL_UNSIGNED_SHORT_4_4_4_4_REV \<equiv> 0x8365"
abbreviation (input) GL_UNSIGNED_SHORT_1_5_5_5_REV :: u32 where "GL_UNSIGNED_SHORT_1_5_5_5_REV \<equiv> 0x8366"
abbreviation (input) GL_UNSIGNED_INT_8_8_8_8 :: u32 where "GL_UNSIGNED_INT_8_8_8_8 \<equiv> 0x8035"
abbreviation (input) GL_UNSIGNED_INT_8_8_8_8_REV :: u32 where "GL_UNSIGNED_INT_8_8_8_8_REV \<equiv> 0x8367"
abbreviation (input) GL_UNSIGNED_INT_24_8 :: u32 where "GL_UNSIGNED_INT_24_8 \<equiv> 0x84FA"

datatype gl_call =
  glBindTexture u32 u32
| glPixelStorei u32 u32
| glTexImage2D u32 u32 u32 u32 u32 u32 u32 buffer
| glTexImage3D u32 u32 u32 u32 u32 u32 u32 u32 buffer
| glCompressedTexImage2D u32 u32 u32 u32 u32 u32 buffer
| glTexParameteri u32 u32 u32
| glTexParameteriv u32 u32 "u32 list"
| glTexParameterfv u32 u32 "u32 list"
| glDeleteTextures u32

record 'gl host =
  glGenTextures :: "'gl \<Rightarrow> 'gl \<times> u32"
  gl_do :: "gl_call \<Rightarrow> 'gl \<Rightarrow> 'gl"
  g_malloc :: "u32 \<Rightarrow> buffer"

subsection \<open>Structures\<close>

text \<open>A designated initialiser says nothing about the three bytes after \<open>cubemap\<close>, and \<open>memcmp\<close> compares them:
  they are a field of their own.\<close>

record TextureShape =
  cubemap :: bool
  cubemap_padding :: "24 word"
  dimensionality :: u32
  color_format :: u32
  levels :: u32
  width :: u32
  height :: u32
  depth :: u32
  min_mipmap_level :: u32
  max_mipmap_level :: u32
  pitch :: u32

record TextureBinding =
  gl_target :: u32
  gl_texture :: u32
  refcnt :: u32

record 'gl pgraph_textures =
  gl :: 'gl
  vram :: buffer
  bindings :: "TextureBinding option list"
  texture_binding :: "nat option list"
  texture_dirty :: "bool list"

subsection \<open>Colour formats\<close>

record ColorFormatInfo =
  bytes_per_pixel :: u32
  linear :: bool
  gl_internal_format :: u32
  gl_format :: u32
  gl_type :: u32
  gl_swizzle_mask :: "u32 list"

abbreviation (input) color_info :: "u32 \<Rightarrow> bool \<Rightarrow> u32 \<Rightarrow> u32 \<Rightarrow> u32 \<Rightarrow> u32 list \<Rightarrow> ColorFormatInfo" where
  "color_info n l i f t m \<equiv> \<lparr>bytes_per_pixel = n, linear = l, gl_internal_format = i, gl_format = f, gl_type = t, gl_swizzle_mask = m\<rparr>"

text \<open>The entries of the array by their index, the value of \<open>NV097_SET_TEXTURE_FORMAT_COLOR_...\<close>; the members that an
  initialiser leaves out, and the elements that it leaves out, are zero. Reading beyond the 66 elements is \<open>None\<close>.\<close>

definition no_swizzle :: "u32 list" where "no_swizzle = [0, 0, 0, 0]"

definition color_formats :: "(u32 \<times> ColorFormatInfo) list" where
  "color_formats =
    [(0x00, color_info 1 False GL_R8 GL_RED GL_UNSIGNED_BYTE [GL_RED, GL_RED, GL_RED, GL_ONE]),
     (0x01, color_info 1 False GL_R8 GL_RED GL_UNSIGNED_BYTE [GL_RED, GL_RED, GL_RED, GL_RED]),
     (0x02, color_info 2 False GL_RGB5_A1 GL_BGRA GL_UNSIGNED_SHORT_1_5_5_5_REV no_swizzle),
     (0x03, color_info 2 False GL_RGB5 GL_BGRA GL_UNSIGNED_SHORT_1_5_5_5_REV no_swizzle),
     (0x04, color_info 2 False GL_RGBA4 GL_BGRA GL_UNSIGNED_SHORT_4_4_4_4_REV no_swizzle),
     (0x05, color_info 2 False GL_RGB565 GL_RGB GL_UNSIGNED_SHORT_5_6_5 no_swizzle),
     (0x06, color_info 4 False GL_RGBA8 GL_BGRA GL_UNSIGNED_INT_8_8_8_8_REV no_swizzle),
     (0x07, color_info 4 False GL_RGB8 GL_BGRA GL_UNSIGNED_INT_8_8_8_8_REV no_swizzle),
     (0x0B, color_info 1 False GL_RGBA8 GL_BGRA GL_UNSIGNED_INT_8_8_8_8_REV no_swizzle),
     (0x0C, color_info 4 False GL_COMPRESSED_RGBA_S3TC_DXT1_EXT 0 GL_RGBA no_swizzle),
     (0x0E, color_info 4 False GL_COMPRESSED_RGBA_S3TC_DXT3_EXT 0 GL_RGBA no_swizzle),
     (0x0F, color_info 4 False GL_COMPRESSED_RGBA_S3TC_DXT5_EXT 0 GL_RGBA no_swizzle),
     (0x10, color_info 2 True GL_RGB5_A1 GL_BGRA GL_UNSIGNED_SHORT_1_5_5_5_REV no_swizzle),
     (0x11, color_info 2 True GL_RGB565 GL_RGB GL_UNSIGNED_SHORT_5_6_5 no_swizzle),
     (0x12, color_info 4 True GL_RGBA8 GL_BGRA GL_UNSIGNED_INT_8_8_8_8_REV no_swizzle),
     (0x13, color_info 1 True GL_R8 GL_RED GL_UNSIGNED_BYTE [GL_RED, GL_RED, GL_RED, GL_ONE]),
     (0x19, color_info 1 False GL_R8 GL_RED GL_UNSIGNED_BYTE [GL_ONE, GL_ONE, GL_ONE, GL_RED]),
     (0x1A, color_info 2 False GL_RG8 GL_RG GL_UNSIGNED_BYTE [GL_RED, GL_RED, GL_RED, GL_GREEN]),
     (0x1B, color_info 1 True GL_R8 GL_RED GL_UNSIGNED_BYTE [GL_RED, GL_RED, GL_RED, GL_RED]),
     (0x1C, color_info 2 True GL_RGB5 GL_BGRA GL_UNSIGNED_SHORT_1_5_5_5_REV no_swizzle),
     (0x1D, color_info 2 True GL_RGBA4 GL_BGRA GL_UNSIGNED_SHORT_4_4_4_4_REV no_swizzle),
     (0x1E, color_info 4 True GL_RGB8 GL_BGRA GL_UNSIGNED_INT_8_8_8_8_REV no_swizzle),
     (0x1F, color_info 1 True GL_R8 GL_RED GL_UNSIGNED_BYTE [GL_ONE, GL_ONE, GL_ONE, GL_RED]),
     (0x20, color_info 2 True GL_RG8 GL_RG GL_UNSIGNED_BYTE [GL_RED, GL_RED, GL_RED, GL_GREEN]),
     (0x27, color_info 2 False GL_RGB8_SNORM GL_RGB GL_BYTE no_swizzle),
     (0x28, color_info 2 False GL_RG8_SNORM GL_RG GL_BYTE [GL_ZERO, GL_RED, GL_GREEN, GL_ONE]),
     (0x29, color_info 2 False GL_RG8_SNORM GL_RG GL_BYTE [GL_RED, GL_ZERO, GL_GREEN, GL_ONE]),
     (0x24, color_info 2 True GL_RGBA8 GL_RGBA GL_UNSIGNED_INT_8_8_8_8_REV no_swizzle),
     (0x2E, color_info 4 True GL_DEPTH24_STENCIL8 GL_DEPTH_STENCIL GL_UNSIGNED_INT_24_8 no_swizzle),
     (0x30, color_info 2 True GL_DEPTH_COMPONENT16 GL_DEPTH_COMPONENT GL_UNSIGNED_SHORT no_swizzle),
     (0x35, color_info 2 True GL_R16 GL_RED GL_UNSIGNED_SHORT [GL_RED, GL_RED, GL_RED, GL_ONE]),
     (0x3A, color_info 4 False GL_RGBA8 GL_RGBA GL_UNSIGNED_INT_8_8_8_8_REV no_swizzle),
     (0x3C, color_info 4 False GL_RGBA8 GL_RGBA GL_UNSIGNED_INT_8_8_8_8 no_swizzle),
     (0x3F, color_info 4 True GL_RGBA8 GL_RGBA GL_UNSIGNED_INT_8_8_8_8_REV no_swizzle),
     (0x40, color_info 4 True GL_RGBA8 GL_BGRA GL_UNSIGNED_INT_8_8_8_8 no_swizzle),
     (0x41, color_info 4 True GL_RGBA8 GL_RGBA GL_UNSIGNED_INT_8_8_8_8 no_swizzle)]"

definition kelvin_color_format_map :: "u32 \<Rightarrow> ColorFormatInfo option" where
  "kelvin_color_format_map i =
     (if i < 66 then Some (case map_of color_formats i of Some f \<Rightarrow> f | None \<Rightarrow> color_info 0 False 0 0 0 no_swizzle) else None)"

abbreviation (input) NV097_SET_TEXTURE_FORMAT_COLOR_SZ_I8_A8R8G8B8 :: u32 where "NV097_SET_TEXTURE_FORMAT_COLOR_SZ_I8_A8R8G8B8 \<equiv> 0x0B"
abbreviation (input) NV097_SET_TEXTURE_FORMAT_COLOR_LC_IMAGE_CR8YB8CB8YA8 :: u32 where
  "NV097_SET_TEXTURE_FORMAT_COLOR_LC_IMAGE_CR8YB8CB8YA8 \<equiv> 0x24"
abbreviation (input) NV097_SET_TEXTURE_FORMAT_COLOR_SZ_R6G5B5 :: u32 where "NV097_SET_TEXTURE_FORMAT_COLOR_SZ_R6G5B5 \<equiv> 0x27"

subsection \<open>Conversion of texture data\<close>

definition cliptobyte :: "int \<Rightarrow> u8" where
  "cliptobyte x = of_int (if x < 0 then 0 else if x > 255 then 255 else x)"

text \<open>The shift of a signed value to the right is arithmetic.\<close>

definition convert_yuy2_to_rgb :: "buffer \<Rightarrow> u32 \<Rightarrow> u8 \<times> u8 \<times> u8" where
  "convert_yuy2_to_rgb line ix =
     (let c = uint (line (unat (ix * 2))) - 16;
          (d, e) = (if ix mod 2 \<noteq> 0
            then (uint (line (unat (ix * 2 - 1))) - 128, uint (line (unat (ix * 2 + 1))) - 128)
            else (uint (line (unat (ix * 2 + 1))) - 128, uint (line (unat (ix * 2 + 3))) - 128))
      in (cliptobyte ((298 * c + 409 * e + 128) div 256),
          cliptobyte ((298 * c - 100 * d - 208 * e + 128) div 256),
          cliptobyte ((298 * c + 516 * d + 128) div 256)))"

text \<open>The buffer at a pointer.\<close>

definition buffer_at :: "buffer \<Rightarrow> nat \<Rightarrow> buffer" where
  "buffer_at m p = (\<lambda>i. m (p + i))"

text \<open>One pixel of each of the three converted formats. Index expressions are unsigned; what is added to a pointer is not
  reduced.\<close>

definition convert_i8_pixel :: "buffer \<Rightarrow> buffer \<Rightarrow> u32 \<Rightarrow> u32 \<Rightarrow> nat \<Rightarrow> nat \<Rightarrow> buffer \<Rightarrow> buffer option" where
  "convert_i8_pixel data palette_data w row_pitch y x converted_data =
     (let index = data (unat (of_nat y * row_pitch + of_nat x))
      in Some (copy_bytes converted_data (unat (of_nat y * w * 4) + x * 4) palette_data (unat index * 4) 4))"

definition convert_yuv_pixel :: "buffer \<Rightarrow> u32 \<Rightarrow> nat \<Rightarrow> nat \<Rightarrow> buffer \<Rightarrow> buffer option" where
  "convert_yuv_pixel data shape_width y x converted_data =
     (let line = buffer_at data (unat (of_nat y * shape_width * 2));
          pixel = unat ((of_nat y * shape_width + of_nat x) * 4);
          (r, g, b) = convert_yuy2_to_rgb line (of_nat x)
      in Some (converted_data(pixel := r, pixel + 1 := g, pixel + 2 := b, pixel + 3 := 255)))"

definition convert_r6g5b5_pixel :: "buffer \<Rightarrow> u32 \<Rightarrow> u32 \<Rightarrow> nat \<Rightarrow> nat \<Rightarrow> buffer \<Rightarrow> buffer option" where
  "convert_r6g5b5_pixel data w row_pitch y x converted_data =
     (let p = unat (of_nat y * row_pitch) + x * 2;
          rgb655 = (ucast (data p) OR shl (ucast (data (p + 1))) 8 :: u16) XOR (shl 1 9 OR shl 1 4);
          pixel = unat ((of_nat y * w + of_nat x) * 3)
      in Some (converted_data(
           pixel := of_int (uint (shr (rgb655 AND 0xFC00) 10) * 0x7F div 0x3F),
           pixel + 1 := of_int (uint (shr (rgb655 AND 0x03E0) 5) * 0xFF div 0x1F - 0x80),
           pixel + 2 := of_int (uint (rgb655 AND 0x001F) * 0xFF div 0x1F - 0x80))))"

text \<open>The result is a buffer, or \<open>NULL\<close> for a format that needs no conversion.\<close>

definition convert_texture_data ::
  "'gl host \<Rightarrow> TextureShape \<Rightarrow> buffer \<Rightarrow> buffer \<Rightarrow> u32 \<Rightarrow> u32 \<Rightarrow> u32 \<Rightarrow> u32 \<Rightarrow> u32 \<Rightarrow> buffer option option" where
  "convert_texture_data host s data palette_data w h d row_pitch slice_pitch =
     (if color_format s = NV097_SET_TEXTURE_FORMAT_COLOR_SZ_I8_A8R8G8B8 then do {
        assert (d = 1);
        c \<leftarrow> for_loop (unat h) (\<lambda>y. for_loop (unat w) (convert_i8_pixel data palette_data w row_pitch y)) (g_malloc host (w * h * 4));
        Some (Some c) }
      else if color_format s = NV097_SET_TEXTURE_FORMAT_COLOR_LC_IMAGE_CR8YB8CB8YA8 then do {
        assert (d = 1);
        c \<leftarrow> for_loop (unat h) (\<lambda>y. for_loop (unat w) (convert_yuv_pixel data (width s) y)) (g_malloc host (w * h * 4));
        Some (Some c) }
      else if color_format s = NV097_SET_TEXTURE_FORMAT_COLOR_SZ_R6G5B5 then do {
        assert (d = 1);
        c \<leftarrow> for_loop (unat h) (\<lambda>y. for_loop (unat w) (convert_r6g5b5_pixel data w row_pitch y)) (g_malloc host (w * h * 3));
        Some (Some c) }
      else Some None)"

subsection \<open>Upload\<close>

text \<open>The bodies of the loops over the mipmap levels; the variables are the sizes, the pointer and the OpenGL state.\<close>

definition upload_level_2d ::
  "'gl host \<Rightarrow> u32 \<Rightarrow> TextureShape \<Rightarrow> ColorFormatInfo \<Rightarrow> buffer \<Rightarrow> nat \<Rightarrow> nat \<Rightarrow> u32 \<times> u32 \<times> nat \<times> 'gl
   \<Rightarrow> (u32 \<times> u32 \<times> nat \<times> 'gl) option" where
  "upload_level_2d host target s f m palette_data level v = (case v of (w, h, texture_data, g) \<Rightarrow>
     if gl_format f = 0 then
       let w = max w 4; h = max h 4;
           block_size = (if gl_internal_format f = GL_COMPRESSED_RGBA_S3TC_DXT1_EXT then 8 else 16);
           size = w div 4 * h div 4 * block_size;
           g = gl_do host (glCompressedTexImage2D target (of_nat level) (gl_internal_format f) w h size (buffer_at m texture_data)) g
       in Some (w div 2, h div 2, texture_data + unat size, g)
     else do {
       let w = max w 1;
       let h = max h 1;
       let row_pitch = w * bytes_per_pixel f;
       unswizzled \<leftarrow> unswizzle_rect (buffer_at m texture_data) w h (g_malloc host (h * row_pitch)) row_pitch (bytes_per_pixel f);
       converted \<leftarrow> convert_texture_data host s unswizzled (buffer_at m palette_data) w h 1 row_pitch 0;
       let g = gl_do host (glTexImage2D target (of_nat level) (gl_internal_format f) w h (gl_format f) (gl_type f)
         (case converted of Some c \<Rightarrow> c | None \<Rightarrow> unswizzled)) g;
       Some (w div 2, h div 2, texture_data + unat (w * h * bytes_per_pixel f), g) })"

definition upload_level_3d ::
  "'gl host \<Rightarrow> u32 \<Rightarrow> TextureShape \<Rightarrow> ColorFormatInfo \<Rightarrow> buffer \<Rightarrow> nat \<Rightarrow> nat \<Rightarrow> u32 \<times> u32 \<times> u32 \<times> nat \<times> 'gl
   \<Rightarrow> (u32 \<times> u32 \<times> u32 \<times> nat \<times> 'gl) option" where
  "upload_level_3d host target s f m palette_data level v = (case v of (w, h, d, texture_data, g) \<Rightarrow> do {
     let row_pitch = w * bytes_per_pixel f;
     let slice_pitch = row_pitch * h;
     unswizzled \<leftarrow> unswizzle_box (buffer_at m texture_data) w h d (g_malloc host (slice_pitch * d)) row_pitch slice_pitch (bytes_per_pixel f);
     converted \<leftarrow> convert_texture_data host s unswizzled (buffer_at m palette_data) w h d row_pitch slice_pitch;
     let g = gl_do host (glTexImage3D target (of_nat level) (gl_internal_format f) w h d (gl_format f) (gl_type f)
       (case converted of Some c \<Rightarrow> c | None \<Rightarrow> unswizzled)) g;
     Some (w div 2, h div 2, d div 2, texture_data + unat (w * h * d * bytes_per_pixel f), g) })"

definition upload_rectangle :: "'gl host \<Rightarrow> u32 \<Rightarrow> TextureShape \<Rightarrow> ColorFormatInfo \<Rightarrow> buffer \<Rightarrow> nat \<Rightarrow> nat \<Rightarrow> 'gl \<Rightarrow> 'gl option" where
  "upload_rectangle host target s f m texture_data palette_data g = do {
     assert (bytes_per_pixel f \<noteq> 0 \<and> pitch s mod bytes_per_pixel f = 0);
     let g = gl_do host (glPixelStorei GL_UNPACK_ROW_LENGTH (pitch s div bytes_per_pixel f)) g;
     converted \<leftarrow> convert_texture_data host s (buffer_at m texture_data) (buffer_at m palette_data) (width s) (height s) 1 (pitch s) 0;
     let g = gl_do host (glTexImage2D target 0 (gl_internal_format f) (width s) (height s) (gl_format f) (gl_type f)
       (case converted of Some c \<Rightarrow> c | None \<Rightarrow> buffer_at m texture_data)) g;
     Some (gl_do host (glPixelStorei GL_UNPACK_ROW_LENGTH 0) g) }"

definition upload_gl_texture :: "'gl host \<Rightarrow> u32 \<Rightarrow> TextureShape \<Rightarrow> buffer \<Rightarrow> nat \<Rightarrow> nat \<Rightarrow> 'gl \<Rightarrow> 'gl option" where
  "upload_gl_texture host target s m texture_data palette_data g = do {
     f \<leftarrow> kelvin_color_format_map (color_format s);
     if target = GL_TEXTURE_1D then None
     else if target = GL_TEXTURE_RECTANGLE then upload_rectangle host target s f m texture_data palette_data g
     else if target = GL_TEXTURE_2D
       \<or> target = GL_TEXTURE_CUBE_MAP_POSITIVE_X \<or> target = GL_TEXTURE_CUBE_MAP_NEGATIVE_X
       \<or> target = GL_TEXTURE_CUBE_MAP_POSITIVE_Y \<or> target = GL_TEXTURE_CUBE_MAP_NEGATIVE_Y
       \<or> target = GL_TEXTURE_CUBE_MAP_POSITIVE_Z \<or> target = GL_TEXTURE_CUBE_MAP_NEGATIVE_Z then do {
       (w, h, p, g) \<leftarrow> for_loop (unat (levels s)) (upload_level_2d host target s f m palette_data) (width s, height s, texture_data, g);
       Some g }
     else if target = GL_TEXTURE_3D then do {
       assert (gl_format f \<noteq> 0);
       assert (\<not> linear f);
       (w, h, d, p, g) \<leftarrow> for_loop (unat (levels s)) (upload_level_3d host target s f m palette_data) (width s, height s, depth s, texture_data, g);
       Some g }
     else None }"

subsection \<open>A new texture\<close>

definition texture_target :: "TextureShape \<Rightarrow> ColorFormatInfo \<Rightarrow> u32 option" where
  "texture_target s f =
     (if cubemap s then do { assert (\<not> linear f); assert (dimensionality s = 2); Some GL_TEXTURE_CUBE_MAP }
      else if linear f then do { assert (dimensionality s = 2); Some GL_TEXTURE_RECTANGLE }
      else if dimensionality s = 1 then Some GL_TEXTURE_1D
      else if dimensionality s = 2 then Some GL_TEXTURE_2D
      else if dimensionality s = 3 then Some GL_TEXTURE_3D
      else None)"

text \<open>The distance of the faces of a cube map. The terms are 32-bit values, the sum is a \<open>size_t\<close>.\<close>

abbreviation (input) NV2A_CUBEMAP_FACE_ALIGNMENT :: nat where "NV2A_CUBEMAP_FACE_ALIGNMENT \<equiv> 128"

primrec cubemap_levels :: "ColorFormatInfo \<Rightarrow> nat \<Rightarrow> u32 \<Rightarrow> u32 \<Rightarrow> nat" where
  "cubemap_levels f 0 w h = 0"
| "cubemap_levels f (Suc n) w h =
     unat (if gl_format f = 0 then w div 4 * h div 4 * (if gl_internal_format f = GL_COMPRESSED_RGBA_S3TC_DXT1_EXT then 8 else 16)
           else w * h * bytes_per_pixel f) + cubemap_levels f n (w div 2) (h div 2)"

definition cubemap_face_length :: "TextureShape \<Rightarrow> ColorFormatInfo \<Rightarrow> nat" where
  "cubemap_face_length s f =
     (cubemap_levels f (unat (levels s)) (width s) (height s) + NV2A_CUBEMAP_FACE_ALIGNMENT - 1)
       div NV2A_CUBEMAP_FACE_ALIGNMENT * NV2A_CUBEMAP_FACE_ALIGNMENT"

definition upload_cubemap :: "'gl host \<Rightarrow> TextureShape \<Rightarrow> ColorFormatInfo \<Rightarrow> buffer \<Rightarrow> nat \<Rightarrow> nat \<Rightarrow> 'gl \<Rightarrow> 'gl option" where
  "upload_cubemap host s f m texture_data palette_data g = do {
     let len = cubemap_face_length s f;
     g \<leftarrow> upload_gl_texture host GL_TEXTURE_CUBE_MAP_POSITIVE_X s m (texture_data + 0 * len) palette_data g;
     g \<leftarrow> upload_gl_texture host GL_TEXTURE_CUBE_MAP_NEGATIVE_X s m (texture_data + 1 * len) palette_data g;
     g \<leftarrow> upload_gl_texture host GL_TEXTURE_CUBE_MAP_POSITIVE_Y s m (texture_data + 2 * len) palette_data g;
     g \<leftarrow> upload_gl_texture host GL_TEXTURE_CUBE_MAP_NEGATIVE_Y s m (texture_data + 3 * len) palette_data g;
     g \<leftarrow> upload_gl_texture host GL_TEXTURE_CUBE_MAP_POSITIVE_Z s m (texture_data + 4 * len) palette_data g;
     upload_gl_texture host GL_TEXTURE_CUBE_MAP_NEGATIVE_Z s m (texture_data + 5 * len) palette_data g }"

definition generate_texture ::
  "'gl host \<Rightarrow> 'gl pgraph_textures \<Rightarrow> TextureShape \<Rightarrow> nat \<Rightarrow> nat \<Rightarrow> (nat \<times> 'gl pgraph_textures) option" where
  "generate_texture host w s texture_data palette_data = do {
     f \<leftarrow> kelvin_color_format_map (color_format s);
     let (g, texture) = glGenTextures host (gl w);
     target \<leftarrow> texture_target s f;
     let g = gl_do host (glBindTexture target texture) g;
     g \<leftarrow> (if target = GL_TEXTURE_CUBE_MAP then upload_cubemap host s f (vram w) texture_data palette_data g
           else upload_gl_texture host target s (vram w) texture_data palette_data g);
     let g = (if \<not> linear f
       then gl_do host (glTexParameteri target GL_TEXTURE_MAX_LEVEL (levels s - 1))
         (gl_do host (glTexParameteri target GL_TEXTURE_BASE_LEVEL (min_mipmap_level s)) g)
       else g);
     let g = (if \<exists>c \<in> set (gl_swizzle_mask f). c \<noteq> 0
       then gl_do host (glTexParameteriv target GL_TEXTURE_SWIZZLE_RGBA (gl_swizzle_mask f)) g else g);
     Some (length (bindings w),
       w\<lparr>gl := g, bindings := bindings w @ [Some \<lparr>gl_target = target, gl_texture = texture, refcnt = 1\<rparr>]\<rparr>) }"

subsection \<open>Which textures are uploaded\<close>

lemma for_loop_returns:
  assumes "\<And>i s. i < n \<Longrightarrow> P s \<Longrightarrow> \<exists>t. body i s = Some t \<and> P t" and "P s"
  shows "\<exists>t. for_loop n body s = Some t \<and> P t"
proof -
  have "\<exists>t. fold (\<lambda>i r. do { t \<leftarrow> r; body i t }) xs (Some s) = Some t \<and> P t" if "set xs \<subseteq> {..<n}" for xs
    using that assms(2)
  proof (induction xs arbitrary: s)
    case (Cons i xs)
    obtain t where t: "body i s = Some t" "P t" using assms(1) [of i s] Cons.prems by auto
    have "set xs \<subseteq> {..<n}" using Cons.prems(1) by simp
    from Cons.IH [OF this t(2)] t(1) show ?case by simp
  qed simp
  from this [of "[0..<n]"] show ?thesis unfolding for_loop_def by (simp add: subset_iff)
qed

lemma for_loop_0 [simp]: "for_loop 0 body s = Some s"
  by (simp add: for_loop_def)

lemma fold_None: "fold (\<lambda>i r. do { t \<leftarrow> r; body i t }) xs None = None"
  by (induction xs) simp_all

lemma for_loop_fails:
  "0 < n \<Longrightarrow> body 0 s = None \<Longrightarrow> for_loop n body s = None"
  "1 < n \<Longrightarrow> body 0 s = Some t \<Longrightarrow> body 1 t = None \<Longrightarrow> for_loop n body s = None"
  by (simp_all add: for_loop_def upt_conv_Cons fold_None del: upt_Suc)

lemma for_loop_1: "for_loop 1 body s = body 0 s"
  by (simp add: for_loop_def)

lemma bits_for_mono: "unat v \<le> unat w \<Longrightarrow> bits_for v \<le> bits_for w"
  using bits_for_iff [of "bits_for w" v] bits_for_iff [of "bits_for w" w] by linarith

lemma bits_for_max_1: "bits_for (max w 1) = bits_for w"
proof (cases "w = 0")
  case True
  have "\<not> 0 < bits_for 0" "\<not> 0 < bits_for 1" using bits_for_iff [of 0 0] bits_for_iff [of 0 1] by simp_all
  then show ?thesis using True by simp
next
  case False
  then have "1 \<le> w" by (simp add: word_le_nat_alt unat_gt_0 Suc_le_eq)
  then show ?thesis by (simp add: max_absorb1)
qed

lemma bits_for_half: "bits_for (w div 2) \<le> bits_for w"
  by (rule bits_for_mono) (simp add: unat_div_distrib)

lemma sizes_ok_half: "sizes_ok w h d \<Longrightarrow> sizes_ok (w div 2) (h div 2) (d div 2)"
  using bits_for_half [of w] bits_for_half [of h] bits_for_half [of d] unfolding sizes_ok_def by linarith

lemma sizes_ok_half_rect: "sizes_ok w h 1 \<Longrightarrow> sizes_ok (max w 1 div 2) (max h 1 div 2) 1"
  using bits_for_half [of "max w 1"] bits_for_half [of "max h 1"] unfolding sizes_ok_def bits_for_max_1 by linarith

lemma unswizzle_box_returns: "sizes_ok w h d \<Longrightarrow> \<exists>b. unswizzle_box src w h d dst rp sp bpp = Some b"
  using generate_masks [of w h d] unswizzle_box_copies by blast

text \<open>The formats that are converted; only a flat texture can be.\<close>

definition converted_format :: "TextureShape \<Rightarrow> bool" where
  "converted_format s \<longleftrightarrow> color_format s \<in> {0x0B, 0x24, 0x27}"

lemma pixel_loops_return:
  "\<exists>c. for_loop n (\<lambda>y. for_loop k (convert_i8_pixel data pal w rp y)) b = Some c"
  "\<exists>c. for_loop n (\<lambda>y. for_loop k (convert_yuv_pixel data w y)) b = Some c"
  "\<exists>c. for_loop n (\<lambda>y. for_loop k (convert_r6g5b5_pixel data w rp y)) b = Some c"
proof -
  have loop: "\<exists>c. for_loop n (\<lambda>y. for_loop k (body y)) b = Some c" if "\<And>y x c. \<exists>e. body y x c = Some e"
    for body :: "nat \<Rightarrow> nat \<Rightarrow> buffer \<Rightarrow> buffer option"
  proof -
    have "\<exists>c. for_loop k (body y) b = Some c \<and> True" for y b by (rule for_loop_returns) (simp_all add: that)
    then have "\<exists>c. for_loop n (\<lambda>y. for_loop k (body y)) b = Some c \<and> True" by (rule for_loop_returns) simp_all
    then show ?thesis by simp
  qed
  show "\<exists>c. for_loop n (\<lambda>y. for_loop k (convert_i8_pixel data pal w rp y)) b = Some c"
    by (rule loop) (simp add: convert_i8_pixel_def Let_def)
  show "\<exists>c. for_loop n (\<lambda>y. for_loop k (convert_yuv_pixel data w y)) b = Some c"
    by (rule loop) (simp add: convert_yuv_pixel_def Let_def split: prod.split)
  show "\<exists>c. for_loop n (\<lambda>y. for_loop k (convert_r6g5b5_pixel data w rp y)) b = Some c"
    by (rule loop) (simp add: convert_r6g5b5_pixel_def Let_def)
qed

lemma convert_returns: "(\<exists>c. convert_texture_data host s data pal w h d rp sp = Some c) \<longleftrightarrow> (converted_format s \<longrightarrow> d = 1)"
proof -
  note l = pixel_loops_return(1) [of "unat h" "unat w" data pal w rp "g_malloc host (w * h * 4)"]
    pixel_loops_return(2) [of "unat h" "unat w" data "width s" "g_malloc host (w * h * 4)"]
    pixel_loops_return(3) [of "unat h" "unat w" data w rp "g_malloc host (w * h * 3)"]
  obtain a b c where "for_loop (unat h) (\<lambda>y. for_loop (unat w) (convert_i8_pixel data pal w rp y)) (g_malloc host (w * h * 4)) = Some a"
    "for_loop (unat h) (\<lambda>y. for_loop (unat w) (convert_yuv_pixel data (width s) y)) (g_malloc host (w * h * 4)) = Some b"
    "for_loop (unat h) (\<lambda>y. for_loop (unat w) (convert_r6g5b5_pixel data w rp y)) (g_malloc host (w * h * 3)) = Some c"
    using l by blast
  then show ?thesis by (auto simp: convert_texture_data_def converted_format_def assert_def)
qed

lemma level_2d_returns:
  assumes "gl_format f = 0 \<or> sizes_ok w h 1"
  shows "\<exists>w' h' p' g'. upload_level_2d host target s f m pal level (w, h, p, g) = Some (w', h', p', g')
    \<and> (gl_format f = 0 \<or> sizes_ok w' h' 1)"
proof (cases "gl_format f = 0")
  case True
  then show ?thesis by (simp add: upload_level_2d_def Let_def)
next
  case False
  let ?w = "max w 1" and ?h = "max h 1"
  have ok: "sizes_ok ?w ?h 1" using assms False unfolding sizes_ok_def bits_for_max_1 by blast
  obtain b where b: "unswizzle_rect (buffer_at m p) ?w ?h (g_malloc host (?h * (?w * bytes_per_pixel f))) (?w * bytes_per_pixel f) (bytes_per_pixel f) = Some b"
    using unswizzle_box_returns [OF ok] unfolding unswizzle_rect_def by blast
  obtain c where c: "convert_texture_data host s b (buffer_at m pal) ?w ?h 1 (?w * bytes_per_pixel f) 0 = Some c"
    using convert_returns by blast
  show ?thesis using sizes_ok_half_rect [of w h] assms False b c by (simp add: upload_level_2d_def Let_def)
qed

lemma levels_2d_return:
  assumes "gl_format f = 0 \<or> sizes_ok w h 1"
  shows "\<exists>w' h' p' g'. for_loop n (upload_level_2d host target s f m pal) (w, h, p, g) = Some (w', h', p', g')"
proof -
  let ?P = "\<lambda>(w, h, p, g). gl_format f = 0 \<or> sizes_ok w h 1"
  have "\<exists>v. for_loop n (upload_level_2d host target s f m pal) (w, h, p, g) = Some v \<and> ?P v"
    by (rule for_loop_returns) (use level_2d_returns assms in \<open>fastforce+\<close>)
  then show ?thesis by (metis prod_cases4)
qed

lemma level_3d_returns:
  assumes "sizes_ok w h d" and "converted_format s \<longrightarrow> d = 1"
  shows "\<exists>p' g'. upload_level_3d host target s f m pal level (w, h, d, p, g) = Some (w div 2, h div 2, d div 2, p', g')"
proof -
  let ?rp = "w * bytes_per_pixel f"
  obtain b where b: "unswizzle_box (buffer_at m p) w h d (g_malloc host (?rp * h * d)) ?rp (?rp * h) (bytes_per_pixel f) = Some b"
    using unswizzle_box_returns [OF assms(1)] by blast
  obtain c where c: "convert_texture_data host s b (buffer_at m pal) w h d ?rp (?rp * h) = Some c"
    using convert_returns assms(2) by blast
  show ?thesis using b c by (simp add: upload_level_3d_def Let_def)
qed

lemma level_3d_fails:
  assumes "converted_format s" and "d \<noteq> 1"
  shows "upload_level_3d host target s f m pal level (w, h, d, p, g) = None"
proof -
  have "convert_texture_data host s b (buffer_at m pal) w h d rp sp = None" for b rp sp
    using convert_returns [of host s b "buffer_at m pal" w h d rp sp] assms by (metis option.exhaust)
  then show ?thesis by (simp add: upload_level_3d_def Let_def)
qed

lemma level_3d_halves:
  "upload_level_3d host target s f m pal level (w, h, d, p, g) = Some v \<Longrightarrow> \<exists>p' g'. v = (w div 2, h div 2, d div 2, p', g')"
  by (auto simp: upload_level_3d_def Let_def bind_Some_iff)

lemma levels_3d_return:
  assumes "sizes_ok w h d"
  shows "for_loop n (upload_level_3d host target s f m pal) (w, h, d, p, g) \<noteq> None
    \<longleftrightarrow> (converted_format s \<longrightarrow> n = 0 \<or> n = 1 \<and> d = 1)"
proof (cases "converted_format s")
  case False
  let ?P = "\<lambda>(w, h, d, p, g). sizes_ok w h d"
  have "\<exists>v. for_loop n (upload_level_3d host target s f m pal) (w, h, d, p, g) = Some v \<and> ?P v"
  proof (rule for_loop_returns)
    fix i v
    assume "?P (v :: u32 \<times> u32 \<times> u32 \<times> nat \<times> 'a)"
    then show "\<exists>t. upload_level_3d host target s f m pal i v = Some t \<and> ?P t"
      using level_3d_returns [of _ _ _ s] sizes_ok_half False by (cases v) fastforce
  qed (simp add: assms)
  then show ?thesis using False by auto
next
  case conv: True
  consider "n = 0" | "n = 1" | "1 < n" by linarith
  then show ?thesis
  proof cases
    case 2
    then show ?thesis using conv level_3d_returns [OF assms, of s] level_3d_fails [OF conv, of d]
      unfolding 2 for_loop_1 by (metis One_nat_def option.distinct(1) zero_neq_one)
  next
    case 3
    have "for_loop n (upload_level_3d host target s f m pal) (w, h, d, p, g) = None"
    proof (cases "upload_level_3d host target s f m pal 0 (w, h, d, p, g)")
      case None
      then show ?thesis using 3 by (intro for_loop_fails(1)) simp_all
    next
      case (Some v)
      then have "d = 1" using level_3d_fails [OF conv] by (metis option.distinct(1))
      then obtain p' g' where "v = (w div 2, h div 2, 0, p', g')" using level_3d_halves [OF Some] by auto
      then have "upload_level_3d host target s f m pal 1 v = None" using level_3d_fails [OF conv zero_neq_one] by simp
      then show ?thesis using 3 Some by (intro for_loop_fails(2))
    qed
    then show ?thesis using 3 conv by simp
  qed simp
qed

lemma linear_formats: "kelvin_color_format_map i = Some f \<Longrightarrow> linear f \<Longrightarrow> bytes_per_pixel f \<noteq> 0"
proof -
  assume k: "kelvin_color_format_map i = Some f" "linear f"
  have "\<forall>e \<in> set color_formats. linear (snd e) \<longrightarrow> bytes_per_pixel (snd e) \<noteq> 0" by (simp add: color_formats_def)
  then show "bytes_per_pixel f \<noteq> 0"
    using k by (fastforce simp: kelvin_color_format_map_def split: if_splits option.splits dest: map_of_SomeD)
qed

text \<open>The textures that pass the assertions, and the sizes for which the loops of the unswizzling end.\<close>

definition uploadable :: "TextureShape \<Rightarrow> bool" where
  "uploadable s \<longleftrightarrow> (case kelvin_color_format_map (color_format s) of None \<Rightarrow> False | Some f \<Rightarrow>
     if cubemap s then \<not> linear f \<and> dimensionality s = 2
     else if linear f then dimensionality s = 2 \<and> pitch s mod bytes_per_pixel f = 0
     else dimensionality s = 2
       \<or> dimensionality s = 3 \<and> gl_format f \<noteq> 0 \<and> (converted_format s \<longrightarrow> levels s = 0 \<or> levels s = 1 \<and> depth s = 1))"

definition texture_fits :: "TextureShape \<Rightarrow> bool" where
  "texture_fits s \<longleftrightarrow> (case kelvin_color_format_map (color_format s) of None \<Rightarrow> True | Some f \<Rightarrow>
     linear f \<or> gl_format f = 0 \<or> sizes_ok (width s) (height s) (if \<not> cubemap s \<and> dimensionality s = 3 then depth s else 1))"

text \<open>The targets of \<open>upload_gl_texture\<close>.\<close>

lemma upload_flat:
  assumes "target \<in> {GL_TEXTURE_2D, GL_TEXTURE_CUBE_MAP_POSITIVE_X, GL_TEXTURE_CUBE_MAP_NEGATIVE_X, GL_TEXTURE_CUBE_MAP_POSITIVE_Y,
      GL_TEXTURE_CUBE_MAP_NEGATIVE_Y, GL_TEXTURE_CUBE_MAP_POSITIVE_Z, GL_TEXTURE_CUBE_MAP_NEGATIVE_Z}"
    and "kelvin_color_format_map (color_format s) = Some f" and "gl_format f = 0 \<or> sizes_ok (width s) (height s) 1"
  shows "\<exists>g'. upload_gl_texture host target s m p pal g = Some g'"
proof -
  have "target \<noteq> GL_TEXTURE_1D" "target \<noteq> GL_TEXTURE_RECTANGLE" using assms(1) by auto
  moreover obtain w h q g' where "for_loop (unat (levels s)) (upload_level_2d host target s f m pal) (width s, height s, p, g) = Some (w, h, q, g')"
    using levels_2d_return [OF assms(3), of "unat (levels s)" host target s m pal p g] by blast
  ultimately show ?thesis using assms(1,2) by (auto simp: upload_gl_texture_def)
qed

lemma upload_cubemap_returns:
  assumes "kelvin_color_format_map (color_format s) = Some f" and "gl_format f = 0 \<or> sizes_ok (width s) (height s) 1"
  shows "\<exists>g'. upload_cubemap host s f m p pal g = Some g'"
proof -
  have u: "\<exists>g'. upload_gl_texture host target s m q pal g = Some g'" if "target \<in> {0x8515, 0x8516, 0x8517, 0x8518, 0x8519, 0x851A}" for target q g
    by (rule upload_flat [OF _ assms]) (use that in auto)
  obtain a b c d e z where
    "upload_gl_texture host GL_TEXTURE_CUBE_MAP_POSITIVE_X s m (p + 0 * cubemap_face_length s f) pal g = Some a"
    "upload_gl_texture host GL_TEXTURE_CUBE_MAP_NEGATIVE_X s m (p + 1 * cubemap_face_length s f) pal a = Some b"
    "upload_gl_texture host GL_TEXTURE_CUBE_MAP_POSITIVE_Y s m (p + 2 * cubemap_face_length s f) pal b = Some c"
    "upload_gl_texture host GL_TEXTURE_CUBE_MAP_NEGATIVE_Y s m (p + 3 * cubemap_face_length s f) pal c = Some d"
    "upload_gl_texture host GL_TEXTURE_CUBE_MAP_POSITIVE_Z s m (p + 4 * cubemap_face_length s f) pal d = Some e"
    "upload_gl_texture host GL_TEXTURE_CUBE_MAP_NEGATIVE_Z s m (p + 5 * cubemap_face_length s f) pal e = Some z"
    using u by (metis insertCI)
  then show ?thesis by (simp add: upload_cubemap_def)
qed

lemma upload_rectangle_returns:
  assumes "kelvin_color_format_map (color_format s) = Some f" and "linear f"
  shows "upload_gl_texture host GL_TEXTURE_RECTANGLE s m p pal g \<noteq> None \<longleftrightarrow> pitch s mod bytes_per_pixel f = 0"
proof -
  obtain c where "convert_texture_data host s (buffer_at m p) (buffer_at m pal) (width s) (height s) 1 (pitch s) 0 = Some c"
    using convert_returns by blast
  then show ?thesis using assms linear_formats [OF assms] by (simp add: upload_gl_texture_def upload_rectangle_def assert_def)
qed

lemma upload_3d_returns:
  assumes "kelvin_color_format_map (color_format s) = Some f" and "\<not> linear f" and "gl_format f = 0 \<or> sizes_ok (width s) (height s) (depth s)"
  shows "upload_gl_texture host GL_TEXTURE_3D s m p pal g \<noteq> None
    \<longleftrightarrow> gl_format f \<noteq> 0 \<and> (converted_format s \<longrightarrow> levels s = 0 \<or> levels s = 1 \<and> depth s = 1)"
proof (cases "gl_format f = 0")
  case False
  then have ok: "sizes_ok (width s) (height s) (depth s)" using assms(3) by simp
  have "upload_gl_texture host GL_TEXTURE_3D s m p pal g \<noteq> None
      \<longleftrightarrow> for_loop (unat (levels s)) (upload_level_3d host GL_TEXTURE_3D s f m pal) (width s, height s, depth s, p, g) \<noteq> None"
    using assms(1,2) False
    by (cases "for_loop (unat (levels s)) (upload_level_3d host GL_TEXTURE_3D s f m pal) (width s, height s, depth s, p, g)")
      (auto simp: upload_gl_texture_def)
  also have "\<dots> \<longleftrightarrow> (converted_format s \<longrightarrow> levels s = 0 \<or> levels s = 1 \<and> depth s = 1)"
    unfolding levels_3d_return [OF ok] using unsigned_word_eqI [of "levels s" 1, where ?'a = nat] by (auto simp: unsigned_eq_0_iff)
  finally show ?thesis using False by simp
qed (use assms in \<open>simp add: upload_gl_texture_def\<close>)

lemma generate_texture_returns:
  assumes fit: "texture_fits s"
  shows "generate_texture host w s p pal \<noteq> None \<longleftrightarrow> uploadable s"
proof (cases "kelvin_color_format_map (color_format s)")
  case None
  then show ?thesis by (simp add: generate_texture_def uploadable_def)
next
  case (Some f)
  let ?t = "texture_target s f"
  obtain g x where g: "glGenTextures host (gl w) = (g, x)" by (cases "glGenTextures host (gl w)")
  have gen: "generate_texture host w s p pal \<noteq> None \<longleftrightarrow> (\<exists>target. ?t = Some target
      \<and> (if target = GL_TEXTURE_CUBE_MAP then upload_cubemap host s f (vram w) p pal (gl_do host (glBindTexture target x) g)
         else upload_gl_texture host target s (vram w) p pal (gl_do host (glBindTexture target x) g)) \<noteq> None)"
    by (cases ?t) (simp_all add: generate_texture_def Some g Let_def bind_eq_None_conv)
  have fit': "linear f \<or> gl_format f = 0 \<or> sizes_ok (width s) (height s) (if \<not> cubemap s \<and> dimensionality s = 3 then depth s else 1)"
    using fit by (simp add: texture_fits_def Some)
  have up: "uploadable s \<longleftrightarrow> (if cubemap s then \<not> linear f \<and> dimensionality s = 2
     else if linear f then dimensionality s = 2 \<and> pitch s mod bytes_per_pixel f = 0
     else dimensionality s = 2
       \<or> dimensionality s = 3 \<and> gl_format f \<noteq> 0 \<and> (converted_format s \<longrightarrow> levels s = 0 \<or> levels s = 1 \<and> depth s = 1))"
    by (simp only: uploadable_def Some option.case)
  consider "cubemap s" | "\<not> cubemap s" "linear f" | "\<not> cubemap s" "\<not> linear f" "dimensionality s \<noteq> 3" | "\<not> cubemap s" "\<not> linear f" "dimensionality s = 3"
    by blast
  then show ?thesis
  proof cases
    case 1
    then show ?thesis using upload_cubemap_returns [OF Some] fit' unfolding gen up texture_target_def by (auto simp: assert_def)
  next
    case 2
    then show ?thesis using upload_rectangle_returns [OF Some 2(2), of host] unfolding gen up texture_target_def by (simp add: assert_def)
  next
    case 3
    then have "gl_format f = 0 \<or> sizes_ok (width s) (height s) 1" using fit' by simp
    have "upload_gl_texture host GL_TEXTURE_2D s m q pal g \<noteq> None" for m q g
      using upload_flat [OF _ Some \<open>gl_format f = 0 \<or> _\<close>, of GL_TEXTURE_2D host m q pal g] by simp
    moreover have "upload_gl_texture host GL_TEXTURE_1D s m q pal g = None" for m q g by (simp add: upload_gl_texture_def Some)
    ultimately show ?thesis using 3 unfolding gen up texture_target_def by simp
  next
    case 4
    then have "gl_format f = 0 \<or> sizes_ok (width s) (height s) (depth s)" using fit' by simp
    from upload_3d_returns [OF Some 4(2) this, of host] show ?thesis using 4 unfolding gen up texture_target_def by simp
  qed
qed

text \<open>A new binding: what is known of it when the function returns.\<close>

lemma generate_texture_binding:
  "generate_texture host w s p pal = Some (a, w') \<Longrightarrow> \<exists>g target x. a = length (bindings w)
    \<and> w' = w\<lparr>gl := g, bindings := bindings w @ [Some \<lparr>gl_target = target, gl_texture = x, refcnt = 1\<rparr>]\<rparr>"
  by (cases "glGenTextures host (gl w)") (auto simp: generate_texture_def Let_def bind_Some_iff)

end
