(* ===== verification/Lru.thy ===== *)
theory Lru
  imports Prelude "HOL-Library.Multiset"
begin

text \<open>
  The LRU object list of \<open>nv2a/lru.c\<close>, the cache behind the texture bindings.

  Pointers are addresses, with \<open>NULL\<close> as \<open>None\<close>. \<open>struct lru_node\<close> is an extensible record, the object
  that embeds it is an extension of it (\<open>container_of\<close>), and \<open>nodes\<close> is the memory of the objects. The
  callbacks are the function pointers of \<open>struct lru\<close>; they may change the whole object and a
  \<open>world\<close> outside the cache, and they may abort (\<open>None\<close>). The two loops follow pointers: they are
  \<open>partial_function\<close>s.
\<close>

subsection \<open>Structures\<close>

type_synonym u64 = "64 word"

record lru_node =
  hash :: u64
  next_node :: "nat option"

record ('w, 'o, 'k) lru =
  active :: "nat option"
  free :: "nat option"
  obj_init :: "'w \<Rightarrow> 'o lru_node_scheme \<Rightarrow> 'k \<Rightarrow> ('w \<times> 'o lru_node_scheme) option"
  obj_deinit :: "'w \<Rightarrow> 'o lru_node_scheme \<Rightarrow> ('w \<times> 'o lru_node_scheme) option"
  obj_key_compare :: "'o lru_node_scheme \<Rightarrow> 'k \<Rightarrow> int"
  num_free :: u64
  num_collisions :: u64
  num_hit :: u64
  num_miss :: u64
  nodes :: "nat \<Rightarrow> 'o lru_node_scheme"
  world :: 'w

abbreviation set_next :: "nat \<Rightarrow> nat option \<Rightarrow> ('w, 'o, 'k) lru \<Rightarrow> ('w, 'o, 'k) lru" where
  "set_next a p s \<equiv> s\<lparr>nodes := (nodes s)(a := (nodes s a)\<lparr>next_node := p\<rparr>)\<rparr>"

subsection \<open>Operations\<close>

definition lru_init ::
  "('w, 'o, 'k) lru \<Rightarrow> ('w \<Rightarrow> 'o lru_node_scheme \<Rightarrow> 'k \<Rightarrow> ('w \<times> 'o lru_node_scheme) option)
   \<Rightarrow> ('w \<Rightarrow> 'o lru_node_scheme \<Rightarrow> ('w \<times> 'o lru_node_scheme) option)
   \<Rightarrow> ('o lru_node_scheme \<Rightarrow> 'k \<Rightarrow> int) \<Rightarrow> ('w, 'o, 'k) lru" where
  "lru_init s init deinit cmp =
     s\<lparr>active := None, free := None, obj_init := init, obj_deinit := deinit, obj_key_compare := cmp,
       num_free := 0, num_collisions := 0, num_hit := 0, num_miss := 0\<rparr>"

definition lru_add_free :: "('w, 'o, 'k) lru \<Rightarrow> nat \<Rightarrow> ('w, 'o, 'k) lru" where
  "lru_add_free s node = (set_next node (free s) s)\<lparr>free := Some node, num_free := num_free s + 1\<rparr>"

text \<open>The search loop of \<open>lru_lookup\<close>: whether it found the object, and its variables \<open>prev\<close>, \<open>node\<close> and
  \<open>num_collisions\<close> at the end.\<close>

partial_function (option) lru_walk ::
  "(nat \<Rightarrow> 'o lru_node_scheme) \<Rightarrow> ('o lru_node_scheme \<Rightarrow> 'k \<Rightarrow> int) \<Rightarrow> u64 \<Rightarrow> 'k \<Rightarrow> nat option \<Rightarrow> nat \<Rightarrow> u64
   \<Rightarrow> (bool \<times> nat option \<times> nat \<times> u64) option" where
  "lru_walk h cmp hsh key prev node coll =
     (if hash (h node) = hsh \<and> cmp (h node) key = 0 then Some (True, prev, node, coll)
      else let coll = (if hash (h node) = hsh then coll + 1 else coll)
           in case next_node (h node) of
                None \<Rightarrow> Some (False, prev, node, coll)
              | Some n \<Rightarrow> lru_walk h cmp hsh key (Some node) n coll)"

text \<open>The parts of \<open>lru_lookup\<close>: a hit promotes the node; a miss evicts the last node when there is no
  free one, and takes a node from the free list.\<close>

definition lru_promote :: "('w, 'o, 'k) lru \<Rightarrow> nat option \<Rightarrow> nat \<Rightarrow> ('w, 'o, 'k) lru" where
  "lru_promote s prev node =
     (case prev of None \<Rightarrow> s
      | Some p \<Rightarrow>
          let s = set_next p (next_node (nodes s node)) s;
              s = set_next node (active s) s
          in s\<lparr>active := Some node\<rparr>)"

definition lru_evict :: "('w, 'o, 'k) lru \<Rightarrow> nat option \<Rightarrow> nat option \<Rightarrow> ('w, 'o, 'k) lru option" where
  "lru_evict s prev node = do {
     n \<leftarrow> node;
     let s = (case prev of None \<Rightarrow> s\<lparr>active := None\<rparr> | Some p \<Rightarrow> set_next p (next_node (nodes s n)) s);
     (w, ob) \<leftarrow> obj_deinit s (world s) (nodes s n);
     let s = s\<lparr>world := w, nodes := (nodes s)(n := ob)\<rparr>;
     Some (lru_add_free s n) }"

definition lru_take_free :: "('w, 'o, 'k) lru \<Rightarrow> u64 \<Rightarrow> 'k \<Rightarrow> (nat \<times> ('w, 'o, 'k) lru) option" where
  "lru_take_free s hsh key = do {
     node \<leftarrow> free s;
     let s = s\<lparr>free := next_node (nodes s node), num_free := num_free s - 1\<rparr>;
     (w, ob) \<leftarrow> obj_init s (world s) (nodes s node) key;
     let s = s\<lparr>world := w, nodes := (nodes s)(node := ob\<lparr>hash := hsh\<rparr>)\<rparr>;
     let s = set_next node (active s) s;
     Some (node, s\<lparr>active := Some node\<rparr>) }"

definition lru_lookup :: "('w, 'o, 'k) lru \<Rightarrow> u64 \<Rightarrow> 'k \<Rightarrow> (nat \<times> ('w, 'o, 'k) lru) option" where
  "lru_lookup s hsh key = do {
     assert (active s \<noteq> None \<or> free s \<noteq> None);
     (found, prev, node, coll) \<leftarrow>
       (case active s of
          None \<Rightarrow> Some (False, None, None, num_collisions s)
        | Some n \<Rightarrow> do {
            (f, p, m, c) \<leftarrow> lru_walk (nodes s) (obj_key_compare s) hsh key None n (num_collisions s);
            Some (f, p, Some m, c) });
     let s = s\<lparr>num_collisions := coll\<rparr>;
     if found then do {
       n \<leftarrow> node;
       Some (n, lru_promote (s\<lparr>num_hit := num_hit s + 1\<rparr>) prev n) }
     else do {
       let s = s\<lparr>num_miss := num_miss s + 1\<rparr>;
       s \<leftarrow> (if free s = None then lru_evict s prev node else Some s);
       lru_take_free s hsh key } }"

partial_function (option) lru_flush_loop :: "('w, 'o, 'k) lru \<Rightarrow> nat option \<Rightarrow> ('w, 'o, 'k) lru option" where
  "lru_flush_loop s node =
     (case node of None \<Rightarrow> Some s
      | Some n \<Rightarrow> do {
          let nxt = next_node (nodes s n);
          (w, ob) \<leftarrow> obj_deinit s (world s) (nodes s n);
          lru_flush_loop (lru_add_free (s\<lparr>world := w, nodes := (nodes s)(n := ob)\<rparr>) n) nxt })"

definition lru_flush :: "('w, 'o, 'k) lru \<Rightarrow> ('w, 'o, 'k) lru option" where
  "lru_flush s = do { s \<leftarrow> lru_flush_loop s (active s); Some (s\<lparr>active := None\<rparr>) }"

subsection \<open>Linked lists\<close>

primrec chain :: "(nat \<Rightarrow> 'o lru_node_scheme) \<Rightarrow> nat option \<Rightarrow> nat list \<Rightarrow> bool" where
  "chain h p [] \<longleftrightarrow> p = None"
| "chain h p (x # xs) \<longleftrightarrow> p = Some x \<and> chain h (next_node (h x)) xs"

lemma chain_cong: "(\<And>x. x \<in> set xs \<Longrightarrow> next_node (g x) = next_node (h x)) \<Longrightarrow> chain g p xs = chain h p xs"
  by (induction xs arbitrary: p) auto

lemma chain_update [simp]: "x \<notin> set xs \<Longrightarrow> chain (h(x := n)) p xs = chain h p xs"
  by (rule chain_cong) auto


text \<open>Unlinking the node \<open>x\<close> behind \<open>p\<close>.\<close>

lemma chain_unlink:
  "chain h q (us @ p # x # vs) \<Longrightarrow> distinct (us @ p # x # vs)
    \<Longrightarrow> chain (h(p := (h p)\<lparr>next_node := next_node (h x)\<rparr>)) q (us @ p # vs)"
  by (induction us arbitrary: q) auto

definition lru_wf :: "('w, 'o, 'k) lru \<Rightarrow> nat list \<Rightarrow> nat list \<Rightarrow> bool" where
  "lru_wf s xs ys \<longleftrightarrow> chain (nodes s) (active s) xs \<and> chain (nodes s) (free s) ys \<and> distinct (xs @ ys)
     \<and> num_free s = of_nat (length ys)"

lemma chain_SomeD: "chain h p xs \<Longrightarrow> xs \<noteq> [] \<Longrightarrow> p = Some (hd xs)"
  by (cases xs) auto

definition lru_match :: "('w, 'o, 'k) lru \<Rightarrow> u64 \<Rightarrow> 'k \<Rightarrow> nat \<Rightarrow> bool" where
  "lru_match s hsh key x \<longleftrightarrow> hash (nodes s x) = hsh \<and> obj_key_compare s (nodes s x) key = 0"

lemma lru_walk_hit:
  assumes "hash (h x) = hsh" "cmp (h x) key = 0"
  shows "chain h (Some n) (us @ x # vs) \<Longrightarrow> (\<And>u. u \<in> set us \<Longrightarrow> \<not> (hash (h u) = hsh \<and> cmp (h u) key = 0))
    \<Longrightarrow> \<exists>c. lru_walk h cmp hsh key prev n coll = Some (True, if us = [] then prev else Some (last us), x, c)"
proof (induction us arbitrary: n prev coll)
  case Nil
  then show ?case using assms by (subst lru_walk.simps) simp
next
  case (Cons u us)
  obtain m where m: "next_node (h u) = Some m" using Cons.prems(1) by (cases us) auto
  show ?case using Cons.IH [of m "Some u"] Cons.prems m by (subst lru_walk.simps) (auto simp: Let_def)
qed

lemma lru_walk_miss:
  "chain h (Some n) (us @ [x]) \<Longrightarrow> \<forall>u \<in> set (us @ [x]). \<not> (hash (h u) = hsh \<and> cmp (h u) key = 0)
    \<Longrightarrow> \<exists>c. lru_walk h cmp hsh key prev n coll = Some (False, if us = [] then prev else Some (last us), x, c)"
proof (induction us arbitrary: n prev coll)
  case Nil
  then show ?case by (subst lru_walk.simps) (auto simp: Let_def)
next
  case (Cons u us)
  obtain m where m: "next_node (h u) = Some m" using Cons.prems(1) by (cases us) auto
  have "\<exists>c. lru_walk h cmp hsh key (Some u) m k = Some (False, if us = [] then Some u else Some (last us), x, c)" for k
    using Cons.IH [of m "Some u" k] Cons.prems m by auto
  then show ?case using Cons.prems m by (subst lru_walk.simps) (auto simp: Let_def)
qed

text \<open>Two objects that differ at most in their link.\<close>

definition same_obj :: "'o lru_node_scheme \<Rightarrow> 'o lru_node_scheme \<Rightarrow> bool" where
  "same_obj m n \<longleftrightarrow> m\<lparr>next_node := None\<rparr> = n\<lparr>next_node := None\<rparr>"

lemma same_obj_refl [simp]: "same_obj n n" "same_obj (n\<lparr>next_node := p\<rparr>) n" "same_obj n (n\<lparr>next_node := p\<rparr>)"
  by (simp_all add: same_obj_def)

lemma lru_promote_wf:
  assumes "lru_wf s (us @ x # vs) ys"
  defines "t \<equiv> lru_promote s (if us = [] then None else Some (last us)) x"
  shows "lru_wf t (x # us @ vs) ys" "\<And>a. same_obj (nodes t a) (nodes s a)" "world t = world s"
    "obj_init t = obj_init s" "obj_deinit t = obj_deinit s" "obj_key_compare t = obj_key_compare s"
proof -
  show "lru_wf t (x # us @ vs) ys"
  proof (cases us rule: rev_cases)
    case Nil
    then show ?thesis using assms by (simp add: lru_promote_def)
  next
    case (snoc ws p)
    have d: "distinct (ws @ p # x # vs)" and c: "chain (nodes s) (active s) (ws @ p # x # vs)"
      using assms(1) snoc by (auto simp: lru_wf_def)
    have f: "chain (nodes s) (free s) ys" "distinct ((us @ x # vs) @ ys)" "num_free s = of_nat (length ys)"
      using assms(1) by (auto simp: lru_wf_def)
    show ?thesis using chain_unlink [OF c d] d f snoc unfolding t_def lru_promote_def lru_wf_def Let_def by auto
  qed
qed (auto simp: t_def lru_promote_def Let_def split: option.splits)

text \<open>The three outcomes of a lookup.\<close>

lemma lru_lookup_hit:
  assumes wf: "lru_wf s (us @ x # vs) ys" and x: "lru_match s hsh key x" and us: "\<And>u. u \<in> set us \<Longrightarrow> \<not> lru_match s hsh key u"
  obtains t where "lru_lookup s hsh key = Some (x, t)" "lru_wf t (x # us @ vs) ys" "\<And>a. same_obj (nodes t a) (nodes s a)"
    "world t = world s" "obj_init t = obj_init s" "obj_deinit t = obj_deinit s" "obj_key_compare t = obj_key_compare s"
    "num_hit t = num_hit s + 1"
proof -
  have ch: "chain (nodes s) (active s) (us @ x # vs)" using wf by (simp add: lru_wf_def)
  let ?n = "hd (us @ x # vs)" and ?p = "if us = [] then None else Some (last us)"
  have a: "active s = Some ?n" using chain_SomeD [OF ch] by simp
  then obtain c where w: "lru_walk (nodes s) (obj_key_compare s) hsh key None ?n (num_collisions s) = Some (True, ?p, x, c)"
    using lru_walk_hit [of "nodes s" x hsh "obj_key_compare s" key ?n us vs None] x us ch by (fastforce simp: lru_match_def)
  let ?s = "s\<lparr>num_collisions := c, num_hit := num_hit s + 1\<rparr>"
  have s: "lru_wf ?s (us @ x # vs) ys" using wf by (simp add: lru_wf_def)
  have "lru_lookup s hsh key = Some (x, lru_promote ?s ?p x)" using w a by (simp add: lru_lookup_def)
  moreover have "num_hit (lru_promote ?s ?p x) = num_hit s + 1" by (simp add: lru_promote_def Let_def split: option.splits)
  ultimately show ?thesis using that lru_promote_wf [OF s] by simp
qed

lemma lru_walk_end:
  assumes "chain (nodes s) (active s) (us @ [x])" and "\<forall>u \<in> set (us @ [x]). \<not> lru_match s hsh key u"
  obtains c where "active s = Some (hd (us @ [x]))"
    "lru_walk (nodes s) (obj_key_compare s) hsh key None (hd (us @ [x])) (num_collisions s)
      = Some (False, if us = [] then None else Some (last us), x, c)"
proof -
  have a: "active s = Some (hd (us @ [x]))" using chain_SomeD [OF assms(1)] by simp
  show ?thesis using lru_walk_miss [of "nodes s" "hd (us @ [x])" us x hsh "obj_key_compare s" key None] assms a that
    by (fastforce simp: lru_match_def)
qed

lemma lru_take_free_wf:
  assumes wf: "lru_wf s xs (y # ys)" and i: "obj_init s (world s) (nodes s y) key = Some (w, ob)"
  obtains t where "lru_take_free s hsh key = Some (y, t)" "lru_wf t (y # xs) ys" "\<And>a. a \<noteq> y \<Longrightarrow> nodes t a = nodes s a"
    "same_obj (nodes t y) (ob\<lparr>hash := hsh\<rparr>)" "world t = w"
    "obj_init t = obj_init s" "obj_deinit t = obj_deinit s" "obj_key_compare t = obj_key_compare s"
proof -
  let ?t = "s\<lparr>free := next_node (nodes s y), num_free := num_free s - 1, world := w,
    nodes := (nodes s)(y := ob\<lparr>hash := hsh, next_node := active s\<rparr>), active := Some y\<rparr>"
  have "lru_take_free s hsh key = Some (y, ?t)" using wf i by (simp add: lru_take_free_def lru_wf_def)
  moreover have "lru_wf ?t (y # xs) ys" using wf by (auto simp: lru_wf_def)
  ultimately show ?thesis using that by (simp add: same_obj_def)
qed

lemma lru_lookup_fill:
  assumes wf: "lru_wf s xs (y # ys)" and m: "\<forall>x \<in> set xs. \<not> lru_match s hsh key x"
    and i: "obj_init s (world s) (nodes s y) key = Some (w, ob)"
  obtains t where "lru_lookup s hsh key = Some (y, t)" "lru_wf t (y # xs) ys" "\<And>a. a \<noteq> y \<Longrightarrow> nodes t a = nodes s a"
    "same_obj (nodes t y) (ob\<lparr>hash := hsh\<rparr>)" "world t = w"
    "obj_init t = obj_init s" "obj_deinit t = obj_deinit s" "obj_key_compare t = obj_key_compare s"
proof -
  have ch: "chain (nodes s) (active s) xs" and f: "free s = Some y" using wf by (simp_all add: lru_wf_def)
  have "\<exists>c. lru_lookup s hsh key = lru_take_free (s\<lparr>num_collisions := c, num_miss := num_miss s + 1\<rparr>) hsh key"
  proof (cases xs rule: rev_cases)
    case Nil
    then show ?thesis using ch f by (intro exI [of _ "num_collisions s"]) (simp add: lru_lookup_def)
  next
    case (snoc us x)
    then obtain c where "active s = Some (hd (us @ [x]))" "lru_walk (nodes s) (obj_key_compare s) hsh key None (hd (us @ [x])) (num_collisions s)
      = Some (False, if us = [] then None else Some (last us), x, c)" using lru_walk_end [of s us x] ch m by blast
    then show ?thesis using f by (auto simp: lru_lookup_def)
  qed
  then obtain c where c: "lru_lookup s hsh key = lru_take_free (s\<lparr>num_collisions := c, num_miss := num_miss s + 1\<rparr>) hsh key" ..
  let ?s = "s\<lparr>num_collisions := c, num_miss := num_miss s + 1\<rparr>"
  have "lru_wf ?s xs (y # ys)" "obj_init ?s (world ?s) (nodes ?s y) key = Some (w, ob)" using wf i by (simp_all add: lru_wf_def)
  then show ?thesis by (rule lru_take_free_wf [of _ _ _ _ _ _ _ hsh]) (use that c in simp)
qed

lemma lru_evict_wf:
  assumes wf: "lru_wf s (us @ [x]) []" and d: "obj_deinit s (world s) (nodes s x) = Some (w, ob)"
  obtains t where "lru_evict s (if us = [] then None else Some (last us)) (Some x) = Some t" "lru_wf t us [x]"
    "\<And>a. a \<noteq> x \<Longrightarrow> same_obj (nodes t a) (nodes s a)" "same_obj (nodes t x) ob" "world t = w"
    "obj_init t = obj_init s" "obj_deinit t = obj_deinit s" "obj_key_compare t = obj_key_compare s"
proof (cases us rule: rev_cases)
  case Nil
  let ?t = "lru_add_free (s\<lparr>active := None, world := w, nodes := (nodes s)(x := ob)\<rparr>) x"
  have "lru_evict s None (Some x) = Some ?t" using d by (simp add: lru_evict_def)
  moreover have "lru_wf ?t [] [x]" using wf Nil by (simp add: lru_wf_def lru_add_free_def)
  ultimately show ?thesis using that [of ?t] Nil by (simp add: lru_add_free_def)
next
  case (snoc ws p)
  have c: "chain (nodes s) (active s) (ws @ [p, x])" and dd: "distinct (ws @ [p, x])" and f: "free s = None" "num_free s = 0"
    using wf snoc by (simp_all add: lru_wf_def)
  let ?u = "s\<lparr>nodes := (nodes s)(p := (nodes s p)\<lparr>next_node := next_node (nodes s x)\<rparr>)\<rparr>"
  let ?t = "lru_add_free (?u\<lparr>world := w, nodes := (nodes ?u)(x := ob)\<rparr>) x"
  have px: "p \<noteq> x" using dd by auto
  have "lru_evict s (Some p) (Some x) = Some ?t" using d px by (simp add: lru_evict_def)
  moreover have "lru_wf ?t us [x]"
    using chain_unlink [OF c dd] dd f snoc by (simp add: lru_wf_def lru_add_free_def)
  ultimately show ?thesis using that [of ?t] snoc px by (simp add: lru_add_free_def)
qed

lemma same_obj_trans: "same_obj a b \<Longrightarrow> same_obj b c \<Longrightarrow> same_obj a c"
  by (simp add: same_obj_def)

lemma lru_lookup_evict:
  assumes wf: "lru_wf s (us @ [x]) []" and m: "\<forall>u \<in> set (us @ [x]). \<not> lru_match s hsh key u"
    and d: "obj_deinit s (world s) (nodes s x) = Some (w1, ob1)"
    and i: "\<And>n. same_obj n ob1 \<Longrightarrow> \<exists>w ob. obj_init s w1 n key = Some (w, ob) \<and> Q w ob"
  obtains t w ob where "lru_lookup s hsh key = Some (x, t)" "lru_wf t (x # us) []" "\<And>a. a \<noteq> x \<Longrightarrow> same_obj (nodes t a) (nodes s a)"
    "same_obj (nodes t x) (ob\<lparr>hash := hsh\<rparr>)" "Q w ob" "world t = w"
    "obj_init t = obj_init s" "obj_deinit t = obj_deinit s" "obj_key_compare t = obj_key_compare s"
proof -
  have ch: "chain (nodes s) (active s) (us @ [x])" and f: "free s = None" using wf by (simp_all add: lru_wf_def)
  obtain c where c: "active s = Some (hd (us @ [x]))" "lru_walk (nodes s) (obj_key_compare s) hsh key None (hd (us @ [x])) (num_collisions s)
      = Some (False, if us = [] then None else Some (last us), x, c)" using lru_walk_end [OF ch m] by blast
  let ?s = "s\<lparr>num_collisions := c, num_miss := num_miss s + 1\<rparr>"
  have "lru_wf ?s (us @ [x]) []" "obj_deinit ?s (world ?s) (nodes ?s x) = Some (w1, ob1)" using wf d by (simp_all add: lru_wf_def)
  then obtain u where u: "lru_evict ?s (if us = [] then None else Some (last us)) (Some x) = Some u" "lru_wf u us [x]"
    "\<And>a. a \<noteq> x \<Longrightarrow> same_obj (nodes u a) (nodes s a)" "same_obj (nodes u x) ob1" "world u = w1"
    "obj_init u = obj_init s" "obj_deinit u = obj_deinit s" "obj_key_compare u = obj_key_compare s"
    by (rule lru_evict_wf) auto
  obtain w ob where o: "obj_init s w1 (nodes u x) key = Some (w, ob)" "Q w ob" using i [OF u(4)] by blast
  have l: "lru_lookup s hsh key = lru_take_free u hsh key" using c f u(1) by (auto simp: lru_lookup_def)
  have "obj_init u (world u) (nodes u x) key = Some (w, ob)" using o u by simp
  from lru_take_free_wf [OF u(2) this, of hsh] obtain t where t: "lru_take_free u hsh key = Some (x, t)" "lru_wf t (x # us) []"
    "\<And>a. a \<noteq> x \<Longrightarrow> nodes t a = nodes u a" "same_obj (nodes t x) (ob\<lparr>hash := hsh\<rparr>)" "world t = w"
    "obj_init t = obj_init u" "obj_deinit t = obj_deinit u" "obj_key_compare t = obj_key_compare u" by metis
  show ?thesis by (rule that [of t ob w]) (use l t u o in auto)
qed

text \<open>Flushing moves the active nodes to the free list, the least recently used one last.\<close>

lemma lru_flush_loop_wf:
  assumes "\<And>w n M. Inv w (add_mset n M) \<Longrightarrow> \<exists>w' n'. deinit w n = Some (w', n') \<and> Inv w' M"
  shows "chain (nodes s) p xs \<Longrightarrow> chain (nodes s) (free s) ys \<Longrightarrow> distinct (xs @ ys) \<Longrightarrow> num_free s = of_nat (length ys)
    \<Longrightarrow> obj_deinit s = deinit \<Longrightarrow> Inv (world s) (image_mset (nodes s) (mset xs))
    \<Longrightarrow> \<exists>t. lru_flush_loop s p = Some t \<and> chain (nodes t) (free t) (rev xs @ ys) \<and> num_free t = of_nat (length xs + length ys)
      \<and> Inv (world t) {#} \<and> obj_init t = obj_init s \<and> obj_deinit t = obj_deinit s \<and> obj_key_compare t = obj_key_compare s"
proof (induction xs arbitrary: s p ys)
  case Nil
  then show ?case by (subst lru_flush_loop.simps) simp
next
  case (Cons x xs)
  obtain w ob where d: "obj_deinit s (world s) (nodes s x) = Some (w, ob)" "Inv w (image_mset (nodes s) (mset xs))"
    using assms [of "world s" "nodes s x" "image_mset (nodes s) (mset xs)"] Cons.prems by auto
  let ?t = "lru_add_free (s\<lparr>world := w, nodes := (nodes s)(x := ob)\<rparr>) x"
  have x: "x \<notin> set xs" "x \<notin> set ys" using Cons.prems(3) by auto
  have n: "nodes ?t = (nodes s)(x := ob\<lparr>next_node := free s\<rparr>)" "free ?t = Some x" "world ?t = w" "num_free ?t = num_free s + 1"
    "obj_deinit ?t = obj_deinit s" by (simp_all add: lru_add_free_def)
  have "image_mset (nodes ?t) (mset xs) = image_mset (nodes s) (mset xs)"
    using x unfolding n by (intro image_mset_cong) auto
  then have i: "Inv (world ?t) (image_mset (nodes ?t) (mset xs))" using d(2) n by simp
  have c: "chain (nodes ?t) (next_node (nodes s x)) xs" "chain (nodes ?t) (free ?t) (x # ys)"
    unfolding n using Cons.prems(1,2) x by simp_all
  have "\<exists>t. lru_flush_loop ?t (next_node (nodes s x)) = Some t \<and> chain (nodes t) (free t) (rev xs @ x # ys)
      \<and> num_free t = of_nat (length xs + length (x # ys)) \<and> Inv (world t) {#}
      \<and> obj_init t = obj_init ?t \<and> obj_deinit t = obj_deinit ?t \<and> obj_key_compare t = obj_key_compare ?t"
    using Cons.prems(3,4,5) x n by (intro Cons.IH c i) simp_all
  then show ?case using Cons.prems(1) d(1) by (subst lru_flush_loop.simps) (auto simp: lru_add_free_def)
qed

subsection \<open>The cache that the client sees\<close>

text \<open>A least recently used cache of capacity \<open>n\<close> as a list of entries, the most recent first.\<close>

definition lru_spec :: "nat \<Rightarrow> 'e \<Rightarrow> 'e list \<Rightarrow> 'e list" where
  "lru_spec n e es = e # (if e \<in> set es then remove1 e es else if length es < n then es else butlast es)"

text \<open>What the cache relies on in its client: the comparison tests an identity of the object that does
  not depend on the links, \<open>obj_init\<close> gives the object the identity of the key, \<open>obj_deinit\<close> returns under an
  invariant of the client on the objects in use, and \<open>obj_init\<close> returns if the key is valid besides.\<close>

locale lru_client =
  fixes init :: "'w \<Rightarrow> 'o lru_node_scheme \<Rightarrow> 'k \<Rightarrow> ('w \<times> 'o lru_node_scheme) option"
    and deinit :: "'w \<Rightarrow> 'o lru_node_scheme \<Rightarrow> ('w \<times> 'o lru_node_scheme) option"
    and cmp :: "'o lru_node_scheme \<Rightarrow> 'k \<Rightarrow> int"
    and ident :: "'o lru_node_scheme \<Rightarrow> 'i"
    and kident :: "'k \<Rightarrow> 'i"
    and Inv :: "'w \<Rightarrow> 'o lru_node_scheme multiset \<Rightarrow> bool"
    and valid :: "'k \<Rightarrow> bool"
  assumes compare: "cmp n k = 0 \<longleftrightarrow> ident n = kident k"
    and ident_links: "ident (n\<lparr>next_node := p\<rparr>) = ident n" "ident (n\<lparr>hash := a\<rparr>) = ident n"
    and inv_links: "Inv w (add_mset (n\<lparr>next_node := p\<rparr>) M) = Inv w (add_mset n M)"
      "Inv w (add_mset (n\<lparr>hash := a\<rparr>) M) = Inv w (add_mset n M)"
    and init_returns: "Inv w M \<Longrightarrow> valid k \<Longrightarrow> \<exists>w' n'. init w n k = Some (w', n') \<and> ident n' = kident k \<and> Inv w' (add_mset n' M)"
    and deinit_returns: "Inv w (add_mset n M) \<Longrightarrow> \<exists>w' n'. deinit w n = Some (w', n') \<and> Inv w' M"
begin

definition lru_ok :: "('w, 'o, 'k) lru \<Rightarrow> nat list \<Rightarrow> nat list \<Rightarrow> bool" where
  "lru_ok s xs ys \<longleftrightarrow> lru_wf s xs ys \<and> obj_init s = init \<and> obj_deinit s = deinit \<and> obj_key_compare s = cmp
     \<and> Inv (world s) (image_mset (nodes s) (mset xs))"

definition entry :: "('w, 'o, 'k) lru \<Rightarrow> nat \<Rightarrow> u64 \<times> 'i" where
  "entry s x = (hash (nodes s x), ident (nodes s x))"

lemma same_obj_entry: "same_obj m n \<Longrightarrow> ident m = ident n \<and> hash m = hash n"
  by (metis ident_links(1) lru_node.simps(2,6) lru_node.update_convs(2) same_obj_def lru_node.select_convs(1) lru_node.surjective)

lemma same_obj_inv: "same_obj m n \<Longrightarrow> Inv w (add_mset m M) = Inv w (add_mset n M)"
  by (metis inv_links(1) same_obj_def)

lemma same_objs_inv: "(\<And>a. a \<in> set xs \<Longrightarrow> same_obj (g a) (h a)) \<Longrightarrow> Inv w (image_mset g (mset xs) + M) = Inv w (image_mset h (mset xs) + M)"
proof (induction xs arbitrary: M)
  case (Cons a xs)
  then have "Inv w (image_mset g (mset xs) + add_mset (g a) M) = Inv w (image_mset h (mset xs) + add_mset (g a) M)"
    by (metis list.set_intros(2))
  then show ?case using same_obj_inv [of "g a" "h a" w "image_mset h (mset xs) + M"] Cons.prems [of a] by simp
qed simp

lemma match_entry: "lru_ok s xs ys \<Longrightarrow> lru_match s hsh key x \<longleftrightarrow> entry s x = (hsh, kident key)"
  by (auto simp: lru_ok_def lru_match_def entry_def compare)

lemma ok_same_objs:
  assumes "lru_ok s xs ys" and "lru_wf t xs' ys'" and "\<And>a. same_obj (nodes t a) (nodes s a)" and "world t = world s"
    "obj_init t = obj_init s" "obj_deinit t = obj_deinit s" "obj_key_compare t = obj_key_compare s" and "mset xs' = mset xs"
  shows "lru_ok t xs' ys'" "entry t = entry s"
  using assms same_objs_inv [of xs' "nodes t" "nodes s" "world s" "{#}"] same_obj_entry by (auto simp: lru_ok_def entry_def fun_eq_iff)

lemma ok_new_front:
  assumes "lru_wf t (y # us) ys" and "\<And>a. a \<in> set us \<Longrightarrow> same_obj (nodes t a) (nodes s a)"
    and "same_obj (nodes t y) (ob\<lparr>hash := hsh\<rparr>)" and "ident ob = kident key"
    and "Inv (world t) (add_mset ob (image_mset (nodes s) (mset us)))"
    and "obj_init t = init" "obj_deinit t = deinit" "obj_key_compare t = cmp"
  shows "lru_ok t (y # us) ys" "map (entry t) (y # us) = (hsh, kident key) # map (entry s) us"
proof -
  have "Inv (world t) (image_mset (nodes t) (mset us) + {#nodes t y#})"
    using assms(5) same_objs_inv [of us "nodes t" "nodes s" "world t" "{#nodes t y#}", OF assms(2)]
      same_obj_inv [OF assms(3)] inv_links(2) by simp
  then show "lru_ok t (y # us) ys" using assms(1,6,7,8) by (simp add: lru_ok_def)
  show "map (entry t) (y # us) = (hsh, kident key) # map (entry s) us"
    using assms(4) same_obj_entry [OF assms(3)] same_obj_entry [OF assms(2)] ident_links(2) by (auto simp: entry_def)
qed

lemma lookup_hit_refines:
  assumes ok: "lru_ok s xs ys" and hit: "\<exists>x \<in> set xs. lru_match s hsh key x"
  shows "\<exists>x t xs' ys'. lru_lookup s hsh key = Some (x, t) \<and> lru_ok t (x # xs') ys' \<and> mset (x # xs') + mset ys' = mset xs + mset ys
    \<and> map (entry t) (x # xs') = lru_spec (length xs + length ys) (hsh, kident key) (map (entry s) xs)"
proof -
  obtain us x vs where xs: "xs = us @ x # vs" "lru_match s hsh key x" "\<forall>u \<in> set us. \<not> lru_match s hsh key u"
    using split_list_first_prop [of xs "lru_match s hsh key"] hit by blast
  have wf: "lru_wf s (us @ x # vs) ys" using ok xs(1) by (simp add: lru_ok_def)
  obtain t where t: "lru_lookup s hsh key = Some (x, t)" "lru_wf t (x # us @ vs) ys" "\<And>a. same_obj (nodes t a) (nodes s a)"
    "world t = world s" "obj_init t = obj_init s" "obj_deinit t = obj_deinit s" "obj_key_compare t = obj_key_compare s"
    using lru_lookup_hit [OF wf xs(2)] xs(3) by blast
  note o = ok_same_objs [OF ok t(2-7)]
  have m: "mset (x # us @ vs) = mset xs" using xs(1) by simp
  have "entry s x = (hsh, kident key)" "(hsh, kident key) \<notin> entry s ` set us"
    using xs(2,3) match_entry [OF ok] by auto
  then have "map (entry t) (x # us @ vs) = lru_spec (length xs + length ys) (hsh, kident key) (map (entry s) xs)"
    using o(2) [OF m] xs(1) by (auto simp: lru_spec_def remove1_append)
  then show ?thesis using t(1) o(1) [OF m] xs(1) by (intro exI [of _ x] exI [of _ t] exI [of _ "us @ vs"] exI [of _ ys]) simp
qed

lemma lookup_fill_refines:
  assumes ok: "lru_ok s xs (y # zs)" and v: "valid key" and no: "\<forall>x \<in> set xs. \<not> lru_match s hsh key x"
  shows "\<exists>t. lru_lookup s hsh key = Some (y, t) \<and> lru_ok t (y # xs) zs \<and> map (entry t) (y # xs) = (hsh, kident key) # map (entry s) xs"
proof -
  have c: "lru_wf s xs (y # zs)" "obj_init s = init" "obj_deinit s = deinit" "obj_key_compare s = cmp"
    and inv: "Inv (world s) (image_mset (nodes s) (mset xs))" using ok by (simp_all add: lru_ok_def)
  obtain w ob where i: "init (world s) (nodes s y) key = Some (w, ob)" "ident ob = kident key"
    "Inv w (add_mset ob (image_mset (nodes s) (mset xs)))" using init_returns [OF inv v] by blast
  obtain t where t: "lru_lookup s hsh key = Some (y, t)" "lru_wf t (y # xs) zs" "\<And>a. a \<noteq> y \<Longrightarrow> nodes t a = nodes s a"
    "same_obj (nodes t y) (ob\<lparr>hash := hsh\<rparr>)" "world t = w" "obj_init t = init" "obj_deinit t = deinit" "obj_key_compare t = cmp"
    using lru_lookup_fill [of s xs y zs hsh key w ob] c no i(1) by metis
  have "y \<notin> set xs" using c(1) by (simp add: lru_wf_def)
  then have so: "same_obj (nodes t a) (nodes s a)" if "a \<in> set xs" for a using t(3) that by (metis same_obj_refl(1))
  note o = ok_new_front [OF t(2) so t(4) i(2) _ t(6-8)]
  show ?thesis using t(1) o i(3) t(5) by (intro exI [of _ t]) simp
qed

lemma lookup_evict_refines:
  assumes ok: "lru_ok s (us @ [x]) []" and v: "valid key" and no: "\<forall>u \<in> set (us @ [x]). \<not> lru_match s hsh key u"
  shows "\<exists>t. lru_lookup s hsh key = Some (x, t) \<and> lru_ok t (x # us) [] \<and> map (entry t) (x # us) = (hsh, kident key) # map (entry s) us"
proof -
  have c: "lru_wf s (us @ [x]) []" "obj_init s = init" "obj_deinit s = deinit" "obj_key_compare s = cmp"
    and inv: "Inv (world s) (add_mset (nodes s x) (image_mset (nodes s) (mset us)))" using ok by (simp_all add: lru_ok_def)
  obtain w1 ob1 where d: "deinit (world s) (nodes s x) = Some (w1, ob1)" "Inv w1 (image_mset (nodes s) (mset us))"
    using deinit_returns [OF inv] by blast
  obtain t w ob where t: "lru_lookup s hsh key = Some (x, t)" "lru_wf t (x # us) []" "\<And>a. a \<noteq> x \<Longrightarrow> same_obj (nodes t a) (nodes s a)"
    "same_obj (nodes t x) (ob\<lparr>hash := hsh\<rparr>)" "ident ob = kident key \<and> Inv w (add_mset ob (image_mset (nodes s) (mset us)))" "world t = w"
    "obj_init t = init" "obj_deinit t = deinit" "obj_key_compare t = cmp"
    using lru_lookup_evict [of s us x hsh key w1 ob1 "\<lambda>w ob. ident ob = kident key \<and> Inv w (add_mset ob (image_mset (nodes s) (mset us)))"]
      c no d init_returns [OF d(2) v] by (metis (no_types, lifting))
  have "x \<notin> set us" using c(1) by (simp add: lru_wf_def)
  then have so: "same_obj (nodes t a) (nodes s a)" if "a \<in> set us" for a using t(3) that by metis
  note o = ok_new_front [OF t(2) so t(4) conjunct1 [OF t(5)] _ t(7-9)]
  show ?thesis using t(1) o t(5,6) by (intro exI [of _ t]) simp
qed

lemma lookup_refines:
  assumes ok: "lru_ok s xs ys" and ne: "xs @ ys \<noteq> []" and v: "valid key \<or> (hsh, kident key) \<in> set (map (entry s) xs)"
  shows "\<exists>x t xs' ys'. lru_lookup s hsh key = Some (x, t) \<and> lru_ok t (x # xs') ys' \<and> mset (x # xs') + mset ys' = mset xs + mset ys
    \<and> map (entry t) (x # xs') = lru_spec (length xs + length ys) (hsh, kident key) (map (entry s) xs)"
proof (cases "\<exists>x \<in> set xs. lru_match s hsh key x")
  case False
  then have no: "\<forall>x \<in> set xs. \<not> lru_match s hsh key x" and ni: "(hsh, kident key) \<notin> set (map (entry s) xs)"
    using match_entry [OF ok] by auto
  then have v: "valid key" using v by simp
  show ?thesis
  proof (cases ys)
    case (Cons y zs)
    have "lru_ok s xs (y # zs)" using ok Cons by simp
    from lookup_fill_refines [OF this v no] obtain t where "lru_lookup s hsh key = Some (y, t)" "lru_ok t (y # xs) zs"
      "map (entry t) (y # xs) = (hsh, kident key) # map (entry s) xs" by (elim exE conjE)
    moreover have "lru_spec (length xs + length ys) (hsh, kident key) (map (entry s) xs) = (hsh, kident key) # map (entry s) xs"
      unfolding lru_spec_def using ni Cons by simp
    ultimately show ?thesis using Cons by (intro exI [of _ y] exI [of _ t] exI [of _ xs] exI [of _ zs]) simp
  next
    case Nil
    obtain us x where xs: "xs = us @ [x]" using ne Nil by (cases xs rule: rev_cases) auto
    have e: "lru_ok s (us @ [x]) []" "\<forall>u \<in> set (us @ [x]). \<not> lru_match s hsh key u" using ok no xs Nil by simp_all
    from lookup_evict_refines [OF e(1) v e(2)] obtain t where "lru_lookup s hsh key = Some (x, t)" "lru_ok t (x # us) []"
      "map (entry t) (x # us) = (hsh, kident key) # map (entry s) us" by (elim exE conjE)
    moreover have "lru_spec (length xs + length ys) (hsh, kident key) (map (entry s) xs) = (hsh, kident key) # map (entry s) us"
      unfolding lru_spec_def using ni xs Nil by simp
    ultimately show ?thesis using xs Nil by (intro exI [of _ x] exI [of _ t] exI [of _ us] exI [of _ "[]"]) simp
  qed
qed (rule lookup_hit_refines [OF ok])

lemma flush_refines:
  assumes "lru_ok s xs ys"
  shows "\<exists>t. lru_flush s = Some t \<and> lru_ok t [] (rev xs @ ys)"
proof -
  have wf: "chain (nodes s) (active s) xs" "chain (nodes s) (free s) ys" "distinct (xs @ ys)" "num_free s = of_nat (length ys)"
    "obj_deinit s = deinit" and inv: "Inv (world s) (image_mset (nodes s) (mset xs))"
    using assms by (simp_all add: lru_ok_def lru_wf_def)
  obtain t where "lru_flush_loop s (active s) = Some t" "chain (nodes t) (free t) (rev xs @ ys)" "num_free t = of_nat (length xs + length ys)"
    "Inv (world t) {#}" "obj_init t = obj_init s" "obj_deinit t = obj_deinit s" "obj_key_compare t = obj_key_compare s"
    using lru_flush_loop_wf [of Inv deinit, OF deinit_returns wf inv] by blast
  then show ?thesis using assms by (auto simp: lru_flush_def lru_ok_def lru_wf_def)
qed

lemma add_free_refines:
  assumes "lru_ok s xs ys" and "x \<notin> set (xs @ ys)"
  shows "lru_ok (lru_add_free s x) xs (x # ys)" "\<And>a. a \<in> set xs \<Longrightarrow> entry (lru_add_free s x) a = entry s a"
proof -
  have n: "nodes (lru_add_free s x) = (nodes s)(x := (nodes s x)\<lparr>next_node := free s\<rparr>)" by (simp add: lru_add_free_def)
  have "image_mset (nodes (lru_add_free s x)) (mset xs) = image_mset (nodes s) (mset xs)"
    using assms(2) unfolding n by (intro image_mset_cong) auto
  then show "lru_ok (lru_add_free s x) xs (x # ys)"
    using assms unfolding lru_ok_def lru_wf_def n by (simp add: lru_add_free_def)
  show "\<And>a. a \<in> set xs \<Longrightarrow> entry (lru_add_free s x) a = entry s a" using assms(2) by (auto simp: entry_def n)
qed

end

subsection \<open>What the replacement policy guarantees\<close>

lemma lru_spec_step:
  assumes "distinct (as @ e # bs)" "length (as @ e # bs) \<le> n" "set as \<subseteq> Q" "finite Q" "card Q < n" "q \<in> insert e Q" "e \<notin> Q"
  shows "\<exists>as' bs'. lru_spec n q (as @ e # bs) = as' @ e # bs' \<and> distinct (as' @ e # bs') \<and> length (as' @ e # bs') \<le> n \<and> set as' \<subseteq> Q"
proof -
  consider "q = e" | "q \<in> set as" "q \<noteq> e" | "q \<in> set bs" "q \<noteq> e" "q \<notin> set as" | "q \<notin> set (as @ e # bs)" by auto
  then show ?thesis
  proof cases
    case 1
    then have "lru_spec n q (as @ e # bs) = [] @ e # (as @ bs)" using assms(1) by (simp add: lru_spec_def remove1_append)
    then show ?thesis using assms(1,2) by (intro exI [of _ "[]"] exI [of _ "as @ bs"]) auto
  next
    case 2
    then have "lru_spec n q (as @ e # bs) = (q # remove1 q as) @ e # bs" by (simp add: lru_spec_def remove1_append)
    moreover have "length as = Suc (length (remove1 q as))" using 2 length_pos_if_in_set [of q as] by (simp add: length_remove1)
    moreover have "set (remove1 q as) = set as - {q}" using assms(1) by (simp add: set_remove1_eq)
    ultimately show ?thesis using assms 2 by (intro exI [of _ "q # remove1 q as"] exI [of _ bs]) (auto simp: distinct_remove1)
  next
    case 3
    then have "lru_spec n q (as @ e # bs) = (q # as) @ e # remove1 q bs" by (simp add: lru_spec_def remove1_append)
    moreover have "length bs = Suc (length (remove1 q bs))" using 3 length_pos_if_in_set [of q bs] by (simp add: length_remove1)
    moreover have "set (remove1 q bs) = set bs - {q}" using assms(1) by (simp add: set_remove1_eq)
    ultimately show ?thesis using assms 3 by (intro exI [of _ "q # as"] exI [of _ "remove1 q bs"]) (auto simp: distinct_remove1)
  next
    case 4
    show ?thesis
    proof (cases "length (as @ e # bs) < n")
      case True
      then have "lru_spec n q (as @ e # bs) = (q # as) @ e # bs" using 4 by (simp add: lru_spec_def)
      then show ?thesis using assms 4 True by (intro exI [of _ "q # as"] exI [of _ bs]) auto
    next
      case False
      have "card (set (q # as)) = Suc (length as)" using assms(1) 4 by (subst distinct_card) auto
      moreover have "card (set (q # as)) \<le> card Q" using assms 4 by (intro card_mono) auto
      ultimately have "bs \<noteq> []" using False assms(5) by auto
      then have "lru_spec n q (as @ e # bs) = (q # as) @ e # butlast bs" using 4 False by (simp add: lru_spec_def butlast_append)
      then show ?thesis using assms 4 \<open>bs \<noteq> []\<close>
        by (intro exI [of _ "q # as"] exI [of _ "butlast bs"]) (auto simp: distinct_butlast dest: in_set_butlastD)
    qed
  qed
qed

lemma lru_spec_keeps:
  assumes "finite Q" "card Q < n" "e \<notin> Q"
  shows "set qs \<subseteq> insert e Q \<Longrightarrow> distinct (as @ e # bs) \<Longrightarrow> length (as @ e # bs) \<le> n \<Longrightarrow> set as \<subseteq> Q
    \<Longrightarrow> e \<in> set (fold (lru_spec n) qs (as @ e # bs))"
proof (induction qs arbitrary: as bs)
  case (Cons q qs)
  obtain as' bs' where "lru_spec n q (as @ e # bs) = as' @ e # bs'" "distinct (as' @ e # bs')" "length (as' @ e # bs') \<le> n" "set as' \<subseteq> Q"
    using lru_spec_step [OF Cons.prems(2,3,4) assms(1,2) _ assms(3), of q] Cons.prems(1) by auto
  then show ?case using Cons.IH [of as' bs'] Cons.prems(1) by simp
qed simp

text \<open>A sequence of lookups.\<close>

primrec lru_lookups :: "(u64 \<times> 'k) list \<Rightarrow> ('w, 'o, 'k) lru \<Rightarrow> ('w, 'o, 'k) lru option" where
  "lru_lookups [] s = Some s"
| "lru_lookups (q # qs) s = do { (x, s) \<leftarrow> lru_lookup s (fst q) (snd q); lru_lookups qs s }"

lemma lru_spec_front:
  assumes "distinct es" "length es \<le> n" "0 < n"
  shows "\<exists>fs. lru_spec n e es = e # fs \<and> distinct (e # fs) \<and> length (e # fs) \<le> n"
proof (cases "e \<in> set es")
  case True
  then have "length es = Suc (length (remove1 e es))" using length_pos_if_in_set [of e es] by (simp add: length_remove1)
  then show ?thesis using assms True by (simp add: lru_spec_def set_remove1_eq distinct_remove1)
next
  case False
  then show ?thesis using assms by (auto simp: lru_spec_def distinct_butlast dest: in_set_butlastD)
qed

context lru_client begin

lemma lookups_refine:
  assumes "lru_ok s xs ys" and "length xs + length ys = n" and "0 < n" and "\<forall>q \<in> set qs. valid (snd q)"
  shows "\<exists>t xs' ys'. lru_lookups qs s = Some t \<and> lru_ok t xs' ys' \<and> length xs' + length ys' = n
    \<and> map (entry t) xs' = fold (lru_spec n) (map (\<lambda>q. (fst q, kident (snd q))) qs) (map (entry s) xs)"
  using assms
proof (induction qs arbitrary: s xs ys)
  case Nil
  then show ?case by auto
next
  case (Cons q qs)
  have "xs @ ys \<noteq> []" using Cons.prems(2,3) by auto
  from lookup_refines [OF Cons.prems(1) this, of "snd q" "fst q"] Cons.prems(4) obtain x t xs' ys' where
    t: "lru_lookup s (fst q) (snd q) = Some (x, t)" "lru_ok t (x # xs') ys'" "mset (x # xs') + mset ys' = mset xs + mset ys"
    "map (entry t) (x # xs') = lru_spec (length xs + length ys) (fst q, kident (snd q)) (map (entry s) xs)" by auto
  have "length (x # xs') + length ys' = n" using arg_cong [OF t(3), of size] Cons.prems(2) by simp
  from Cons.IH [OF t(2) this Cons.prems(3)] t(1,4) Cons.prems(2,4) show ?case by simp
qed

lemma lookup_cached:
  assumes ok: "lru_ok s xs ys" and e: "(hsh, kident key) \<in> set (map (entry s) xs)"
  shows "\<exists>x t. lru_lookup s hsh key = Some (x, t) \<and> world t = world s \<and> num_hit t = num_hit s + 1"
proof -
  have "\<exists>x \<in> set xs. lru_match s hsh key x" using e match_entry [OF ok] by auto
  then obtain us x vs where xs: "xs = us @ x # vs" "lru_match s hsh key x" "\<forall>u \<in> set us. \<not> lru_match s hsh key u"
    using split_list_first_prop [of xs "lru_match s hsh key"] by blast
  have wf: "lru_wf s (us @ x # vs) ys" using ok xs(1) by (simp add: lru_ok_def)
  obtain t where "lru_lookup s hsh key = Some (x, t)" "world t = world s" "num_hit t = num_hit s + 1"
    by (rule lru_lookup_hit [OF wf xs(2)]) (use xs(3) in simp, rule that)
  then show ?thesis by (intro exI conjI)
qed

text \<open>An entry is kept as long as fewer others than the capacity are looked up.\<close>

lemma lookups_keep:
  assumes ok: "lru_ok s xs ys" and n: "length xs + length ys = n" and dist: "distinct (map (entry s) xs)"
    and Q: "finite Q" "card Q < n" "(hsh, kident key) \<notin> Q" and qs: "\<forall>q \<in> set qs. (fst q, kident (snd q)) \<in> insert (hsh, kident key) Q"
    and v: "valid key" "\<forall>q \<in> set qs. valid (snd q)"
  shows "\<exists>t x u. lru_lookups ((hsh, key) # qs) s = Some t \<and> lru_lookup t hsh key = Some (x, u)
    \<and> world u = world t \<and> num_hit u = num_hit t + 1"
proof -
  let ?e = "(hsh, kident key)"
  obtain es where es: "lru_spec n ?e (map (entry s) xs) = [] @ ?e # es" "distinct ([] @ ?e # es)" "length ([] @ ?e # es) \<le> n"
    using lru_spec_front [OF dist, of n ?e] n Q(2) by (auto simp del: distinct.simps)
  have k: "?e \<in> set (fold (lru_spec n) (map (\<lambda>q. (fst q, kident (snd q))) qs) (lru_spec n ?e (map (entry s) xs)))"
    unfolding es(1) by (rule lru_spec_keeps [OF Q]) (use qs es in auto)
  from lookups_refine [OF ok n, of "(hsh, key) # qs"] Q(2) v obtain t xs' ys' where
    t: "lru_lookups ((hsh, key) # qs) s = Some t" "lru_ok t xs' ys'"
    "map (entry t) xs' = fold (lru_spec n) (map (\<lambda>q. (fst q, kident (snd q))) ((hsh, key) # qs)) (map (entry s) xs)" by auto
  then have "?e \<in> set (map (entry t) xs')" using k by simp
  from lookup_cached [OF t(2) this] t(1) show ?thesis by blast
qed

end

end
