(* ===== verification/Texture_Cache.thy ===== *)
theory Texture_Cache
  imports Lru Texture_Upload
begin

text \<open>
  The texture cache of \<open>nv2a_pgraph.c\<close>: the client of the LRU list, its reference-counted bindings, and the
  binding of a texture to a stage with its sampler parameters.

  Bindings live in a heap of their own, a list in which freed cells stay empty. A new entry is uploaded by
  \<open>generate_texture\<close>, which aborts on the textures it does not support.
\<close>

subsection \<open>Structures\<close>

record TextureKey = lru_node +
  state :: TextureShape
  texture_data :: nat
  palette_data :: nat
  binding :: "nat option"

type_synonym 'gl texture_cache = "('gl pgraph_textures, unit TextureKey_ext, TextureKey) lru"

definition NV2A_MAX_TEXTURES :: nat where "NV2A_MAX_TEXTURES = 4"

text \<open>The fields of the registers of a stage that \<open>pgraph_bind_textures\<close> turns into sampler parameters.\<close>

record sampler =
  min_filter :: u32
  mag_filter :: u32
  addru :: u32
  addrv :: u32
  addrp :: u32
  border_source :: u32
  border_color :: u32

subsection \<open>Bindings\<close>

definition deref :: "'gl pgraph_textures \<Rightarrow> nat \<Rightarrow> TextureBinding option" where
  "deref w a = (if a < length (bindings w) then bindings w ! a else None)"

definition texture_binding_destroy :: "'gl host \<Rightarrow> 'gl pgraph_textures \<Rightarrow> nat \<Rightarrow> 'gl pgraph_textures option" where
  "texture_binding_destroy host w a = do {
     b \<leftarrow> deref w a;
     assert (refcnt b > 0);
     let b = b\<lparr>refcnt := refcnt b - 1\<rparr>;
     if refcnt b = 0 then Some (w\<lparr>gl := gl_do host (glDeleteTextures (gl_texture b)) (gl w), bindings := (bindings w)[a := None]\<rparr>)
     else Some (w\<lparr>bindings := (bindings w)[a := Some b]\<rparr>) }"

subsection \<open>The callbacks of the cache\<close>

definition texture_cache_entry_init ::
  "'gl host \<Rightarrow> 'gl pgraph_textures \<Rightarrow> TextureKey \<Rightarrow> TextureKey \<Rightarrow> ('gl pgraph_textures \<times> TextureKey) option" where
  "texture_cache_entry_init host w obj key = do {
     let k_out = key;
     (a, w) \<leftarrow> generate_texture host w (state key) (texture_data key) (palette_data key);
     Some (w, k_out\<lparr>binding := Some a\<rparr>) }"

definition texture_cache_entry_deinit ::
  "'gl host \<Rightarrow> 'gl pgraph_textures \<Rightarrow> TextureKey \<Rightarrow> ('gl pgraph_textures \<times> TextureKey) option" where
  "texture_cache_entry_deinit host w obj = do {
     a \<leftarrow> binding obj;
     w \<leftarrow> texture_binding_destroy host w a;
     Some (w, obj) }"

text \<open>\<open>memcmp\<close> compares all the bytes of the shape, the padding too; the callers only test its result for 0.\<close>

definition texture_cache_entry_compare :: "TextureKey \<Rightarrow> TextureKey \<Rightarrow> int" where
  "texture_cache_entry_compare obj key = (if state obj = state key then 0 else 1)"

subsection \<open>The cache in the graphics engine\<close>

text \<open>The part of \<open>pgraph_init\<close> that sets up the cache, and the part of \<open>pgraph_bind_textures\<close> that looks up the texture
  of one stage, sets its sampler parameters and binds it. Reading beyond the end of a table is \<open>None\<close>; the four floats of
  the border colour are given by their numerators over 255.\<close>

definition texture_cache_size :: nat where "texture_cache_size = 512"

definition texture_cache_setup :: "'gl host \<Rightarrow> 'gl texture_cache \<Rightarrow> 'gl texture_cache" where
  "texture_cache_setup host s =
     fold (\<lambda>i s. lru_add_free s i) [0..<texture_cache_size]
       (lru_init s (texture_cache_entry_init host) (texture_cache_entry_deinit host) texture_cache_entry_compare)"

definition table_at :: "u32 list \<Rightarrow> u32 \<Rightarrow> u32 option" where
  "table_at xs i = (if unat i < length xs then Some (xs ! unat i) else None)"

definition pgraph_texture_min_filter_map :: "u32 list" where
  "pgraph_texture_min_filter_map = [0, 0x2600, 0x2601, 0x2700, 0x2701, 0x2702, 0x2703, 0x2601]"

definition pgraph_texture_mag_filter_map :: "u32 list" where
  "pgraph_texture_mag_filter_map = [0, 0x2600, 0x2601, 0, 0x2601]"

definition pgraph_texture_addr_map :: "u32 list" where
  "pgraph_texture_addr_map = [0, 0x2901, 0x8370, 0x812F, 0x812D]"

abbreviation (input) GL_TEXTURE_MAG_FILTER :: u32 where "GL_TEXTURE_MAG_FILTER \<equiv> 0x2800"
abbreviation (input) GL_TEXTURE_MIN_FILTER :: u32 where "GL_TEXTURE_MIN_FILTER \<equiv> 0x2801"
abbreviation (input) GL_TEXTURE_WRAP_S :: u32 where "GL_TEXTURE_WRAP_S \<equiv> 0x2802"
abbreviation (input) GL_TEXTURE_WRAP_T :: u32 where "GL_TEXTURE_WRAP_T \<equiv> 0x2803"
abbreviation (input) GL_TEXTURE_WRAP_R :: u32 where "GL_TEXTURE_WRAP_R \<equiv> 0x8072"
abbreviation (input) GL_TEXTURE_BORDER_COLOR :: u32 where "GL_TEXTURE_BORDER_COLOR \<equiv> 0x1004"

text \<open>Mipmap filters make no sense for linear textures: 3 and 5 become \<open>MIN_BOX_LOD0\<close>, 4 and 6 \<open>MIN_TENT_LOD0\<close>.\<close>

definition effective_min_filter :: "ColorFormatInfo \<Rightarrow> u32 \<Rightarrow> u32" where
  "effective_min_filter f v =
     (if linear f then if v = 3 \<or> v = 5 then 1 else if v = 4 \<or> v = 6 then 2 else v else v)"

definition set_sampler :: "'gl host \<Rightarrow> u32 \<Rightarrow> ColorFormatInfo \<Rightarrow> u32 \<Rightarrow> sampler \<Rightarrow> 'gl \<Rightarrow> 'gl option" where
  "set_sampler host target f dims smp g = do {
     mn \<leftarrow> table_at pgraph_texture_min_filter_map (effective_min_filter f (min_filter smp));
     let g = gl_do host (glTexParameteri target GL_TEXTURE_MIN_FILTER mn) g;
     mg \<leftarrow> table_at pgraph_texture_mag_filter_map (mag_filter smp);
     let g = gl_do host (glTexParameteri target GL_TEXTURE_MAG_FILTER mg) g;
     u \<leftarrow> table_at pgraph_texture_addr_map (addru smp);
     let g = gl_do host (glTexParameteri target GL_TEXTURE_WRAP_S u) g;
     g \<leftarrow> (if dims > 1 then do {
             v \<leftarrow> table_at pgraph_texture_addr_map (addrv smp);
             Some (gl_do host (glTexParameteri target GL_TEXTURE_WRAP_T v) g) }
           else Some g);
     g \<leftarrow> (if dims > 2 then do {
             p \<leftarrow> table_at pgraph_texture_addr_map (addrp smp);
             Some (gl_do host (glTexParameteri target GL_TEXTURE_WRAP_R p) g) }
           else Some g);
     let c = border_color smp;
     Some (if border_source smp = 1
       then gl_do host (glTexParameterfv target GL_TEXTURE_BORDER_COLOR
         [shr c 16 AND 0xFF, shr c 8 AND 0xFF, c AND 0xFF, shr c 24 AND 0xFF]) g
       else g) }"

definition bind_texture ::
  "'gl host \<Rightarrow> 'gl texture_cache \<Rightarrow> nat \<Rightarrow> u64 \<Rightarrow> TextureKey \<Rightarrow> sampler \<Rightarrow> 'gl texture_cache option" where
  "bind_texture host s i texture_hash key smp = do {
     f \<leftarrow> kelvin_color_format_map (color_format (state key));
     (found, s) \<leftarrow> lru_lookup s texture_hash key;
     a \<leftarrow> binding (nodes s found);
     b \<leftarrow> deref (world s) a;
     let w = (world s)\<lparr>bindings := (bindings (world s))[a := Some (b\<lparr>refcnt := refcnt b + 1\<rparr>)]\<rparr>;
     g \<leftarrow> set_sampler host (gl_target b) f (dimensionality (state key)) smp
        (gl_do host (glBindTexture (gl_target b) (gl_texture b)) (gl w));
     let w = w\<lparr>gl := g\<rparr>;
     w \<leftarrow> (case texture_binding w ! i of None \<Rightarrow> Some w | Some old \<Rightarrow> texture_binding_destroy host w old);
     Some (s\<lparr>world := w\<lparr>texture_binding := (texture_binding w)[i := Some a], texture_dirty := (texture_dirty w)[i := False]\<rparr>\<rparr>) }"

primrec bind_textures :: "'gl host \<Rightarrow> (nat \<times> u64 \<times> TextureKey \<times> sampler) list \<Rightarrow> 'gl texture_cache \<Rightarrow> 'gl texture_cache option" where
  "bind_textures host [] s = Some s"
| "bind_textures host (q # qs) s = do {
     s \<leftarrow> (case q of (i, hsh, key, smp) \<Rightarrow> bind_texture host s i hsh key smp);
     bind_textures host qs s }"

text \<open>The sampler parameters that pass the assertions and stay within the tables.\<close>

definition sampler_ok :: "u32 \<Rightarrow> sampler \<Rightarrow> bool" where
  "sampler_ok dims smp \<longleftrightarrow> min_filter smp < 8 \<and> mag_filter smp < 5 \<and> addru smp < 5
     \<and> (1 < dims \<longrightarrow> addrv smp < 5) \<and> (2 < dims \<longrightarrow> addrp smp < 5)"

lemma set_sampler_returns: "set_sampler host target f dims smp g \<noteq> None \<longleftrightarrow> sampler_ok dims smp"
proof -
  have t: "table_at pgraph_texture_min_filter_map (effective_min_filter f v) \<noteq> None \<longleftrightarrow> v < 8"
    "table_at pgraph_texture_mag_filter_map v \<noteq> None \<longleftrightarrow> v < 5"
    "table_at pgraph_texture_addr_map v \<noteq> None \<longleftrightarrow> v < 5" for v
    by (auto simp: table_at_def effective_min_filter_def pgraph_texture_min_filter_map_def pgraph_texture_mag_filter_map_def
        pgraph_texture_addr_map_def word_less_nat_alt split: if_splits)
  have "sampler_ok dims smp \<longleftrightarrow> table_at pgraph_texture_min_filter_map (effective_min_filter f (min_filter smp)) \<noteq> None
      \<and> table_at pgraph_texture_mag_filter_map (mag_filter smp) \<noteq> None \<and> table_at pgraph_texture_addr_map (addru smp) \<noteq> None
      \<and> (1 < dims \<longrightarrow> table_at pgraph_texture_addr_map (addrv smp) \<noteq> None)
      \<and> (2 < dims \<longrightarrow> table_at pgraph_texture_addr_map (addrp smp) \<noteq> None)" by (simp only: sampler_ok_def t)
  then show ?thesis
    by (cases "table_at pgraph_texture_min_filter_map (effective_min_filter f (min_filter smp))";
        cases "table_at pgraph_texture_mag_filter_map (mag_filter smp)"; cases "table_at pgraph_texture_addr_map (addru smp)";
        cases "table_at pgraph_texture_addr_map (addrv smp)"; cases "table_at pgraph_texture_addr_map (addrp smp)")
      (simp_all add: set_sampler_def Let_def)
qed

subsection \<open>Reference counts\<close>

text \<open>A binding is allocated exactly as long as it has references, and counts them.\<close>

fun cell_ok :: "TextureBinding option \<Rightarrow> nat \<Rightarrow> bool" where
  "cell_ok None r \<longleftrightarrow> r = 0"
| "cell_ok (Some b) r \<longleftrightarrow> 0 < r \<and> unat (refcnt b) = r"

definition counts_ok :: "'gl pgraph_textures \<Rightarrow> (nat \<Rightarrow> nat) \<Rightarrow> bool" where
  "counts_ok w R \<longleftrightarrow> (\<forall>a. cell_ok (deref w a) (R a))"

lemma counts_okD: "counts_ok w R \<Longrightarrow> R a = Suc r \<Longrightarrow> \<exists>b. deref w a = Some b \<and> unat (refcnt b) = Suc r"
  unfolding counts_ok_def by (drule spec [of _ a]) (cases "deref w a"; simp)

lemma deref_update: "a < length (bindings w) \<Longrightarrow> bindings v = (bindings w)[a := x] \<Longrightarrow> deref v c = (if c = a then x else deref w c)"
  by (simp add: deref_def nth_list_update)

lemma deref_bound: "deref w a = Some b \<Longrightarrow> a < length (bindings w)"
  by (simp add: deref_def split: if_splits)

lemma counts_update:
  assumes "counts_ok w R" "a < length (bindings w)" "cell_ok x r" "bindings v = (bindings w)[a := x]"
  shows "counts_ok v (R(a := r))"
  using assms(1,3) deref_update [OF assms(2,4)] unfolding counts_ok_def by simp

lemma destroy_counts:
  assumes ok: "counts_ok w R" and r: "R a = Suc r"
  obtains w' where "texture_binding_destroy host w a = Some w'" "counts_ok w' (R(a := r))"
    "texture_binding w' = texture_binding w" "texture_dirty w' = texture_dirty w"
proof -
  obtain b where b: "deref w a = Some b" "unat (refcnt b) = Suc r" using counts_okD [OF assms] by blast
  have p: "refcnt b > 0" using b(2) by (simp add: word_less_nat_alt)
  then have u: "unat (refcnt b - 1) = r" using b(2) by (simp add: unat_sub word_le_nat_alt)
  have z: "refcnt b = 1 \<longleftrightarrow> r = 0" using b(2) by (metis One_nat_def Suc_inject unsigned_1 unsigned_word_eqI)
  note c = counts_update [OF ok deref_bound [OF b(1)]]
  show ?thesis
  proof (cases "r = 0")
    case True
    have "counts_ok (w\<lparr>gl := gl_do host (glDeleteTextures (gl_texture b)) (gl w), bindings := (bindings w)[a := None]\<rparr>) (R(a := r))"
      by (rule c [of None]) (simp_all add: True)
    then show ?thesis by (rule that [rotated]) (use b(1) p z True in \<open>simp_all add: texture_binding_destroy_def\<close>)
  next
    case False
    have "counts_ok (w\<lparr>bindings := (bindings w)[a := Some (b\<lparr>refcnt := refcnt b - 1\<rparr>)]\<rparr>) (R(a := r))"
      by (rule c [of "Some (b\<lparr>refcnt := refcnt b - 1\<rparr>)"]) (use False u in simp_all)
    then show ?thesis by (rule that [rotated]) (use b(1) p z False in \<open>simp_all add: texture_binding_destroy_def\<close>)
  qed
qed

lemma increment_counts:
  assumes ok: "counts_ok w R" and b: "deref w a = Some b" and r: "R a < 2 ^ 32 - 1"
  shows "counts_ok (w\<lparr>bindings := (bindings w)[a := Some (b\<lparr>refcnt := refcnt b + 1\<rparr>)]\<rparr>) (R(a := Suc (R a)))"
proof -
  have "cell_ok (Some b) (R a)" using ok b unfolding counts_ok_def by metis
  then have "unat (refcnt b + 1) = Suc (R a)" using r unat_add_small [of "refcnt b" 1] by simp
  then have "cell_ok (Some (b\<lparr>refcnt := refcnt b + 1\<rparr>)) (Suc (R a))" by (simp only: cell_ok.simps) simp
  then show ?thesis by (rule counts_update [OF ok deref_bound [OF b]]) simp
qed

lemma generate_counts:
  assumes ok: "counts_ok w R" and g: "generate_texture host w s d p = Some (a, w')"
  shows "counts_ok w' (R(a := 1))" "R a = 0" "texture_binding w' = texture_binding w"
proof -
  obtain g t x where a: "a = length (bindings w)"
    and w': "w' = w\<lparr>gl := g, bindings := bindings w @ [Some \<lparr>gl_target = t, gl_texture = x, refcnt = 1\<rparr>]\<rparr>"
    using generate_texture_binding [OF g] by blast
  have "cell_ok None (R a)" using ok unfolding counts_ok_def a by (metis deref_def less_irrefl)
  then show "R a = 0" by simp
  show "texture_binding w' = texture_binding w" by (simp add: w')
  have "deref w' c = (if c = a then Some \<lparr>gl_target = t, gl_texture = x, refcnt = 1\<rparr> else deref w c)" for c
    by (auto simp: w' a deref_def nth_append)
  then show "counts_ok w' (R(a := 1))" using ok unfolding counts_ok_def by simp
qed

definition refs :: "'gl pgraph_textures \<Rightarrow> TextureKey multiset \<Rightarrow> nat \<Rightarrow> nat" where
  "refs w M a = count (image_mset binding M) (Some a) + count_list (texture_binding w) (Some a)"

lemma refs_links [simp]: "refs w (add_mset (n\<lparr>next_node := p\<rparr>) M) = refs w (add_mset n M)"
  "refs w (add_mset (n\<lparr>hash := h\<rparr>) M) = refs w (add_mset n M)"
  by (simp_all add: refs_def fun_eq_iff)

text \<open>The references to a binding are the cache entries and the stages that hold it; a binding is in at most one
  entry.\<close>

definition textures_ok :: "'gl pgraph_textures \<Rightarrow> TextureKey multiset \<Rightarrow> bool" where
  "textures_ok w M \<longleftrightarrow> length (texture_binding w) = NV2A_MAX_TEXTURES \<and> (\<forall>n \<in># M. binding n \<noteq> None)
     \<and> (\<forall>a. count (image_mset binding M) (Some a) \<le> 1) \<and> counts_ok w (refs w M)"

lemma init_textures_ok:
  assumes ok: "textures_ok w M" and g: "generate_texture host w s d p = Some (a, w')"
  shows "textures_ok w' (add_mset (k\<lparr>binding := Some a\<rparr>) M)"
proof -
  note c = generate_counts [OF _ g, of "refs w M"]
  have "counts_ok w (refs w M)" using ok by (simp add: textures_ok_def)
  note c = c [OF this]
  have "refs w' (add_mset (k\<lparr>binding := Some a\<rparr>) M) = (refs w M)(a := 1)" using c(2,3) by (auto simp: refs_def fun_eq_iff)
  moreover have "count (image_mset binding M) (Some a) = 0" using c(2) by (simp add: refs_def)
  ultimately show ?thesis using ok c(1,3) by (auto simp: textures_ok_def)
qed

lemma deinit_textures_ok:
  assumes ok: "textures_ok w (add_mset n M)"
  shows "\<exists>w' n'. texture_cache_entry_deinit host w n = Some (w', n') \<and> textures_ok w' M"
proof -
  obtain a where a: "binding n = Some a" using ok by (auto simp: textures_ok_def)
  have c: "counts_ok w (refs w (add_mset n M))" and r: "refs w (add_mset n M) a = Suc (refs w M a)"
    using ok a by (simp_all add: textures_ok_def refs_def)
  obtain w' where w': "texture_binding_destroy host w a = Some w'" "counts_ok w' ((refs w (add_mset n M))(a := refs w M a))"
    "texture_binding w' = texture_binding w" using destroy_counts [OF c r] by metis
  have "(refs w (add_mset n M))(a := refs w M a) = refs w' M" using a w'(3) by (auto simp: refs_def fun_eq_iff)
  moreover have "count (image_mset binding M) (Some c) \<le> 1" for c
  proof -
    have "count (image_mset binding (add_mset n M)) (Some c) \<le> 1" using ok unfolding textures_ok_def by blast
    then show ?thesis by (simp split: if_splits)
  qed
  ultimately show ?thesis using ok a w' by (simp add: texture_cache_entry_deinit_def textures_ok_def)
qed

text \<open>The textures that the graphics engine can upload.\<close>

definition texture_valid :: "TextureKey \<Rightarrow> bool" where
  "texture_valid key \<longleftrightarrow> uploadable (state key) \<and> texture_fits (state key)"

lemma entry_init_returns:
  assumes "textures_ok w M" and "texture_valid key"
  shows "\<exists>w' n'. texture_cache_entry_init host w n key = Some (w', n') \<and> state n' = state key \<and> textures_ok w' (add_mset n' M)"
proof -
  have "generate_texture host w (state key) (texture_data key) (palette_data key) \<noteq> None"
    using generate_texture_returns assms(2) unfolding texture_valid_def by blast
  then obtain a w' where g: "generate_texture host w (state key) (texture_data key) (palette_data key) = Some (a, w')" by auto
  show ?thesis using init_textures_ok [OF assms(1) g, of key] by (simp add: texture_cache_entry_init_def g)
qed

interpretation tc: lru_client "texture_cache_entry_init host" "texture_cache_entry_deinit host" texture_cache_entry_compare
  state state textures_ok texture_valid for host :: "'gl host"
proof
  show "texture_cache_entry_compare n k = 0 \<longleftrightarrow> state n = state k" for n k by (simp add: texture_cache_entry_compare_def)
  show "textures_ok w (add_mset (n\<lparr>next_node := p\<rparr>) M) = textures_ok w (add_mset n M)" for w :: "'gl pgraph_textures" and n p M
    by (simp add: textures_ok_def)
  show "textures_ok w (add_mset (n\<lparr>hash := a\<rparr>) M) = textures_ok w (add_mset n M)" for w :: "'gl pgraph_textures" and n a M
    by (simp add: textures_ok_def)
  show "\<exists>w' n'. texture_cache_entry_init host w n k = Some (w', n') \<and> state n' = state k \<and> textures_ok w' (add_mset n' M)"
    if "textures_ok w M" "texture_valid k" for w M n k using that by (rule entry_init_returns)
  show "\<exists>w' n'. texture_cache_entry_deinit host w n = Some (w', n') \<and> textures_ok w' M"
    if "textures_ok w (add_mset n M)" for w n M using that by (rule deinit_textures_ok)
qed simp_all

lemma count_list_update:
  "i < length xs \<Longrightarrow> count_list (xs[i := y]) z + of_bool (xs ! i = z) = count_list xs z + of_bool (y = z)"
proof (induction xs arbitrary: i)
  case (Cons x xs)
  then show ?case by (cases i) fastforce+
qed simp

text \<open>Releasing what the stage \<open>i\<close> holds.\<close>

lemma release_counts:
  assumes c: "counts_ok v R" and i: "i < length (texture_binding v)" and R: "\<And>z. count_list (texture_binding v) (Some z) \<le> R z"
  shows "\<exists>v'. (case texture_binding v ! i of None \<Rightarrow> Some v | Some old \<Rightarrow> texture_binding_destroy host v old) = Some v'
    \<and> texture_binding v' = texture_binding v \<and> counts_ok v' (\<lambda>z. R z - of_bool (texture_binding v ! i = Some z))"
proof (cases "texture_binding v ! i")
  case (Some old)
  have "count_list (texture_binding v) (Some old) \<noteq> 0" using nth_mem [OF i] Some count_list_0_iff by metis
  then obtain r where r: "R old = Suc r" using R [of old] by (cases "R old") auto
  obtain v' where v': "texture_binding_destroy host v old = Some v'" "counts_ok v' (R(old := r))" "texture_binding v' = texture_binding v"
    by (rule destroy_counts [OF c r]) blast
  moreover have "R(old := r) = (\<lambda>z. R z - of_bool (texture_binding v ! i = Some z))" using r Some by (auto simp: fun_eq_iff)
  ultimately show ?thesis using Some by simp
qed (use c in simp)

lemma rebind_ok:
  assumes t: "textures_ok w M" and n: "n \<in># M" "binding n = Some a" and i: "i < NV2A_MAX_TEXTURES"
  obtains b v where "deref w a = Some b"
    "(case texture_binding w ! i of None \<Rightarrow> Some (w\<lparr>bindings := (bindings w)[a := Some (b\<lparr>refcnt := refcnt b + 1\<rparr>)]\<rparr>)
      | Some old \<Rightarrow> texture_binding_destroy host (w\<lparr>bindings := (bindings w)[a := Some (b\<lparr>refcnt := refcnt b + 1\<rparr>)]\<rparr>) old) = Some v"
    "\<And>d. textures_ok (v\<lparr>texture_binding := (texture_binding v)[i := Some a], texture_dirty := d\<rparr>) M"
proof -
  have len: "length (texture_binding w) = NV2A_MAX_TEXTURES" and c: "counts_ok w (refs w M)"
    and one: "count (image_mset binding M) (Some a) \<le> 1" using t unfolding textures_ok_def by blast+
  have "Some a \<in># image_mset binding M" using n by (metis imageI set_image_mset)
  then have "refs w M a \<noteq> 0" by (simp add: refs_def)
  then obtain b where b: "deref w a = Some b" using counts_okD [OF c, of a] by (metis not0_implies_Suc)
  have "count_list (texture_binding w) (Some a) \<le> 4" using count_le_length [of "texture_binding w" "Some a"] len by (simp add: NV2A_MAX_TEXTURES_def)
  then have "refs w M a < 2 ^ 32 - 1" using one by (simp add: refs_def)
  note inc = increment_counts [OF c b this]
  let ?v = "w\<lparr>bindings := (bindings w)[a := Some (b\<lparr>refcnt := refcnt b + 1\<rparr>)]\<rparr>" and ?R = "(refs w M)(a := Suc (refs w M a))"
  have il: "i < length (texture_binding w)" using i len by simp
  have "count_list (texture_binding ?v) (Some z) \<le> ?R z" for z by (simp add: refs_def)
  with release_counts [OF inc, of i host] il obtain v where
    v: "(case texture_binding w ! i of None \<Rightarrow> Some ?v | Some old \<Rightarrow> texture_binding_destroy host ?v old) = Some v"
    "texture_binding v = texture_binding w" "counts_ok v (\<lambda>z. ?R z - of_bool (texture_binding w ! i = Some z))" by auto
  have "textures_ok (v\<lparr>texture_binding := (texture_binding v)[i := Some a], texture_dirty := d\<rparr>) M" (is "textures_ok ?f M") for d
  proof -
    have e: "refs ?f M = (\<lambda>z. ?R z - of_bool (texture_binding w ! i = Some z))"
    proof
      fix z
      show "refs ?f M z = ?R z - of_bool (texture_binding w ! i = Some z)"
        using count_list_update [OF il, of "Some a" "Some z"] v(2) by (auto simp: refs_def)
    qed
    have "deref ?f z = deref v z" for z by (simp add: deref_def)
    then have "counts_ok ?f (refs ?f M)" using v(3) unfolding e by (simp only: counts_ok_def simp_thms)
    then show ?thesis using t v(2) by (simp add: textures_ok_def)
  qed
  then show ?thesis by (rule that [OF b v(1)])
qed

text \<open>The OpenGL state plays no role in the invariant.\<close>

lemma textures_ok_gl: "textures_ok (w\<lparr>gl := g\<rparr>) M = textures_ok w M"
  by (simp add: textures_ok_def counts_ok_def refs_def deref_def)

lemma deref_gl: "deref (w\<lparr>gl := g\<rparr>) = deref w"
  by (simp add: deref_def fun_eq_iff)

lemma gl_bindings_commute: "w\<lparr>gl := g, bindings := x\<rparr> = w\<lparr>bindings := x, gl := g\<rparr>"
  by (cases w) simp

lemma bind_texture_ok:
  assumes ok: "tc.lru_ok host s xs ys" and ne: "xs @ ys \<noteq> []" and i: "i < NV2A_MAX_TEXTURES"
    and k: "texture_valid key" and smp: "sampler_ok (dimensionality (state key)) smp"
  shows "\<exists>t xs' ys'. bind_texture host s i hsh key smp = Some t \<and> tc.lru_ok host t xs' ys'
    \<and> mset xs' + mset ys' = mset xs + mset ys"
proof -
  obtain x u us ys' where l: "lru_lookup s hsh key = Some (x, u)" "tc.lru_ok host u (x # us) ys'"
    "mset (x # us) + mset ys' = mset xs + mset ys"
    using tc.lookup_refines [OF ok ne, of key hsh] k by blast
  obtain f where f: "kelvin_color_format_map (color_format (state key)) = Some f"
    using k by (auto simp: texture_valid_def uploadable_def split: option.splits)
  let ?M = "image_mset (nodes u) (mset (x # us))" and ?w = "world u"
  have t: "textures_ok ?w ?M" using l(2) by (simp only: tc.lru_ok_def)
  then obtain a where a: "binding (nodes u x) = Some a" by (auto simp: textures_ok_def)
  have nm: "nodes u x \<in># ?M" by simp
  obtain b where b: "deref ?w a = Some b" by (rule rebind_ok [OF t nm a i, of host]) (rule that)
  obtain g where g: "set_sampler host (gl_target b) f (dimensionality (state key)) smp
      (gl_do host (glBindTexture (gl_target b) (gl_texture b)) (gl ?w)) = Some g"
    using set_sampler_returns [of host] smp by (metis option.exhaust)
  have tg: "textures_ok (?w\<lparr>gl := g\<rparr>) ?M" using t by (simp only: textures_ok_gl)
  let ?v = "?w\<lparr>bindings := (bindings ?w)[a := Some (b\<lparr>refcnt := refcnt b + 1\<rparr>)], gl := g\<rparr>"
  obtain v where v: "(case texture_binding ?w ! i of None \<Rightarrow> Some ?v | Some old \<Rightarrow> texture_binding_destroy host ?v old) = Some v"
    "\<And>d. textures_ok (v\<lparr>texture_binding := (texture_binding v)[i := Some a], texture_dirty := d\<rparr>) ?M"
    by (rule rebind_ok [OF tg nm a i, of host]) (use b that in \<open>simp add: deref_gl gl_bindings_commute cong: option.case_cong\<close>)
  let ?f = "v\<lparr>texture_binding := (texture_binding v)[i := Some a], texture_dirty := (texture_dirty v)[i := False]\<rparr>"
  have "tc.lru_ok host (u\<lparr>world := ?f\<rparr>) (x # us) ys'" using l(2) v(2) by (simp add: tc.lru_ok_def lru_wf_def)
  moreover have "bind_texture host s i hsh key smp = Some (u\<lparr>world := ?f\<rparr>)" using f l(1) a b g v(1) by (simp add: bind_texture_def)
  ultimately show ?thesis using l(3) by blast
qed

subsection \<open>The cache of the graphics engine\<close>

text \<open>The invariant of the cache, written out: \<open>xs\<close> are the entries in use, the most recent first, \<open>ys\<close> the free ones.\<close>

definition texture_cache_ok :: "'gl host \<Rightarrow> 'gl texture_cache \<Rightarrow> nat list \<Rightarrow> nat list \<Rightarrow> bool" where
  "texture_cache_ok host s xs ys \<longleftrightarrow> lru_wf s xs ys \<and> obj_init s = texture_cache_entry_init host
     \<and> obj_deinit s = texture_cache_entry_deinit host \<and> obj_key_compare s = texture_cache_entry_compare
     \<and> textures_ok (world s) (image_mset (nodes s) (mset xs))"

definition texture_entry :: "'gl texture_cache \<Rightarrow> nat \<Rightarrow> u64 \<times> TextureShape" where
  "texture_entry s x = (hash (nodes s x), state (nodes s x))"

lemma texture_cache_client: "tc.lru_ok host = texture_cache_ok host" "tc.entry = texture_entry"
  by (simp_all add: fun_eq_iff tc.lru_ok_def texture_cache_ok_def tc.entry_def texture_entry_def)

lemmas texture_lookup_spec = tc.lookup_refines [unfolded texture_cache_client texture_valid_def]
lemmas texture_flush_spec = tc.flush_refines [unfolded texture_cache_client]
lemmas texture_bind_spec = bind_texture_ok [unfolded texture_cache_client]

lemma setup_ok:
  assumes "bindings (world s) = []" "texture_binding (world s) = replicate NV2A_MAX_TEXTURES None"
  shows "texture_cache_ok host (texture_cache_setup host s) [] (rev [0..<texture_cache_size])"
proof -
  let ?i = "lru_init s (texture_cache_entry_init host) (texture_cache_entry_deinit host) texture_cache_entry_compare"
  have "textures_ok (world ?i) {#}" using assms by (auto simp: lru_init_def textures_ok_def counts_ok_def deref_def refs_def NV2A_MAX_TEXTURES_def)
  then have z: "tc.lru_ok host ?i [] []" by (simp add: tc.lru_ok_def lru_wf_def lru_init_def)
  have "tc.lru_ok host (fold (\<lambda>i s. lru_add_free s i) [0..<n] ?i) [] (rev [0..<n])" for n
    by (induction n) (use z in \<open>auto intro: tc.add_free_refines(1)\<close>)
  then show ?thesis unfolding texture_cache_setup_def texture_cache_client .
qed

text \<open>A bind that passes all the assertions.\<close>

definition bindable :: "nat \<times> u64 \<times> TextureKey \<times> sampler \<Rightarrow> bool" where
  "bindable q \<longleftrightarrow> (case q of (i, hsh, key, smp) \<Rightarrow>
     i < NV2A_MAX_TEXTURES \<and> uploadable (state key) \<and> texture_fits (state key) \<and> sampler_ok (dimensionality (state key)) smp)"

lemma bind_textures_ok:
  assumes "texture_cache_ok host s xs ys" "xs @ ys \<noteq> []" "\<forall>q \<in> set qs. bindable q"
  shows "\<exists>t xs' ys'. bind_textures host qs s = Some t \<and> texture_cache_ok host t xs' ys' \<and> mset xs' + mset ys' = mset xs + mset ys"
  using assms
proof (induction qs arbitrary: s xs ys)
  case Nil
  then show ?case by auto
next
  case (Cons q qs)
  obtain i hsh key smp where q: "q = (i, hsh, key, smp)" by (cases q)
  then have "i < NV2A_MAX_TEXTURES" "texture_valid key" "sampler_ok (dimensionality (state key)) smp"
    using Cons.prems(3) by (simp_all add: bindable_def texture_valid_def)
  from texture_bind_spec [OF Cons.prems(1,2) this, of hsh] obtain t xs' ys' where t: "bind_texture host s i hsh key smp = Some t"
    "texture_cache_ok host t xs' ys'" "mset xs' + mset ys' = mset xs + mset ys" by (elim exE conjE)
  have "xs' @ ys' \<noteq> []" using t(3) Cons.prems(2) by auto
  from Cons.IH [OF t(2) this] Cons.prems(3) t(1,3) q show ?case by auto
qed

lemmas texture_lookups_keep = tc.lookups_keep [unfolded texture_cache_client]

text \<open>An OpenGL that numbers the textures, and a small texture, for the examples.\<close>

definition test_host :: "nat host" where
  "test_host = \<lparr>glGenTextures = \<lambda>g. (g + 1, of_nat (g + 1)), gl_do = \<lambda>c g. g, g_malloc = \<lambda>n i. 0\<rparr>"

definition test_shape :: TextureShape where
  "test_shape = \<lparr>cubemap = False, cubemap_padding = 0, dimensionality = 2, color_format = 0, levels = 1, width = 8, height = 8,
     depth = 1, min_mipmap_level = 0, max_mipmap_level = 0, pitch = 32\<rparr>"

definition test_sampler :: sampler where
  "test_sampler = \<lparr>min_filter = 1, mag_filter = 1, addru = 1, addrv = 3, addrp = 7, border_source = 0, border_color = 0\<rparr>"

definition start_cache :: "nat texture_cache" where
  "start_cache = \<lparr>active = None, free = None, obj_init = \<lambda>_ _ _. None, obj_deinit = \<lambda>_ _. None, obj_key_compare = \<lambda>_ _. 0,
     num_free = 0, num_collisions = 0, num_hit = 0, num_miss = 0,
     nodes = \<lambda>_. \<lparr>hash = 0, next_node = None, state = test_shape, texture_data = 0, palette_data = 0, binding = None\<rparr>,
     world = \<lparr>gl = 0, vram = \<lambda>i. of_nat i, bindings = [], texture_binding = replicate NV2A_MAX_TEXTURES None,
       texture_dirty = replicate NV2A_MAX_TEXTURES True\<rparr>\<rparr>"

lemma test_shape_format: "kelvin_color_format_map (color_format test_shape)
    = Some (color_info 1 False GL_R8 GL_RED GL_UNSIGNED_BYTE [GL_RED, GL_RED, GL_RED, GL_ONE])"
  by (simp add: test_shape_def kelvin_color_format_map_def color_formats_def)

lemma test_shape_ok: "uploadable test_shape" "texture_fits test_shape"
proof -
  show "uploadable test_shape" unfolding uploadable_def test_shape_format by (simp add: test_shape_def)
  have "sizes_ok 8 8 1" by (simp add: sizes_ok_def bits_for_values)
  then show "texture_fits test_shape" unfolding texture_fits_def test_shape_format by (simp add: test_shape_def)
qed

lemma test_sampler_ok: "sampler_ok (dimensionality test_shape) test_sampler"
  by (simp add: sampler_ok_def test_sampler_def test_shape_def)

lemma start_state: "state (nodes start_cache a) = test_shape"
  by (simp add: start_cache_def)

lemma start_world: "bindings (world start_cache) = []" "texture_binding (world start_cache) = replicate NV2A_MAX_TEXTURES None"
  by (simp_all add: start_cache_def)

lemmas start_ok = setup_ok [OF start_world, of test_host]

subsection \<open>Properties\<close>

text \<open>C30: A lookup in the texture cache implements a least recently used cache. If the texture is in the cache, or is one that
  \<open>generate_texture\<close> can upload (\<open>uploadable\<close>, which excludes what its assertions exclude), it returns, the entry it returns comes
  first, an entry that was present is moved to the front, a new one takes a free place or, if there is none,
  the place of the last; the invariant with the reference counts is kept.\<close>

theorem texture_lookup_refines:
  assumes "texture_cache_ok host s xs ys" and "xs @ ys \<noteq> []"
    and "uploadable (state key) \<and> texture_fits (state key) \<or> (hsh, state key) \<in> set (map (texture_entry s) xs)"
  shows "\<exists>x t xs' ys'. lru_lookup s hsh key = Some (x, t) \<and> texture_cache_ok host t (x # xs') ys'
    \<and> mset (x # xs') + mset ys' = mset xs + mset ys
    \<and> map (texture_entry t) (x # xs') = lru_spec (length xs + length ys) (hsh, state key) (map (texture_entry s) xs)"
  using assms by (rule texture_lookup_spec)

theorem texture_lookup_refines_witness:
  "texture_cache_ok test_host (texture_cache_setup test_host start_cache) [] (rev [0..<texture_cache_size])
    \<and> (\<exists>x t xs' ys'. lru_lookup (texture_cache_setup test_host start_cache) 7 (nodes start_cache 0) = Some (x, t)
      \<and> texture_cache_ok test_host t (x # xs') ys'
      \<and> mset (x # xs') + mset ys' = mset [] + mset (rev [0..<texture_cache_size])
      \<and> map (texture_entry t) (x # xs') = lru_spec (length ([]::nat list) + length (rev [0..<texture_cache_size])) (7, state (nodes start_cache 0))
        (map (texture_entry (texture_cache_setup test_host start_cache)) []))"
proof -
  have "[] @ rev [0..<texture_cache_size] \<noteq> []" by (simp add: texture_cache_size_def)
  moreover have "uploadable (state (nodes start_cache 0)) \<and> texture_fits (state (nodes start_cache 0))
      \<or> (7, state (nodes start_cache 0)) \<in> set (map (texture_entry (texture_cache_setup test_host start_cache)) [])"
    unfolding start_state using test_shape_ok by blast
  ultimately show ?thesis using texture_lookup_refines [OF start_ok, of "nodes start_cache 0" 7] start_ok by blast
qed

text \<open>C32: A texture stays cached while it is among the last used: after it was looked up, and then any sequence of
  lookups, all of them of textures that can be uploaded, with fewer than \<open>n\<close> other entries in a cache of \<open>n\<close> places, the next lookup is a hit and changes
  neither the OpenGL state nor any binding.\<close>

theorem texture_cache_retains:
  assumes "texture_cache_ok host s xs ys" and "length xs + length ys = n" and "distinct (map (texture_entry s) xs)"
    and "finite Q" and "card Q < n" and "(hsh, state key) \<notin> Q"
    and "\<forall>q \<in> set qs. (fst q, state (snd q)) \<in> insert (hsh, state key) Q"
    and "\<forall>q \<in> set ((hsh, key) # qs). uploadable (state (snd q)) \<and> texture_fits (state (snd q))"
  shows "\<exists>t x u. lru_lookups ((hsh, key) # qs) s = Some t \<and> lru_lookup t hsh key = Some (x, u)
    \<and> world u = world t \<and> num_hit u = num_hit t + 1"
  by (rule texture_lookups_keep [OF assms(1-7)]) (use assms(8) in \<open>simp_all add: texture_valid_def\<close>)

theorem texture_cache_retains_witness:
  "texture_cache_ok test_host (texture_cache_setup test_host start_cache) [] (rev [0..<texture_cache_size])
    \<and> (\<exists>t x u. lru_lookups [(7, nodes start_cache 0), (8, nodes start_cache 0)] (texture_cache_setup test_host start_cache) = Some t
      \<and> lru_lookup t 7 (nodes start_cache 0) = Some (x, u) \<and> world u = world t \<and> num_hit u = num_hit t + 1)"
proof -
  let ?k = "nodes start_cache 0" and ?Q = "{(8, state (nodes start_cache 0))}"
  have "\<exists>t x u. lru_lookups ((7, ?k) # [(8, ?k)]) (texture_cache_setup test_host start_cache) = Some t
      \<and> lru_lookup t 7 ?k = Some (x, u) \<and> world u = world t \<and> num_hit u = num_hit t + 1"
    by (rule texture_cache_retains [OF start_ok, where n = 512 and Q = ?Q]) (simp_all add: texture_cache_size_def start_state test_shape_ok)
  then show ?thesis using start_ok by blast
qed

text \<open>C31: Binding textures to the stages is memory safe and does not leak: from the initial state, every sequence of binds of
  textures that \<open>generate_texture\<close> can upload (\<open>uploadable\<close>), with sampler parameters within their tables, returns, a
  binding is allocated exactly while a cache entry or a stage refers to it, its reference count is the number of
  these references, and all 512 entries stay in the two lists.\<close>

theorem bind_textures_counts:
  assumes "bindings (world s) = []" and "texture_binding (world s) = replicate NV2A_MAX_TEXTURES None"
    and "\<forall>q \<in> set qs. bindable q"
  shows "\<exists>t xs ys. bind_textures host qs (texture_cache_setup host s) = Some t
    \<and> lru_wf t xs ys \<and> mset xs + mset ys = mset [0..<texture_cache_size]
    \<and> (\<forall>a. cell_ok (deref (world t) a) (count (image_mset (\<lambda>x. binding (nodes t x)) (mset xs)) (Some a) + count_list (texture_binding (world t)) (Some a)))"
proof -
  note ok = setup_ok [OF assms(1,2), of host]
  have "[] @ rev [0..<texture_cache_size] \<noteq> []" by (simp add: texture_cache_size_def)
  from bind_textures_ok [OF ok this assms(3)] show ?thesis
    by (auto simp: texture_cache_ok_def textures_ok_def counts_ok_def refs_def multiset.map_comp comp_def)
qed

theorem bind_textures_counts_witness:
  "\<exists>t xs ys. bind_textures test_host [(0, 7, nodes start_cache 0, test_sampler), (3, 8, nodes start_cache 0, test_sampler),
        (0, 8, nodes start_cache 0, test_sampler)] (texture_cache_setup test_host start_cache) = Some t
    \<and> lru_wf t xs ys \<and> mset xs + mset ys = mset [0..<texture_cache_size]
    \<and> (\<forall>a. cell_ok (deref (world t) a) (count (image_mset (\<lambda>x. binding (nodes t x)) (mset xs)) (Some a) + count_list (texture_binding (world t)) (Some a)))"
  by (rule bind_textures_counts [OF start_world])
    (simp add: bindable_def start_state test_shape_ok test_sampler_ok NV2A_MAX_TEXTURES_def)

text \<open>C33: Clearing the cache returns and releases every texture that no stage is using: afterwards the list of
  entries in use is empty, and a binding is allocated exactly while a stage refers to it.\<close>

theorem texture_cache_flushed:
  assumes "texture_cache_ok host s xs ys"
  shows "\<exists>t. lru_flush s = Some t \<and> lru_wf t [] (rev xs @ ys)
    \<and> (\<forall>a. cell_ok (deref (world t) a) (count_list (texture_binding (world t)) (Some a)))"
  using texture_flush_spec [OF assms] by (auto simp: texture_cache_ok_def textures_ok_def counts_ok_def refs_def)

theorem texture_cache_flushed_witness:
  "texture_cache_ok test_host (texture_cache_setup test_host start_cache) [] (rev [0..<texture_cache_size])
    \<and> (\<exists>t. lru_flush (texture_cache_setup test_host start_cache) = Some t \<and> lru_wf t [] (rev [] @ rev [0..<texture_cache_size])
      \<and> (\<forall>a. cell_ok (deref (world t) a) (count_list (texture_binding (world t)) (Some a))))"
  using texture_cache_flushed [OF start_ok] start_ok by blast

end
