(* ===== verification/Adpcm.thy ===== *)
theory Adpcm
  imports Prelude
begin

text \<open>
  The IMA ADPCM decoder of the audio unit, \<open>adpcm.h\<close> and \<open>adpcm_block.h\<close>: the decoder step, and the decoding
  of mono and stereo blocks of 65 samples.

  The signed integers of the decoder are of type \<open>int\<close>; the bounds shown below keep them within their C types.
  The samples are written to a memory that maps addresses to 16-bit samples, through pointers that the code
  increments; the words of a block are a list.
\<close>

subsection \<open>The decoder\<close>

definition ima_index_table :: "int list" where
  "ima_index_table = [-1, -1, -1, -1, 2, 4, 6, 8, -1, -1, -1, -1, 2, 4, 6, 8]"

definition ima_step_table :: "u16 list" where
  "ima_step_table =
     [7, 8, 9, 10, 11, 12, 13, 14, 16, 17,
      19, 21, 23, 25, 28, 31, 34, 37, 41, 45,
      50, 55, 60, 66, 73, 80, 88, 97, 107, 118,
      130, 143, 157, 173, 190, 209, 230, 253, 279, 307,
      337, 371, 408, 449, 494, 544, 598, 658, 724, 796,
      876, 963, 1060, 1166, 1282, 1411, 1552, 1707, 1878, 2066,
      2272, 2499, 2749, 3024, 3327, 3660, 4026, 4428, 4871, 5358,
      5894, 6484, 7132, 7845, 8630, 9493, 10442, 11487, 12635, 13899,
      15289, 16818, 18500, 20350, 22385, 24623, 27086, 29794, 32767]"

record ADPCMDecoder =
  predictor :: int
  step_index :: int
  step :: u16

definition adpcm_decoder_initialize :: "ADPCMDecoder \<Rightarrow> int \<Rightarrow> int \<Rightarrow> ADPCMDecoder" where
  "adpcm_decoder_initialize d p i = d\<lparr>predictor := p, step_index := i\<rparr>"

definition adpcm_decoder_step :: "ADPCMDecoder \<Rightarrow> u8 \<Rightarrow> int \<times> ADPCMDecoder" where
  "adpcm_decoder_step d nibble =
     (let i = (if step_index d < 0 then 0 else if step_index d > 88 then 88 else step_index d);
          st = ima_step_table ! nat i;
          i = i + ima_index_table ! unat (nibble AND 0xF);
          diff = uint (shr st 3);
          diff = (if nibble AND 1 \<noteq> 0 then diff + uint (shr st 2) else diff);
          diff = (if nibble AND 2 \<noteq> 0 then diff + uint (shr st 1) else diff);
          diff = (if nibble AND 4 \<noteq> 0 then diff + uint st else diff);
          diff = (if nibble AND 8 \<noteq> 0 then - diff else diff);
          p = predictor d + diff;
          p = (if p < - 0x8000 then - 0x8000 else if p > 0x7FFF then 0x7FFF else p)
      in (p, d\<lparr>predictor := p, step_index := i, step := st\<rparr>))"

subsection \<open>Blocks\<close>

type_synonym samples = "nat \<Rightarrow> int"

text \<open>The step index is a byte that is passed as a signed byte.\<close>

definition adpcm_decode_block_setup :: "ADPCMDecoder \<Rightarrow> u32 \<Rightarrow> int \<times> ADPCMDecoder" where
  "adpcm_decode_block_setup decoder word =
     (let p = sint (ucast word :: u16); i = sint (ucast (shr word 16) :: u8)
      in (p, adpcm_decoder_initialize decoder p i))"

definition decode_nibble :: "int \<Rightarrow> int \<Rightarrow> nat \<Rightarrow> ADPCMDecoder \<times> samples \<times> nat \<times> u32 \<Rightarrow> ADPCMDecoder \<times> samples \<times> nat \<times> u32" where
  "decode_nibble first lst i = (\<lambda>(decoder, mem, samples, word).
     let samples = (if int i \<ge> first then samples + 1 else samples)
     in if int i \<le> lst then
          let (v, decoder) = adpcm_decoder_step decoder (ucast word) in (decoder, mem(samples := v), samples, shr word 4)
        else (decoder, mem, samples, word))"

definition adpcm_decode_word :: "ADPCMDecoder \<Rightarrow> samples \<Rightarrow> nat \<Rightarrow> u32 \<Rightarrow> int \<Rightarrow> int \<Rightarrow> ADPCMDecoder \<times> samples \<times> nat" where
  "adpcm_decode_word decoder mem samples word first lst =
     (let (decoder, mem, samples, word) = fold (decode_nibble first lst) [0..<8] (decoder, mem, samples, word)
      in (decoder, mem, samples))"

definition new_decoder :: ADPCMDecoder where "new_decoder = \<lparr>predictor = 0, step_index = 0, step = 0\<rparr>"

text \<open>In round \<open>i\<close> the unsigned \<open>first\<close> and \<open>last\<close> have been decremented \<open>i\<close> times by 8; they are passed as \<open>int\<close>.\<close>

definition adpcm_decode_mono_block :: "samples \<Rightarrow> nat \<Rightarrow> u32 list \<Rightarrow> u32 \<Rightarrow> u32 \<Rightarrow> samples" where
  "adpcm_decode_mono_block mem samples data first lst =
     (let (v, decoder) = adpcm_decode_block_setup new_decoder (data ! 0);
          mem = mem(samples := v);
          (decoder, mem, samples) = fold (\<lambda>i (decoder, mem, samples).
              adpcm_decode_word decoder mem samples (data ! (1 + i)) (sint (first - 8 * of_nat i)) (sint (lst - 8 * of_nat i)))
            [0..<8] (decoder, mem, samples)
      in mem)"

definition adpcm_decode_stereo_block :: "samples \<Rightarrow> nat \<Rightarrow> nat \<Rightarrow> u32 list \<Rightarrow> u32 \<Rightarrow> u32 \<Rightarrow> samples" where
  "adpcm_decode_stereo_block mem samples_l samples_r data first lst =
     (let (v, decoder_l) = adpcm_decode_block_setup new_decoder (data ! 0);
          mem = mem(samples_l := v);
          (v, decoder_r) = adpcm_decode_block_setup new_decoder (data ! 1);
          mem = mem(samples_r := v);
          (decoder_l, samples_l, decoder_r, samples_r, mem) = fold (\<lambda>i (decoder_l, samples_l, decoder_r, samples_r, mem).
              let first = sint (first - 8 * of_nat i); lst = sint (lst - 8 * of_nat i);
                  (decoder_l, mem, samples_l) = adpcm_decode_word decoder_l mem samples_l (data ! (2 + 2 * i)) first lst;
                  (decoder_r, mem, samples_r) = adpcm_decode_word decoder_r mem samples_r (data ! (3 + 2 * i)) first lst
              in (decoder_l, samples_l, decoder_r, samples_r, mem))
            [0..<8] (decoder_l, samples_l, decoder_r, samples_r, mem)
      in mem)"

subsection \<open>The sequence of samples\<close>

text \<open>The nibbles of a channel whose words are \<open>W 0, W 1, \<dots>\<close>, the decoder after \<open>g\<close> nibbles, and sample \<open>g\<close>.\<close>

definition nibble_at :: "(nat \<Rightarrow> u32) \<Rightarrow> nat \<Rightarrow> u8" where
  "nibble_at W g = ucast (shr (W (g div 8)) (4 * (g mod 8)))"

primrec decoder_at :: "(nat \<Rightarrow> u32) \<Rightarrow> ADPCMDecoder \<Rightarrow> nat \<Rightarrow> ADPCMDecoder" where
  "decoder_at W d 0 = d"
| "decoder_at W d (Suc g) = snd (adpcm_decoder_step (decoder_at W d g) (nibble_at W g))"

definition sample_at :: "(nat \<Rightarrow> u32) \<Rightarrow> ADPCMDecoder \<Rightarrow> nat \<Rightarrow> int" where
  "sample_at W d g = predictor (decoder_at W d g)"

lemma step_predictor: "fst (adpcm_decoder_step d n) = predictor (snd (adpcm_decoder_step d n))"
  by (simp add: adpcm_decoder_step_def Let_def)

text \<open>What a decoder with the pointer at \<open>b\<close> writes for the nibble \<open>g\<close>.\<close>

definition write_sample :: "(nat \<Rightarrow> int) \<Rightarrow> nat \<Rightarrow> nat \<Rightarrow> nat \<Rightarrow> samples \<Rightarrow> samples" where
  "write_sample S b f g mem = mem(b + (Suc g - f) := S (Suc g))"

lemma decode_nibbles:
  assumes "j \<le> 8"
  shows "fold (decode_nibble (int f - 8 * int i) (int l - 8 * int i)) [0..<j]
      (decoder_at W d (min (8 * i) (Suc l)), mem, b + (8 * i - f), W i)
    = (decoder_at W d (min (8 * i + j) (Suc l)), fold (write_sample (sample_at W d) b f) [8 * i..<min (8 * i + j) (Suc l)] mem,
       b + (8 * i + j - f), shr (W i) (4 * min j (Suc l - 8 * i)))"
  using assms
proof (induction j)
  case (Suc j)
  let ?g = "8 * i + j"
  have g: "?g div 8 = i" "?g mod 8 = j" using Suc.prems by simp_all
  have p: "(if int j \<ge> int f - 8 * int i then b + (?g - f) + 1 else b + (?g - f)) = b + (Suc ?g - f)" by auto
  show ?case
  proof (cases "?g \<le> l")
    case True
    then have m: "min ?g (Suc l) = ?g" "min (Suc ?g) (Suc l) = Suc ?g" "min j (Suc l - 8 * i) = j" "min (Suc j) (Suc l - 8 * i) = Suc j"
      and l: "int j \<le> int l - 8 * int i" by auto
    have n: "nibble_at W ?g = ucast (shr (W i) (4 * j))" unfolding nibble_at_def g ..
    obtain v e where s: "adpcm_decoder_step (decoder_at W d ?g) (nibble_at W ?g) = (v, e)" by (cases "adpcm_decoder_step (decoder_at W d ?g) (nibble_at W ?g)")
    have v: "v = sample_at W d (Suc ?g)" using step_predictor [of "decoder_at W d ?g" "nibble_at W ?g"] s by (simp add: sample_at_def)
    have sh: "shr (shr (W i) (4 * j)) 4 = shr (W i) (4 * Suc j)" by (simp add: drop_bit_drop_bit)
    have "decode_nibble (int f - 8 * int i) (int l - 8 * int i) j (decoder_at W d ?g, M, b + (?g - f), shr (W i) (4 * j))
        = (decoder_at W d (Suc ?g), write_sample (sample_at W d) b f ?g M, b + (Suc ?g - f), shr (W i) (4 * Suc j))" for M
      using s v l p by (simp add: decode_nibble_def Let_def write_sample_def n [symmetric] sh)
    then show ?thesis using Suc unfolding add_Suc_right m by simp
  next
    case False
    then have m: "min ?g (Suc l) = Suc l" "min (Suc ?g) (Suc l) = Suc l" "min j (Suc l - 8 * i) = Suc l - 8 * i" "min (Suc j) (Suc l - 8 * i) = Suc l - 8 * i"
      and l: "\<not> int j \<le> int l - 8 * int i" by auto
    have "decode_nibble (int f - 8 * int i) (int l - 8 * int i) j (e, M, b + (?g - f), w) = (e, M, b + (Suc ?g - f), w)" for e M w
      using l p by (simp add: decode_nibble_def Let_def)
    then show ?thesis using Suc unfolding add_Suc_right m by simp
  qed
qed simp

lemma sint_position:
  assumes "unat n \<le> 64" "i < 8"
  shows "sint (n - 8 * of_nat i :: u32) = int (unat n) - 8 * int i"
proof -
  have "n - 8 * of_nat i = of_int (int (unat n) - 8 * int i)" by simp
  then have "sint (n - 8 * of_nat i) = signed_take_bit 31 (int (unat n) - 8 * int i)" by (simp only: signed_of_int) simp
  also have "\<dots> = int (unat n) - 8 * int i" by (rule signed_take_bit_int_eq_self) (use assms in \<open>simp_all del: of_nat_unat\<close>)
  finally show ?thesis .
qed

lemma decode_word:
  "adpcm_decode_word (decoder_at W d (min (8 * i) (Suc l))) mem (b + (8 * i - f)) (W i) (int f - 8 * int i) (int l - 8 * int i)
    = (decoder_at W d (min (8 * Suc i) (Suc l)), fold (write_sample (sample_at W d) b f) [8 * i..<min (8 * Suc i) (Suc l)] mem, b + (8 * Suc i - f))"
  using decode_nibbles [of 8 f i l W d mem b] by (simp add: adpcm_decode_word_def add.commute)

lemma fold_split: "a \<le> b \<Longrightarrow> b \<le> c \<Longrightarrow> fold h [a..<c] m = fold h [b..<c] (fold h [a..<b] m)"
  using upt_add_eq_append [of a b "c - b"] by simp

text \<open>The header of a channel, and the samples of the mono block and of the two channels of a stereo block.\<close>

definition header :: "u32 \<Rightarrow> ADPCMDecoder" where
  "header w = snd (adpcm_decode_block_setup new_decoder w)"

lemma header_setup: "adpcm_decode_block_setup new_decoder w = (sample_at W (header w) 0, header w)"
  by (simp add: header_def sample_at_def adpcm_decode_block_setup_def adpcm_decoder_initialize_def Let_def)

definition mono_sample :: "u32 list \<Rightarrow> nat \<Rightarrow> int" where
  "mono_sample data = sample_at (\<lambda>i. data ! (1 + i)) (header (data ! 0))"

definition left_sample :: "u32 list \<Rightarrow> nat \<Rightarrow> int" where
  "left_sample data = sample_at (\<lambda>i. data ! (2 + 2 * i)) (header (data ! 0))"

definition right_sample :: "u32 list \<Rightarrow> nat \<Rightarrow> int" where
  "right_sample data = sample_at (\<lambda>i. data ! (3 + 2 * i)) (header (data ! 1))"

lemma write_rounds:
  "fold (write_sample S b f) [8 * n..<min (8 * Suc n) (Suc l)] (fold (write_sample S b f) [0..<min (8 * n) (Suc l)] m)
    = fold (write_sample S b f) [0..<min (8 * Suc n) (Suc l)] m"
  by (cases "8 * n \<le> l") (simp_all add: fold_split [of 0 "8 * n", symmetric])

lemma decode_round:
  fixes first lst :: u32
  assumes "unat first \<le> 64" "unat lst \<le> 64" "n < 8"
  shows "adpcm_decode_word (decoder_at W d (min (8 * n) (Suc (unat lst)))) mem (b + (8 * n - unat first)) (W n)
      (sint (first - 8 * of_nat n)) (sint (lst - 8 * of_nat n))
    = (decoder_at W d (min (8 * Suc n) (Suc (unat lst))),
       fold (write_sample (sample_at W d) b (unat first)) [8 * n..<min (8 * Suc n) (Suc (unat lst))] mem, b + (8 * Suc n - unat first))"
  unfolding sint_position [OF assms(1,3)] sint_position [OF assms(2,3)] by (rule decode_word)

lemma mono_rounds:
  fixes first lst :: u32
  assumes "unat first \<le> 64" "unat lst \<le> 64"
  shows "n \<le> 8 \<Longrightarrow> fold (\<lambda>i (decoder, mem, samples). adpcm_decode_word decoder mem samples (W i) (sint (first - 8 * of_nat i)) (sint (lst - 8 * of_nat i)))
      [0..<n] (d, m, b)
    = (decoder_at W d (min (8 * n) (Suc (unat lst))), fold (write_sample (sample_at W d) b (unat first)) [0..<min (8 * n) (Suc (unat lst))] m,
       b + (8 * n - unat first))"
proof (induction n)
  case (Suc n)
  then have IH: "fold (\<lambda>i (decoder, mem, samples). adpcm_decode_word decoder mem samples (W i) (sint (first - 8 * of_nat i)) (sint (lst - 8 * of_nat i)))
      [0..<n] (d, m, b)
    = (decoder_at W d (min (8 * n) (Suc (unat lst))), fold (write_sample (sample_at W d) b (unat first)) [0..<min (8 * n) (Suc (unat lst))] m,
       b + (8 * n - unat first))" by simp
  have "n < 8" using Suc.prems by simp
  then show ?case unfolding upt_Suc_append [OF le0] fold_append comp_apply IH
    using decode_round [OF assms \<open>n < 8\<close>] by (simp only: fold_simps id_apply case_prod_conv write_rounds)
qed simp

lemma mono_block_writes:
  assumes "unat first \<le> 64" "unat lst \<le> 64"
  shows "adpcm_decode_mono_block mem b data first lst
    = fold (write_sample (mono_sample data) b (unat first)) [0..<min 64 (Suc (unat lst))] (mem(b := mono_sample data 0))"
proof -
  let ?W = "\<lambda>i. data ! (1 + i)" and ?d = "header (data ! 0)"
  have "adpcm_decode_mono_block mem b data first lst = fst (snd (fold (\<lambda>i (decoder, mem, samples).
      adpcm_decode_word decoder mem samples (?W i) (sint (first - 8 * of_nat i)) (sint (lst - 8 * of_nat i))) [0..<8] (?d, mem(b := mono_sample data 0), b)))"
    unfolding adpcm_decode_mono_block_def header_setup [of _ ?W] mono_sample_def by (simp add: Let_def case_prod_beta)
  then show ?thesis unfolding mono_rounds [OF assms order_refl] mono_sample_def by simp
qed

text \<open>The memory after the writes: sample \<open>f + k\<close> is in cell \<open>b + k\<close>.\<close>

lemma writes_cells:
  "f \<le> l \<Longrightarrow> fold (write_sample S b f) [0..<n] (m(b := S 0)) =
    (\<lambda>a. if a = b then S (min f n) else if b < a \<and> a \<le> b + (n - f) then S (f + (a - b)) else m a)"
proof (induction n)
  case (Suc n)
  then show ?case by (cases "Suc n \<le> f") (auto simp: write_sample_def fun_eq_iff)
qed (auto simp: fun_eq_iff)

subsection \<open>Stereo blocks\<close>

primrec stereo_writes :: "(nat \<Rightarrow> int) \<Rightarrow> (nat \<Rightarrow> int) \<Rightarrow> nat \<Rightarrow> nat \<Rightarrow> nat \<Rightarrow> nat \<Rightarrow> samples \<Rightarrow> nat \<Rightarrow> samples" where
  "stereo_writes L R bl br f l m 0 = m"
| "stereo_writes L R bl br f l m (Suc n) =
     fold (write_sample R br f) [8 * n..<min (8 * Suc n) (Suc l)]
       (fold (write_sample L bl f) [8 * n..<min (8 * Suc n) (Suc l)] (stereo_writes L R bl br f l m n))"

lemma stereo_rounds:
  fixes first lst :: u32
  assumes "unat first \<le> 64" "unat lst \<le> 64"
  defines "D \<equiv> \<lambda>W d n. decoder_at W d (min (8 * n) (Suc (unat lst)))"
  shows "n \<le> 8 \<Longrightarrow> fold (\<lambda>i (decoder_l, samples_l, decoder_r, samples_r, mem).
        let first = sint (first - 8 * of_nat i); lst = sint (lst - 8 * of_nat i);
            (decoder_l, mem, samples_l) = adpcm_decode_word decoder_l mem samples_l (U i) first lst;
            (decoder_r, mem, samples_r) = adpcm_decode_word decoder_r mem samples_r (V i) first lst
        in (decoder_l, samples_l, decoder_r, samples_r, mem)) [0..<n] (d, bl, e, br, m)
    = (D U d n, bl + (8 * n - unat first), D V e n, br + (8 * n - unat first),
       stereo_writes (sample_at U d) (sample_at V e) bl br (unat first) (unat lst) m n)"
proof (induction n)
  case (Suc n)
  have n: "n \<le> 8" "n < 8" using Suc.prems by simp_all
  note r = decode_round [OF assms(1,2) n(2)]
  show ?case unfolding upt_Suc_append [OF le0] fold_append comp_apply Suc.IH [OF n(1)] D_def
    by (simp only: fold_simps id_apply case_prod_conv Let_def r stereo_writes.simps)
qed (simp add: D_def)

lemma stereo_block_writes:
  assumes "unat first \<le> 64" "unat lst \<le> 64"
  shows "adpcm_decode_stereo_block mem bl br data first lst
    = stereo_writes (left_sample data) (right_sample data) bl br (unat first) (unat lst)
        (mem(bl := left_sample data 0, br := right_sample data 0)) 8"
proof -
  let ?U = "\<lambda>i. data ! (2 + 2 * i)" and ?V = "\<lambda>i. data ! (3 + 2 * i)"
  show ?thesis unfolding adpcm_decode_stereo_block_def header_setup [of "data ! 0" ?U] header_setup [of "data ! 1" ?V]
      left_sample_def right_sample_def Let_def [of "(sample_at _ _ 0, header _)"] case_prod_conv
    using stereo_rounds [OF assms order_refl, of ?U ?V "header (data ! 0)" bl "header (data ! 1)" br]
    by (simp only: Let_def case_prod_conv)
qed

text \<open>The writes of a round when one position \<open>p\<close> is asked for.\<close>

lemma single_writes:
  "x \<le> y \<Longrightarrow> fold (write_sample S b p) [x..<min y (Suc p)] m =
    (\<lambda>a. if a = b \<and> x < p \<and> x < y then S (min p y) else if a = Suc b \<and> x \<le> p \<and> p < y then S (Suc p) else m a)"
proof (induction y)
  case (Suc y)
  show ?case
  proof (cases "x = Suc y")
    case False
    then have x: "x \<le> y" using Suc.prems by simp
    note IH = Suc.IH [OF x]
    consider "y < p" | "y = p" | "p < y" by linarith
    then show ?thesis
    proof cases
      case 1
      then show ?thesis using IH x by (auto simp: write_sample_def fun_eq_iff)
    next
      case 2
      then show ?thesis using IH x by (auto simp: write_sample_def fun_eq_iff)
    next
      case 3
      then show ?thesis using IH x by (auto simp: fun_eq_iff)
    qed
  qed (auto simp: fun_eq_iff)
qed (auto simp: fun_eq_iff)

lemma stereo_single_round:
  "stereo_writes L R 0 1 p p m (Suc n) a =
    (if a = 1 \<and> 8 * n < p then R (min p (8 * Suc n)) else if a = 2 \<and> 8 * n \<le> p \<and> p < 8 * Suc n then R (Suc p)
     else if a = 0 \<and> 8 * n < p then L (min p (8 * Suc n)) else if a = 1 \<and> 8 * n \<le> p \<and> p < 8 * Suc n then L (Suc p)
     else stereo_writes L R 0 1 p p m n a)"
proof -
  have x: "8 * n \<le> 8 * Suc n" "8 * n < 8 * Suc n" by simp_all
  show ?thesis unfolding stereo_writes.simps single_writes [OF x(1)] using x(2) by auto
qed

lemma stereo_single_cells:
  assumes "m 0 = L 0" "m 1 = R 0"
  shows "stereo_writes L R 0 1 p p m n 0 = L (min p (8 * n))
    \<and> stereo_writes L R 0 1 p p m n 1 = (if 8 dvd p \<and> p < 8 * n then L (Suc p) else R (min p (8 * n)))"
proof (induction n)
  case (Suc n)
  consider "p < 8 * n" | "p = 8 * n" | "8 * n < p" "p < 8 * Suc n" "\<not> 8 dvd p" | "8 * Suc n \<le> p"
    by (metis dvd_mult_div_cancel less_Suc_eq mult_less_cancel1 not_less_iff_gr_or_eq not_less)
  then show ?case unfolding stereo_single_round by cases (use Suc in simp_all)
qed (use assms in simp)

subsection \<open>Bounds\<close>

lemma index_table_bounds: "k < 16 \<Longrightarrow> - 1 \<le> ima_index_table ! k \<and> ima_index_table ! k \<le> 8"
proof -
  assume "k < 16"
  then have "ima_index_table ! k \<in> set ima_index_table" by (intro nth_mem) (simp add: ima_index_table_def)
  then show ?thesis by (auto simp: ima_index_table_def)
qed

lemma step_bounds:
  "- 32768 \<le> predictor (snd (adpcm_decoder_step d n)) \<and> predictor (snd (adpcm_decoder_step d n)) \<le> 32767
    \<and> - 1 \<le> step_index (snd (adpcm_decoder_step d n)) \<and> step_index (snd (adpcm_decoder_step d n)) \<le> 96"
proof -
  have "unat (n AND 0xF) < 16" using unat_and_mask [of n 4] by (simp add: mask_eq_exp_minus_1)
  then have "- 1 \<le> ima_index_table ! unat (n AND 0xF) \<and> ima_index_table ! unat (n AND 0xF) \<le> 8" by (rule index_table_bounds)
  then show ?thesis by (simp add: adpcm_decoder_step_def Let_def)
qed

lemma decoder_bounds:
  "- 32768 \<le> sample_at W (header w) g \<and> sample_at W (header w) g \<le> 32767
    \<and> - 128 \<le> step_index (decoder_at W (header w) g) \<and> step_index (decoder_at W (header w) g) \<le> 127"
proof (cases g)
  case 0
  show ?thesis using sint_greater_eq [of "ucast w :: u16"] sint_less [of "ucast w :: u16"]
      sint_greater_eq [of "ucast (shr w 16) :: u8"] sint_less [of "ucast (shr w 16) :: u8"] unfolding 0
    by (simp add: sample_at_def header_def adpcm_decode_block_setup_def adpcm_decoder_initialize_def Let_def)
next
  case (Suc k)
  show ?thesis using step_bounds [of "decoder_at W (header w) k" "nibble_at W k"] unfolding Suc sample_at_def by simp
qed

subsection \<open>Properties\<close>

text \<open>C34: Decoding a mono block writes the samples from \<open>first\<close> on, in order: sample \<open>first + k\<close> of the block goes to
  cell \<open>k\<close> of the output. It writes one sample more than the range \<open>first\<close> to \<open>last\<close> has, unless \<open>last\<close> is the last
  sample of the block, and nothing else.\<close>

theorem adpcm_mono_block_samples:
  assumes "unat first \<le> unat lst" and "unat lst \<le> 64"
  shows "adpcm_decode_mono_block mem b data first lst =
    (\<lambda>a. if b \<le> a \<and> a - b \<le> min 64 (Suc (unat lst)) - unat first then mono_sample data (unat first + (a - b)) else mem a)"
proof -
  have "unat first \<le> 64" using assms by simp
  then show ?thesis unfolding mono_block_writes [OF \<open>unat first \<le> 64\<close> assms(2)] writes_cells [OF assms(1)]
    using assms by (auto simp: fun_eq_iff)
qed

theorem adpcm_mono_block_samples_witness:
  "adpcm_decode_mono_block (\<lambda>a. 0) 0 [0x00100064, 0x12345678, 0x9ABCDEF0, 1, 2, 3, 4, 5, 6] 9 9 =
    (\<lambda>a. if 0 \<le> a \<and> a - 0 \<le> min 64 (Suc (unat (9 :: u32))) - unat (9 :: u32)
      then mono_sample [0x00100064, 0x12345678, 0x9ABCDEF0, 1, 2, 3, 4, 5, 6] (unat (9 :: u32) + (a - 0)) else 0)"
  by (rule adpcm_mono_block_samples) simp_all

text \<open>C35: Decoding one position of a stereo block into two adjacent cells, as the voice processor does: the first cell
  gets the left sample of the position; the second gets the right sample only if the position is not a multiple of
  8 below 64, and otherwise the left sample of the next position, which the left decoder has written over it.\<close>

theorem adpcm_stereo_clobbers:
  assumes "unat p \<le> 64"
  shows "adpcm_decode_stereo_block mem 0 1 data p p 0 = left_sample data (unat p)
    \<and> adpcm_decode_stereo_block mem 0 1 data p p 1 =
      (if 8 dvd unat p \<and> unat p < 64 then left_sample data (Suc (unat p)) else right_sample data (unat p))"
  using stereo_single_cells [of "mem(0 := left_sample data 0, 1 := right_sample data 0)" "left_sample data" "right_sample data" "unat p" 8] assms
  unfolding stereo_block_writes [OF assms assms] by simp

theorem adpcm_stereo_clobbers_witness:
  "adpcm_decode_stereo_block (\<lambda>a. 0) 0 1 (0x00200000 # 0x00200190 # 0x7 # 0x7 # replicate 14 0) 0 0 1 = 293
    \<and> right_sample (0x00200000 # 0x00200190 # 0x7 # 0x7 # replicate 14 0) 0 = 400"
proof -
  let ?data = "0x00200000 # 0x00200190 # 0x7 # 0x7 # replicate 14 0"
  have "left_sample ?data 1 = 293" "right_sample ?data 0 = 400" by code_simp+
  then show ?thesis using adpcm_stereo_clobbers [of 0 "\<lambda>a. 0" ?data] by simp
qed

text \<open>C36: Every sample of a mono block fits 16 bits, whatever the data, and the step index stays within a signed byte.\<close>

theorem adpcm_samples_bounds:
  "- 32768 \<le> mono_sample data g \<and> mono_sample data g \<le> 32767
    \<and> - 128 \<le> step_index (decoder_at (\<lambda>i. data ! (1 + i)) (header (data ! 0)) g)
    \<and> step_index (decoder_at (\<lambda>i. data ! (1 + i)) (header (data ! 0)) g) \<le> 127"
  unfolding mono_sample_def by (rule decoder_bounds)

end
