(* ===== verification/Apu_Dma.thy ===== *)
theory Apu_Dma
  imports Prelude
begin

text \<open>
  The memory accessors of the audio unit, \<open>mcpx_apu.c\<close>: scatter-gather transfers between a buffer and guest
  memory, the circular transfers of the FIFOs, and the functions the two DSPs get as their \<open>scratch_rw\<close> and
  \<open>fifo_rw\<close>.

  Guest memory is a function of the physical address; a buffer is a list of bytes with a position for the
  pointer. Reading a descriptor goes through the memory system of the emulator, \<open>ldl_le_phys\<close>: it is the parameter
  \<open>ldl\<close>, a function of the contents of memory and of the address. A failed assertion, and a loop that makes no
  progress, is \<open>None\<close>.
\<close>

subsection \<open>State\<close>

record MCPXAPUState =
  apu_regs :: "u32 \<Rightarrow> u32"
  ram :: "nat \<Rightarrow> u8"
  ram_size :: nat

type_synonym ldl = "(nat \<Rightarrow> u8) \<Rightarrow> nat \<Rightarrow> u32"

text \<open>\<open>memcpy\<close> to and from guest memory.\<close>

definition poke :: "(nat \<Rightarrow> u8) \<Rightarrow> nat \<Rightarrow> u8 list \<Rightarrow> nat \<Rightarrow> u8" where
  "poke m p bs = (\<lambda>x. if p \<le> x \<and> x < p + length bs then bs ! (x - p) else m x)"

definition overlay :: "u8 list \<Rightarrow> nat \<Rightarrow> u8 list \<Rightarrow> u8 list" where
  "overlay buf pos bs = take pos buf @ bs @ drop (pos + length bs) buf"

subsection \<open>Scatter-gather transfers\<close>

function scatter_gather_loop ::
  "ldl \<Rightarrow> MCPXAPUState \<Rightarrow> u32 \<Rightarrow> u32 \<Rightarrow> u8 list \<Rightarrow> nat \<Rightarrow> u32 \<Rightarrow> u32 \<Rightarrow> nat \<Rightarrow> nat \<Rightarrow> bool \<Rightarrow> (MCPXAPUState \<times> u8 list) option" where
  "scatter_gather_loop ldl d sge_base max_sge buf pos page_entry offset_in_page bytes_to_copy len dir =
     (if len = 0 then Some (d, buf)
      else if bytes_to_copy = 0 then None
      else if \<not> page_entry \<le> max_sge then None
      else
        let prd_address = ldl (ram d) (unat sge_base + unat (page_entry * 8));
            paddr = unat (prd_address + offset_in_page);
            n = min bytes_to_copy len
        in if \<not> paddr + n < ram_size d then None
           else
             let (d, buf) = (if dir then (d\<lparr>ram := poke (ram d) paddr (take n (drop pos buf))\<rparr>, buf)
                             else (d, overlay buf pos (map (ram d) [paddr..<paddr + n])))
             in scatter_gather_loop ldl d sge_base max_sge buf (pos + n) (page_entry + 1) 0 0x1000 (len - n) dir)"
  by pat_completeness auto
termination by (relation "measure (\<lambda>(_, _, _, _, _, _, _, _, _, len, _). len)") auto

definition scatter_gather_rw ::
  "ldl \<Rightarrow> MCPXAPUState \<Rightarrow> u32 \<Rightarrow> u32 \<Rightarrow> u8 list \<Rightarrow> nat \<Rightarrow> u32 \<Rightarrow> nat \<Rightarrow> bool \<Rightarrow> (MCPXAPUState \<times> u8 list) option" where
  "scatter_gather_rw ldl d sge_base max_sge buf pos addr len dir =
     scatter_gather_loop ldl d sge_base max_sge buf pos (addr div 0x1000) (addr mod 0x1000) (0x1000 - unat (addr mod 0x1000)) len dir"

abbreviation "NV_PAPU_GPSADDR \<equiv> 0x2040 :: u32"
abbreviation "NV_PAPU_GPFADDR \<equiv> 0x2044 :: u32"
abbreviation "NV_PAPU_EPSADDR \<equiv> 0x2048 :: u32"
abbreviation "NV_PAPU_EPFADDR \<equiv> 0x204C :: u32"
abbreviation "NV_PAPU_GPSMAXSGE \<equiv> 0x20D4 :: u32"
abbreviation "NV_PAPU_GPFMAXSGE \<equiv> 0x20D8 :: u32"
abbreviation "NV_PAPU_EPSMAXSGE \<equiv> 0x20DC :: u32"
abbreviation "NV_PAPU_EPFMAXSGE \<equiv> 0x20E0 :: u32"

definition gp_scratch_rw :: "ldl \<Rightarrow> MCPXAPUState \<Rightarrow> u8 list \<Rightarrow> u32 \<Rightarrow> nat \<Rightarrow> bool \<Rightarrow> (MCPXAPUState \<times> u8 list) option" where
  "gp_scratch_rw ldl d buf addr len dir =
     scatter_gather_rw ldl d (apu_regs d NV_PAPU_GPSADDR) (apu_regs d NV_PAPU_GPSMAXSGE) buf 0 addr len dir"

definition ep_scratch_rw :: "ldl \<Rightarrow> MCPXAPUState \<Rightarrow> u8 list \<Rightarrow> u32 \<Rightarrow> nat \<Rightarrow> bool \<Rightarrow> (MCPXAPUState \<times> u8 list) option" where
  "ep_scratch_rw ldl d buf addr len dir =
     scatter_gather_rw ldl d (apu_regs d NV_PAPU_EPSADDR) (apu_regs d NV_PAPU_EPSMAXSGE) buf 0 addr len dir"

subsection \<open>FIFOs\<close>

function circular_loop ::
  "ldl \<Rightarrow> MCPXAPUState \<Rightarrow> u32 \<Rightarrow> u32 \<Rightarrow> u8 list \<Rightarrow> nat \<Rightarrow> u32 \<Rightarrow> u32 \<Rightarrow> u32 \<Rightarrow> nat \<Rightarrow> bool \<Rightarrow> (MCPXAPUState \<times> u8 list \<times> u32) option" where
  "circular_loop ldl d sge_base max_sge buf pos base fin cur len dir =
     (if len = 0 then Some (d, buf, cur)
      else
        let n = min (unat (fin - cur)) len
        in if \<not> (base \<le> cur \<and> cur + of_nat n \<le> fin) then None
           else if n = 0 then
             if base = fin then None else circular_loop ldl d sge_base max_sge buf pos base fin base len dir
           else case scatter_gather_rw ldl d sge_base max_sge buf pos cur n dir of
                  None \<Rightarrow> None
                | Some (d, buf) \<Rightarrow>
                    let cur = cur + of_nat n
                    in if fin \<le> cur \<and> cur \<noteq> fin then None
                       else circular_loop ldl d sge_base max_sge buf (pos + n) base fin (if fin \<le> cur then base else cur) (len - n) dir)"
  by pat_completeness auto
termination by (relation "measure (\<lambda>(_, _, _, _, _, _, _, fin, cur, len, _). 2 * len + of_bool (cur = fin))")
    (auto simp: min_def unsigned_eq_0_iff split: if_splits)

definition circular_scatter_gather_rw ::
  "ldl \<Rightarrow> MCPXAPUState \<Rightarrow> u32 \<Rightarrow> u32 \<Rightarrow> u8 list \<Rightarrow> u32 \<Rightarrow> u32 \<Rightarrow> u32 \<Rightarrow> nat \<Rightarrow> bool \<Rightarrow> (MCPXAPUState \<times> u8 list \<times> u32) option" where
  "circular_scatter_gather_rw ldl d sge_base max_sge buf base fin cur len dir =
     circular_loop ldl d sge_base max_sge buf 0 base fin cur len dir"

text \<open>(With nothing to copy, the pointer is at the end and wraps; if the range is empty the loop does not end.)\<close>

text \<open>\<open>GET_MASK\<close> and \<open>SET_MASK\<close> shift a field to its lowest bit.\<close>

definition base_field :: "u32 \<Rightarrow> u32" where "base_field v = shr (v AND 0x00FFFF00) 8"
definition cur_field :: "u32 \<Rightarrow> u32" where "cur_field v = shr (v AND 0x00FFFFFC) 2"
definition set_cur_field :: "u32 \<Rightarrow> u32 \<Rightarrow> u32" where
  "set_cur_field v x = (v AND NOT 0x00FFFFFC) OR (shl x 2 AND 0x00FFFFFC)"

definition fifo_transfer ::
  "ldl \<Rightarrow> MCPXAPUState \<Rightarrow> u32 \<Rightarrow> u32 \<Rightarrow> u32 \<Rightarrow> u32 \<Rightarrow> u32 \<Rightarrow> u8 list \<Rightarrow> nat \<Rightarrow> bool \<Rightarrow> (MCPXAPUState \<times> u8 list) option" where
  "fifo_transfer ldl d sge_base max_sge base fin cur_reg buf len dir = do {
     let cur = cur_field (apu_regs d cur_reg);
     assert (cur < fin);
     let cur = (if cur < base then base else cur);
     (d, buf, cur) \<leftarrow> circular_scatter_gather_rw ldl d sge_base max_sge buf base fin cur len dir;
     Some (d\<lparr>apu_regs := (apu_regs d)(cur_reg := set_cur_field (apu_regs d cur_reg) cur)\<rparr>, buf) }"

definition gp_fifo_rw :: "ldl \<Rightarrow> MCPXAPUState \<Rightarrow> u8 list \<Rightarrow> u32 \<Rightarrow> nat \<Rightarrow> bool \<Rightarrow> (MCPXAPUState \<times> u8 list) option" where
  "gp_fifo_rw ldl d buf index len dir = do {
     assert (index < (if dir then 4 else 2));
     let base = base_field (apu_regs d ((if dir then 0x3024 else 0x3064) + 0x10 * index));
     let fin = base_field (apu_regs d ((if dir then 0x3028 else 0x3068) + 0x10 * index));
     let cur_reg = (if dir then 0x302C else 0x306C) + 0x10 * index;
     fifo_transfer ldl d (apu_regs d NV_PAPU_GPFADDR) (apu_regs d NV_PAPU_GPFMAXSGE) base fin cur_reg buf len dir }"

definition ep_fifo_rw :: "ldl \<Rightarrow> MCPXAPUState \<Rightarrow> u8 list \<Rightarrow> u32 \<Rightarrow> nat \<Rightarrow> bool \<Rightarrow> (MCPXAPUState \<times> u8 list) option" where
  "ep_fifo_rw ldl d buf index len dir = do {
     assert (index < (if dir then 4 else 2));
     let base = base_field (apu_regs d ((if dir then 0x4024 else 0x4064) + 0x10 * index));
     let fin = base_field (apu_regs d ((if dir then 0x4028 else 0x4068) + 0x10 * index));
     let cur_reg = (if dir then 0x402C else 0x406C) + 0x10 * index;
     fifo_transfer ldl d (apu_regs d NV_PAPU_EPFADDR) (apu_regs d NV_PAPU_EPFMAXSGE) base fin cur_reg buf len dir }"

declare scatter_gather_loop.simps [simp del] circular_loop.simps [simp del]

subsection \<open>The address space of a descriptor table\<close>

text \<open>A table \<open>T\<close> of page addresses makes physical addresses of linear ones. Bytes are stored at and loaded from a list
  of physical addresses.\<close>

definition translate :: "(nat \<Rightarrow> u32) \<Rightarrow> nat \<Rightarrow> nat" where
  "translate T a = unat (T (a div 0x1000)) + a mod 0x1000"

definition store_at :: "(nat \<Rightarrow> u8) \<Rightarrow> nat list \<Rightarrow> u8 list \<Rightarrow> nat \<Rightarrow> u8" where
  "store_at m ps bs = fold (\<lambda>(p, b) m. m(p := b)) (zip ps bs) m"

lemma store_at_append:
  "length ps = length bs \<Longrightarrow> store_at m (ps @ qs) (bs @ cs) = store_at (store_at m ps bs) qs cs"
  by (simp add: store_at_def)

lemma store_at_outside: "length ps = length bs \<Longrightarrow> x \<notin> set ps \<Longrightarrow> store_at m ps bs x = m x"
  unfolding store_at_def by (induction ps bs arbitrary: m rule: list_induct2) auto

lemma store_at_range: "store_at m [p..<p + length bs] bs = poke m p bs"
proof (induction bs arbitrary: m p)
  case (Cons b bs)
  have "store_at m [p..<p + length (b # bs)] (b # bs) = store_at (m(p := b)) [Suc p..<Suc p + length bs] bs"
    by (simp add: store_at_def upt_conv_Cons del: upt_Suc)
  also have "\<dots> = poke (m(p := b)) (Suc p) bs" by (rule Cons.IH)
  also have "\<dots> = poke m p (b # bs)" by (auto simp: poke_def fun_eq_iff nth_Cons')
  finally show ?case .
qed (auto simp: store_at_def poke_def fun_eq_iff)

lemma map_store_at: "length ps = length bs \<Longrightarrow> distinct ps \<Longrightarrow> map (store_at m ps bs) ps = bs"
proof (induction ps bs arbitrary: m rule: list_induct2)
  case (Cons p ps b bs)
  have "store_at m (p # ps) (b # bs) = store_at (m(p := b)) ps bs" by (simp add: store_at_def)
  then show ?case using Cons store_at_outside [of ps bs p "m(p := b)"] by simp
qed simp

lemma overlay_overlay:
  "pos + length bs + length cs \<le> length buf \<Longrightarrow> overlay (overlay buf pos bs) (pos + length bs) cs = overlay buf pos (bs @ cs)"
  by (simp add: overlay_def ac_simps)

lemma length_overlay: "pos + length bs \<le> length buf \<Longrightarrow> length (overlay buf pos bs) = length buf"
  by (simp add: overlay_def)

lemma take_drop_split: "n \<le> len \<Longrightarrow> take len (drop pos buf) = take n (drop pos buf) @ take (len - n) (drop (pos + n) buf)"
  by (metis add.commute drop_drop le_add_diff_inverse take_add)

text \<open>Within a page the translation is an offset.\<close>

lemma page_offset:
  "r + i < 0x1000 \<Longrightarrow> (q * 0x1000 + r + i) div 0x1000 = q \<and> (q * 0x1000 + r + i) mod 0x1000 = r + (i :: nat)"
  by (simp add: add.assoc)

lemma translate_page:
  assumes "n \<le> 0x1000 - a mod 0x1000"
  shows "map (translate T) [a..<a + n] = [translate T a..<translate T a + n]"
proof (rule nth_equalityI)
  fix i
  assume "i < length (map (translate T) [a..<a + n])"
  then have "i < n" by simp
  then have "a mod 0x1000 + i < 0x1000" using assms by simp
  from page_offset [OF this, of "a div 0x1000"] have "(a + i) div 0x1000 = a div 0x1000" "(a + i) mod 0x1000 = a mod 0x1000 + i"
    by simp_all
  then show "map (translate T) [a..<a + n] ! i = [translate T a..<translate T a + n] ! i" using \<open>i < n\<close> by (simp add: translate_def)
qed simp

subsection \<open>Transfers follow the table\<close>

text \<open>The descriptors are those of the table \<open>T\<close> as long as memory is only changed in the region \<open>V\<close> of the transfers,
  and the pages of the linear addresses in \<open>A\<close> are valid and lie in that region.\<close>

definition table_ok :: "ldl \<Rightarrow> MCPXAPUState \<Rightarrow> u32 \<Rightarrow> u32 \<Rightarrow> (nat \<Rightarrow> u32) \<Rightarrow> nat set \<Rightarrow> bool" where
  "table_ok ldl d sge_base max_sge T A \<longleftrightarrow> ram_size d \<le> 2 ^ 32
     \<and> (\<forall>a \<in> A. a < 2 ^ 32 \<and> a div 0x1000 \<le> unat max_sge \<and> unat (T (a div 0x1000)) + 0x1000 < ram_size d
        \<and> (\<forall>m. (\<forall>x. x \<notin> translate T ` A \<longrightarrow> m x = ram d x)
             \<longrightarrow> ldl m (unat sge_base + unat (of_nat (a div 0x1000) * 8 :: u32)) = T (a div 0x1000)))"

lemma table_ok_update:
  assumes "table_ok ldl d sge_base max_sge T A" and "ram_size e = ram_size d" and "\<And>x. x \<notin> translate T ` A \<Longrightarrow> ram e x = ram d x"
  shows "table_ok ldl e sge_base max_sge T A"
  using assms unfolding table_ok_def by simp

lemma table_okD:
  assumes "table_ok ldl d sge_base max_sge T A" "a \<in> A"
  shows "of_nat (a div 0x1000) \<le> max_sge" "ldl (ram d) (unat sge_base + unat (of_nat (a div 0x1000) * 8 :: u32)) = T (a div 0x1000)"
    "unat (T (a div 0x1000) + of_nat (a mod 0x1000)) = translate T a" "unat (T (a div 0x1000)) + 0x1000 < ram_size d"
proof -
  have b: "a < 2 ^ 32" "a div 0x1000 \<le> unat max_sge" "unat (T (a div 0x1000)) + 0x1000 < ram_size d" "ram_size d \<le> 2 ^ 32"
    using assms unfolding table_ok_def by blast+
  show "unat (T (a div 0x1000)) + 0x1000 < ram_size d" by (rule b(3))
  show "ldl (ram d) (unat sge_base + unat (of_nat (a div 0x1000) * 8 :: u32)) = T (a div 0x1000)"
    using assms unfolding table_ok_def by blast
  have "a div 0x1000 < 2 ^ 32" using b(1) div_le_dividend [of a "0x1000"] by linarith
  then have "unat (of_nat (a div 0x1000) :: u32) = a div 0x1000" by (rule unat_of_nat_small)
  then show "of_nat (a div 0x1000) \<le> max_sge" using b(2) by (simp add: word_le_nat_alt)
  have m: "a mod 0x1000 < 0x1000" by simp
  then have "unat (of_nat (a mod 0x1000) :: u32) = a mod 0x1000" by (intro unat_of_nat_small order.strict_trans [OF m]) simp
  then show "unat (T (a div 0x1000) + of_nat (a mod 0x1000)) = translate T a"
    using unat_add_small [of "T (a div 0x1000)" "of_nat (a mod 0x1000)"] b(3,4) m by (simp add: translate_def)
qed

definition transferred :: "bool \<Rightarrow> MCPXAPUState \<Rightarrow> u8 list \<Rightarrow> nat \<Rightarrow> nat list \<Rightarrow> MCPXAPUState \<times> u8 list" where
  "transferred dir d buf pos ps =
     (if dir then (d\<lparr>ram := store_at (ram d) ps (take (length ps) (drop pos buf))\<rparr>, buf) else (d, overlay buf pos (map (ram d) ps)))"

lemma transferred_Nil [simp]: "transferred dir d buf pos [] = (d, buf)"
  by (simp add: transferred_def store_at_def overlay_def)

lemma transferred_append:
  assumes "pos + length ps + length qs \<le> length buf" and "transferred dir d buf pos ps = (e, buf')"
  shows "transferred dir d buf pos (ps @ qs) = transferred dir e buf' (pos + length ps) qs"
proof (cases dir)
  case True
  have "take (length (ps @ qs)) (drop pos buf) = take (length ps) (drop pos buf) @ take (length qs) (drop (pos + length ps) buf)"
    using take_drop_split [of "length ps" "length (ps @ qs)" pos buf] by simp
  moreover have "length ps = length (take (length ps) (drop pos buf))" using assms(1) by simp
  ultimately show ?thesis using assms(2) True store_at_append [of ps "take (length ps) (drop pos buf)" "ram d" qs "take (length qs) (drop (pos + length ps) buf)"]
    by (auto simp: transferred_def)
next
  case False
  then show ?thesis using assms overlay_overlay [of pos "map (ram d) ps" "map (ram d) qs" buf] by (auto simp: transferred_def)
qed

lemma transferred_keeps:
  assumes "transferred dir d buf pos ps = (e, buf')" "pos + length ps \<le> length buf"
  shows "ram_size e = ram_size d" "apu_regs e = apu_regs d" "length buf' = length buf" "\<And>x. x \<notin> set ps \<Longrightarrow> ram e x = ram d x"
  using assms store_at_outside [of ps "take (length ps) (drop pos buf)"] length_overlay [of pos "map (ram d) ps" buf]
  by (auto simp: transferred_def split: if_splits)

lemma transferred_page:
  assumes "n \<le> 0x1000 - a mod 0x1000" "pos + n \<le> length buf"
  shows "transferred dir d buf pos (map (translate T) [a..<a + n]) =
    (if dir then (d\<lparr>ram := poke (ram d) (translate T a) (take n (drop pos buf))\<rparr>, buf)
     else (d, overlay buf pos (map (ram d) [translate T a..<translate T a + n])))"
proof -
  have l: "length (take n (drop pos buf)) = n" using assms(2) by simp
  show ?thesis using store_at_range [of "ram d" "translate T a" "take n (drop pos buf)"]
    unfolding translate_page [OF assms(1)] transferred_def l by simp
qed

lemma next_page:
  "((a :: nat) + (0x1000 - a mod 0x1000)) mod 0x1000 = 0" "(a + (0x1000 - a mod 0x1000)) div 0x1000 = a div 0x1000 + 1"
proof -
  have "a = q * 0x1000 + r \<Longrightarrow> r < 0x1000 \<Longrightarrow> a + (0x1000 - r) = (q + 1) * 0x1000" for q r by simp
  from this [OF div_mod_decomp mod_less_divisor [OF zero_less_numeral]]
  have "a + (0x1000 - a mod 0x1000) = (a div 0x1000 + 1) * 0x1000" .
  then show "(a + (0x1000 - a mod 0x1000)) mod 0x1000 = 0" "(a + (0x1000 - a mod 0x1000)) div 0x1000 = a div 0x1000 + 1"
    by (metis mod_mult_self2_is_0, metis nonzero_mult_div_cancel_right zero_neq_numeral)
qed

lemma loop_step:
  assumes "0 < len" "0 < btc" "page \<le> max_sge" "ldl (ram d) (unat sge_base + unat (page * 8)) = prd" "unat (prd + off) = p"
    "p + n < ram_size d" "n = min btc len"
    "(if dir then (d\<lparr>ram := poke (ram d) p (take n (drop pos buf))\<rparr>, buf) else (d, overlay buf pos (map (ram d) [p..<p + n]))) = (e, buf')"
  shows "scatter_gather_loop ldl d sge_base max_sge buf pos page off btc len dir
    = scatter_gather_loop ldl e sge_base max_sge buf' (pos + n) (page + 1) 0 0x1000 (len - n) dir"
proof -
  have "\<not> len = 0" "\<not> btc = 0" "\<not> \<not> page \<le> max_sge" "\<not> \<not> p + n < ram_size d" using assms(1,2,3,6) by simp_all
  then show ?thesis
    by (subst scatter_gather_loop.simps) (simp only: if_False Let_def assms(4,5) assms(7) [symmetric] assms(8) case_prod_conv simp_thms)
qed

lemma loop_spec:
  "table_ok ldl d sge_base max_sge T A \<Longrightarrow> {a..<a + len} \<subseteq> A \<Longrightarrow> pos + len \<le> length buf
    \<Longrightarrow> scatter_gather_loop ldl d sge_base max_sge buf pos (of_nat (a div 0x1000)) (of_nat (a mod 0x1000)) (0x1000 - a mod 0x1000) len dir
      = Some (transferred dir d buf pos (map (translate T) [a..<a + len]))"
proof (induction len arbitrary: d buf pos a rule: less_induct)
  case (less len)
  show ?case
  proof (cases "len = 0")
    case True
    then show ?thesis by (subst scatter_gather_loop.simps) simp
  next
    case False
    define n where "n = min (0x1000 - a mod 0x1000) len"
    have aA: "a \<in> A" using less.prems(2) False by auto
    note t = table_okD [OF less.prems(1) aA]
    have n: "0 < n" "n \<le> 0x1000 - a mod 0x1000" "n \<le> len" "pos + n \<le> length buf" using False less.prems(3) by (simp_all add: n_def)
    have "a mod 0x1000 + n \<le> 0x1000" using n(2) by simp
    then have s: "translate T a + n < ram_size d" using t(4) unfolding translate_def by linarith
    obtain e buf' where e: "transferred dir d buf pos (map (translate T) [a..<a + n]) = (e, buf')" by (metis surj_pair)
    have "pos + length (map (translate T) [a..<a + n]) \<le> length buf" using n(4) by simp
    note k = transferred_keeps [OF e this]
    have sub: "{a..<a + n} \<subseteq> A" "{a + n..<a + n + (len - n)} \<subseteq> A"
      using less.prems(2) n(3) by (auto simp: subset_iff)
    have te: "table_ok ldl e sge_base max_sge T A"
      by (rule table_ok_update [OF less.prems(1) k(1) k(4)]) (use sub(1) in auto)
    have "scatter_gather_loop ldl d sge_base max_sge buf pos (of_nat (a div 0x1000)) (of_nat (a mod 0x1000)) (0x1000 - a mod 0x1000) len dir
        = scatter_gather_loop ldl e sge_base max_sge buf' (pos + n) (of_nat (a div 0x1000) + 1) 0 0x1000 (len - n) dir"
    proof (rule loop_step)
      show "0 < len" "0 < 0x1000 - a mod 0x1000" using False by simp_all
    qed (fact t(1) t(2) t(3) s n_def e [unfolded transferred_page [OF n(2,4)]])+
    also have "\<dots> = Some (transferred dir e buf' (pos + n) (map (translate T) [a + n..<a + len]))"
    proof (cases "len = n")
      case True
      then show ?thesis by (subst scatter_gather_loop.simps) simp
    next
      case more: False
      then have "n = 0x1000 - a mod 0x1000" using n(3) by (simp add: n_def min_def split: if_splits)
      then have m: "(a + n) mod 0x1000 = 0" "(a + n) div 0x1000 = a div 0x1000 + 1" by (simp_all only: next_page)
      have l: "len - n < len" "pos + n + (len - n) \<le> length buf'" using k(3) n(1,3) less.prems(3) False by simp_all
      from less.IH [OF l(1) te sub(2) l(2)] n(3) show ?thesis unfolding m by (simp add: add.commute [of 1])
    qed
    also have "\<dots> = Some (transferred dir d buf pos (map (translate T) [a..<a + len]))"
    proof -
      have u: "map (translate T) [a..<a + len] = map (translate T) [a..<a + n] @ map (translate T) [a + n..<a + len]"
        using upt_add_eq_append [of a "a + n" "len - n"] n(3) by (simp flip: map_append)
      have "transferred dir d buf pos (map (translate T) [a..<a + n] @ map (translate T) [a + n..<a + len])
          = transferred dir e buf' (pos + length (map (translate T) [a..<a + n])) (map (translate T) [a + n..<a + len])"
        by (rule transferred_append [OF _ e]) (use n(3) less.prems(3) in simp)
      then show ?thesis unfolding u by simp
    qed
    finally show ?thesis .
  qed
qed

lemma scatter_gather_spec:
  assumes "table_ok ldl d sge_base max_sge T A" "{unat addr..<unat addr + len} \<subseteq> A" "pos + len \<le> length buf"
  shows "scatter_gather_rw ldl d sge_base max_sge buf pos addr len dir = Some (transferred dir d buf pos (map (translate T) [unat addr..<unat addr + len]))"
proof -
  have "addr div 0x1000 = of_nat (unat addr div 0x1000)" "addr mod 0x1000 = of_nat (unat addr mod 0x1000)"
    by (simp_all add: word_arith_nat_div word_arith_nat_mod)
  moreover have "unat (addr mod 0x1000) = unat addr mod 0x1000" by (simp add: unat_mod_distrib)
  ultimately show ?thesis using loop_spec [OF assms] unfolding scatter_gather_rw_def by simp
qed

text \<open>The addresses of a FIFO from the current one on.\<close>

definition ring :: "nat \<Rightarrow> nat \<Rightarrow> nat \<Rightarrow> nat \<Rightarrow> nat" where
  "ring base fin cur i = base + (cur - base + i) mod (fin - base)"

lemma ring_bounds: "base < fin \<Longrightarrow> base \<le> ring base fin cur i \<and> ring base fin cur i < fin"
  using mod_less_divisor [of "fin - base" "cur - base + i"] unfolding ring_def by linarith

lemma ring_ring: "base < fin \<Longrightarrow> ring base fin (ring base fin cur n) i = ring base fin cur (n + i)"
  by (simp add: ring_def mod_add_left_eq add.assoc)

lemma ring_linear: "base \<le> cur \<Longrightarrow> cur + n \<le> fin \<Longrightarrow> map (ring base fin cur) [0..<n] = [cur..<cur + n]"
  by (rule nth_equalityI) (simp_all add: ring_def)

lemma ring_map: "base < fin \<Longrightarrow> map (ring base fin cur) [0..<n + k]
    = map (ring base fin cur) [0..<n] @ map (ring base fin (ring base fin cur n)) [0..<k]"
  by (rule nth_equalityI) (auto simp: nth_append ring_ring)

lemma circular_step:
  assumes r: "base \<le> cur" "cur < fin" and len: "0 < len" and n: "n = min (unat fin - unat cur) len"
    and sg: "scatter_gather_rw ldl d sge_base max_sge buf pos cur n dir = Some (e, buf')"
  shows "circular_loop ldl d sge_base max_sge buf pos base fin cur len dir
    = circular_loop ldl e sge_base max_sge buf' (pos + n) base fin (of_nat (ring (unat base) (unat fin) (unat cur) n)) (len - n) dir"
proof -
  have u: "unat base \<le> unat cur" "unat cur < unat fin" "unat fin < 2 ^ 32" using r unat_less_exp [of fin] by (simp_all add: word_le_nat_alt word_less_nat_alt)
  have s: "unat (fin - cur) = unat fin - unat cur" using r(2) by (simp add: unat_sub)
  have n0: "0 < n" "unat cur + n \<le> unat fin" using u(2) len n by simp_all
  have "n < 2 ^ 32" using n0(2) u(3) by linarith
  then have "unat (of_nat n :: u32) = n" by (rule unat_of_nat_small)
  then have c: "unat (cur + of_nat n) = unat cur + n" using unat_add_small [of cur "of_nat n"] n0(2) u(3) by simp
  have x: "(if fin \<le> cur + of_nat n then base else cur + of_nat n) = of_nat (ring (unat base) (unat fin) (unat cur) n)"
  proof (cases "unat cur + n = unat fin")
    case True
    then have "ring (unat base) (unat fin) (unat cur) n = unat base" using u by (simp add: ring_def)
    then show ?thesis using c True by (simp add: word_le_nat_alt)
  next
    case False
    then have "ring (unat base) (unat fin) (unat cur) n = unat cur + n" using u(1) n0(2) by (simp add: ring_def)
    then show ?thesis using c False n0(2) by (simp add: word_le_nat_alt)
  qed
  have le: "cur + of_nat n \<le> fin" using c n0(2) by (simp add: word_le_nat_alt)
  then have "\<not> (fin \<le> cur + of_nat n \<and> cur + of_nat n \<noteq> fin)" by auto
  then show ?thesis using le r(1) len n0(1) sg x by (subst circular_loop.simps) (auto simp: Let_def s n [symmetric])
qed

lemma circular_spec:
  "table_ok ldl d sge_base max_sge T A \<Longrightarrow> {unat base..<unat fin} \<subseteq> A \<Longrightarrow> base \<le> cur \<Longrightarrow> cur < fin \<Longrightarrow> pos + len \<le> length buf
    \<Longrightarrow> circular_loop ldl d sge_base max_sge buf pos base fin cur len dir =
      (case transferred dir d buf pos (map (translate T) (map (ring (unat base) (unat fin) (unat cur)) [0..<len])) of
        (e, buf') \<Rightarrow> Some (e, buf', of_nat (ring (unat base) (unat fin) (unat cur) len)))"
proof (induction len arbitrary: d buf pos cur rule: less_induct)
  case (less len)
  let ?r = "ring (unat base) (unat fin)" and ?c = "unat cur"
  have u: "unat base \<le> ?c" "?c < unat fin" using less.prems(3,4) by (simp_all add: word_le_nat_alt word_less_nat_alt)
  show ?case
  proof (cases "len = 0")
    case True
    have "?r ?c 0 = ?c" using u by (simp add: ring_def)
    then show ?thesis using True by (subst circular_loop.simps) simp
  next
    case False
    define n where "n = min (unat fin - ?c) len"
    have n: "0 < n" "?c + n \<le> unat fin" "n \<le> len" using u(2) False by (simp_all add: n_def)
    have A: "{?c..<?c + n} \<subseteq> A" using less.prems(2) u(1) n(2) by (auto simp: subset_iff)
    let ?ps = "map (translate T) [?c..<?c + n]"
    obtain e buf' where e: "transferred dir d buf pos ?ps = (e, buf')" by (metis surj_pair)
    have l: "pos + length ?ps \<le> length buf" "pos + n \<le> length buf" using n(3) less.prems(5) by simp_all
    note k = transferred_keeps [OF e l(1)]
    have te: "table_ok ldl e sge_base max_sge T A" by (rule table_ok_update [OF less.prems(1) k(1) k(4)]) (use A in auto)
    have sg: "scatter_gather_rw ldl d sge_base max_sge buf pos cur n dir = Some (e, buf')"
      using scatter_gather_spec [OF less.prems(1) A l(2)] e by simp
    define cur' where "cur' = (of_nat (?r ?c n) :: u32)"
    have b: "unat base \<le> ?r ?c n" "?r ?c n < unat fin" using ring_bounds [of "unat base" "unat fin" ?c n] u by simp_all
    then have "?r ?c n < 2 ^ 32" using unat_less_exp [of fin] by linarith
    then have cu: "unat cur' = ?r ?c n" unfolding cur'_def by (rule unat_of_nat_small)
    have c': "base \<le> cur'" "cur' < fin" using b cu by (simp_all add: word_le_nat_alt word_less_nat_alt)
    have l': "len - n < len" "pos + n + (len - n) \<le> length buf'" using n(1,3) False k(3) less.prems(5) by simp_all
    have p: "map (translate T) (map (?r ?c) [0..<len]) = ?ps @ map (translate T) (map (?r (?r ?c n)) [0..<len - n])"
      using ring_map [of "unat base" "unat fin" ?c n "len - n"] ring_linear [OF u(1) n(2)] u n(3) by simp
    have "transferred dir d buf pos (?ps @ map (translate T) (map (?r (?r ?c n)) [0..<len - n]))
        = transferred dir e buf' (pos + length ?ps) (map (translate T) (map (?r (?r ?c n)) [0..<len - n]))"
      by (rule transferred_append [OF _ e]) (use n(3) less.prems(5) in simp)
    then have t: "transferred dir d buf pos (map (translate T) (map (?r ?c) [0..<len]))
        = transferred dir e buf' (pos + n) (map (translate T) (map (?r (?r ?c n)) [0..<len - n]))" unfolding p by simp
    have z: "?r (?r ?c n) (len - n) = ?r ?c len" using ring_ring [of "unat base" "unat fin" ?c n "len - n"] u n(3) by simp
    show ?thesis unfolding t circular_step [OF less.prems(3,4) False [unfolded neq0_conv] n_def sg] cur'_def [symmetric]
      using less.IH [OF l'(1) te less.prems(2) c' l'(2)] unfolding cu z .
  qed
qed

text \<open>What is written to scratch memory is read back: with a table that maps the pages to different places, a write
  followed by a read at the same address returns the bytes of the buffer.\<close>

lemma scratch_write_read:
  assumes "table_ok ldl d (apu_regs d NV_PAPU_GPSADDR) (apu_regs d NV_PAPU_GPSMAXSGE) T {unat addr..<unat addr + length buf}"
    and "inj_on (translate T) {unat addr..<unat addr + length buf}" and "length old = length buf"
  shows "\<exists>e. gp_scratch_rw ldl d buf addr (length buf) True = Some (e, buf) \<and> gp_scratch_rw ldl e old addr (length buf) False = Some (e, buf)"
proof -
  let ?A = "{unat addr..<unat addr + length buf}" and ?ps = "map (translate T) [unat addr..<unat addr + length buf]"
  obtain e where e: "transferred True d buf 0 ?ps = (e, buf)" by (simp add: transferred_def)
  have "0 + length ?ps \<le> length buf" by simp
  note k = transferred_keeps [OF e this]
  have te: "table_ok ldl e (apu_regs d NV_PAPU_GPSADDR) (apu_regs d NV_PAPU_GPSMAXSGE) T ?A"
    by (rule table_ok_update [OF assms(1) k(1)]) (use k(4) in auto)
  have "ram e = store_at (ram d) ?ps buf" using e by (auto simp: transferred_def)
  moreover have "distinct ?ps" using assms(2) by (simp add: distinct_map)
  ultimately have "map (ram e) ?ps = buf" using map_store_at [of ?ps buf "ram d"] by simp
  then have "transferred False e old 0 ?ps = (e, buf)" using assms(3) by (simp add: transferred_def overlay_def)
  then show ?thesis using scatter_gather_spec [OF assms(1) subset_refl, of 0 buf True] scatter_gather_spec [OF te subset_refl, of 0 old False] e k(2) assms(3)
    by (auto simp: gp_scratch_rw_def)
qed

text \<open>A table that maps every page to itself, with the descriptors in the last kilobytes of 64 megabytes.\<close>

definition identity_ldl :: ldl where
  "identity_ldl m a = of_nat (0x1000 * ((a - 0x3FF0000) div 8))"

definition example_apu :: MCPXAPUState where
  "example_apu = \<lparr>apu_regs = (\<lambda>r. if r = 0x2040 \<or> r = 0x2044 then 0x3FF0000 else if r = 0x20D4 \<or> r = 0x20D8 then 0xFF else 0), ram = (\<lambda>x. of_nat x), ram_size = 0x4000000\<rparr>"

lemma example_table:
  assumes "A \<subseteq> {0..<0x4000}"
  shows "table_ok identity_ldl example_apu 0x3FF0000 0xFF (\<lambda>k. of_nat (0x1000 * k)) A"
proof -
  have "a < 2 ^ 32 \<and> a div 0x1000 \<le> unat (0xFF :: u32) \<and> unat (of_nat (0x1000 * (a div 0x1000)) :: u32) + 0x1000 < ram_size example_apu
      \<and> (\<forall>m. identity_ldl m (unat (0x3FF0000 :: u32) + unat (of_nat (a div 0x1000) * 8 :: u32)) = of_nat (0x1000 * (a div 0x1000)))"
    if "a \<in> A" for a
  proof -
    have a: "a < 0x4000" using assms that by auto
    then consider "a div 0x1000 = 0" | "a div 0x1000 = 1" | "a div 0x1000 = 2" | "a div 0x1000 = 3"
      using less_mult_imp_div_less [of a 4 "0x1000"] by fastforce
    then show ?thesis using a by cases (simp_all add: identity_ldl_def example_apu_def)
  qed
  then show ?thesis unfolding table_ok_def by (simp add: example_apu_def)
qed

subsection \<open>Properties\<close>

text \<open>C38: A scatter-gather transfer is a copy to or from the linear address space that the descriptor table defines: it
  returns, a write changes exactly the bytes of guest memory at the translated addresses, to the bytes of the
  buffer, and a read replaces exactly the bytes of the buffer by those in memory. The table is valid for the
  addresses and is not itself overwritten.\<close>

theorem scatter_gather_refines:
  assumes "table_ok ldl d sge_base max_sge T {unat addr..<unat addr + len}" and "pos + len \<le> length buf"
  shows "scatter_gather_rw ldl d sge_base max_sge buf pos addr len True
      = Some (d\<lparr>ram := store_at (ram d) (map (translate T) [unat addr..<unat addr + len]) (take len (drop pos buf))\<rparr>, buf)
    \<and> scatter_gather_rw ldl d sge_base max_sge buf pos addr len False
      = Some (d, take pos buf @ map (\<lambda>i. ram d (translate T i)) [unat addr..<unat addr + len] @ drop (pos + len) buf)"
  using scatter_gather_spec [OF assms(1) subset_refl assms(2)] by (simp add: transferred_def overlay_def comp_def)

text \<open>C39: A FIFO transfer runs around its range: it returns, byte \<open>i\<close> of the buffer goes to or comes from the address
  \<open>i\<close> steps behind the current one in the circle from \<open>base\<close> to \<open>end\<close>, and the new current address is \<open>len\<close> steps
  further. The pages of the range are valid and the table is not itself overwritten.\<close>

theorem fifo_runs_around:
  assumes t: "table_ok ldl d sge_base max_sge T {unat base..<unat fin}" and r: "base \<le> cur" "cur < fin" and l: "len \<le> length buf"
  shows "circular_scatter_gather_rw ldl d sge_base max_sge buf base fin cur len True
      = Some (d\<lparr>ram := store_at (ram d) (map (\<lambda>i. translate T (ring (unat base) (unat fin) (unat cur) i)) [0..<len]) (take len buf)\<rparr>, buf,
          of_nat (ring (unat base) (unat fin) (unat cur) len))
    \<and> circular_scatter_gather_rw ldl d sge_base max_sge buf base fin cur len False
      = Some (d, map (\<lambda>i. ram d (translate T (ring (unat base) (unat fin) (unat cur) i))) [0..<len] @ drop len buf,
          of_nat (ring (unat base) (unat fin) (unat cur) len))"
  using circular_spec [OF t subset_refl r, of 0 len buf] l
  by (simp add: circular_scatter_gather_rw_def transferred_def overlay_def comp_def)

theorem scatter_gather_refines_witness:
  "scatter_gather_rw identity_ldl example_apu 0x3FF0000 0xFF [1, 2, 3] 0 0xFFF 3 True
      = Some (example_apu\<lparr>ram := store_at (ram example_apu) (map (translate (\<lambda>k. of_nat (0x1000 * k))) [unat (0xFFF :: u32)..<unat (0xFFF :: u32) + 3])
          (take 3 (drop 0 [1, 2, 3]))\<rparr>, [1, 2, 3])
    \<and> scatter_gather_rw identity_ldl example_apu 0x3FF0000 0xFF [1, 2, 3] 0 0xFFF 3 False
      = Some (example_apu, take 0 [1, 2, 3] @ map (\<lambda>i. ram example_apu (translate (\<lambda>k. of_nat (0x1000 * k)) i)) [unat (0xFFF :: u32)..<unat (0xFFF :: u32) + 3]
          @ drop (0 + 3) [1, 2, 3])"
  by (rule scatter_gather_refines [OF example_table]) auto

theorem fifo_runs_around_witness:
  "circular_scatter_gather_rw identity_ldl example_apu 0x3FF0000 0xFF [1, 2, 3, 4] 0x100 0x103 0x102 4 True
      = Some (example_apu\<lparr>ram := store_at (ram example_apu)
          (map (\<lambda>i. translate (\<lambda>k. of_nat (0x1000 * k)) (ring (unat (0x100 :: u32)) (unat (0x103 :: u32)) (unat (0x102 :: u32)) i)) [0..<4]) (take 4 [1, 2, 3, 4])\<rparr>,
          [1, 2, 3, 4], of_nat (ring (unat (0x100 :: u32)) (unat (0x103 :: u32)) (unat (0x102 :: u32)) 4))
    \<and> circular_scatter_gather_rw identity_ldl example_apu 0x3FF0000 0xFF [1, 2, 3, 4] 0x100 0x103 0x102 4 False
      = Some (example_apu, map (\<lambda>i. ram example_apu (translate (\<lambda>k. of_nat (0x1000 * k)) (ring (unat (0x100 :: u32)) (unat (0x103 :: u32)) (unat (0x102 :: u32)) i))) [0..<4]
          @ drop 4 [1, 2, 3, 4], of_nat (ring (unat (0x100 :: u32)) (unat (0x103 :: u32)) (unat (0x102 :: u32)) 4))"
  by (rule fifo_runs_around [OF example_table]) auto

text \<open>C40: The fields of the registers of an output FIFO of the global processor are compared in different units: the end counts
  256 bytes and the current address 4 bytes, so a transfer aborts as soon as the current address in bytes is at least a 64th of the end,
  for instance for every FIFO whose base is not in the first 64th of the range up to its end.\<close>

theorem fifo_units_abort:
  assumes "unat (apu_regs d (0x3028 + 0x10 * index) AND 0x00FFFF00) \<le> 64 * unat (apu_regs d (0x302C + 0x10 * index) AND 0x00FFFFFC)"
  shows "gp_fifo_rw ldl d buf index len True = None"
proof -
  let ?e = "apu_regs d (0x3028 + 0x10 * index)" and ?c = "apu_regs d (0x302C + 0x10 * index)"
  have "unat (base_field ?e) = unat (?e AND 0x00FFFF00) div 256" unfolding base_field_def unat_drop_bit by simp
  also have "\<dots> \<le> (64 * unat (?c AND 0x00FFFFFC)) div 256" using assms by (rule div_le_mono)
  also have "\<dots> = unat (?c AND 0x00FFFFFC) div 2 ^ 2" by simp
  also have "\<dots> = unat (cur_field ?c)" unfolding cur_field_def unat_drop_bit ..
  finally have "\<not> cur_field ?c < base_field ?e" by (simp add: word_less_nat_alt)
  then show ?thesis by (simp add: gp_fifo_rw_def fifo_transfer_def Let_def assert_def)
qed

theorem fifo_units_abort_witness:
  "gp_fifo_rw identity_ldl (example_apu\<lparr>apu_regs := (\<lambda>r. if r = 0x3024 then 0x1000 else if r = 0x3028 then 0x2000 else 0x1000)\<rparr>) [1, 2, 3, 4] 0 4 True = None"
  by (rule fifo_units_abort) simp

end
