(* ===== verification/Spec2Isabelle.thy ===== *)
theory Spec2Isabelle
  imports Prelude Dsp_State Dsp_Arith Dsp_Mul Dsp_Mem Dsp_Dma Dsp_Stack Dsp_Agu Dsp_Alu Dsp_Alu_Props
    Dsp_Alu_Correct Dsp_Pm Dsp_Ctrl Dsp_Flow Dsp_Move Dsp_Decode Dsp_Decode_Props Dsp_Exec
    Dsp_Inv Dsp_Inv_Instr Dsp_Inv_Exec Dsp_Ticks Dsp_Run
    Dsp_Flow_Props Dsp_Irq_Props Dsp_Agu_Props Dsp_Cond_Props
    Swizzle Swizzle_Props Texture_Upload Lru Texture_Cache Adpcm Apu_Dma
begin

text \<open>
  A verification library for the console-specific parts of the Xbox emulator XQEMU, \<open>src/hw/xbox\<close>.

  \<^bold>\<open>The program.\<close> XQEMU is QEMU with the devices of the Xbox. Its audio unit (\<open>mcpx_apu.c\<close>) has a voice
  processor, which plays PCM and ADPCM samples from guest memory (\<open>adpcm.h\<close>, \<open>adpcm_block.h\<close>), and two
  programmable DSPs, a DSP56300 each (\<open>dsp/\<close>): a core with data ALU, address generation, parallel moves, hardware
  loops and interrupts (\<open>dsp_cpu.c\<close>, \<open>dsp_emu.inl\<close>), and a DMA engine (\<open>dsp_dma.c\<close>) that reaches guest memory
  through accessors of the audio unit (scatter-gather lists and FIFOs). The graphics unit (\<open>nv2a/\<close>) converts
  textures between the linear and the swizzled layout (\<open>swizzle.c\<close>), uploads them to OpenGL and keeps them in a cache (\<open>lru.c\<close>,
  \<open>nv2a_pgraph.c\<close>).

  \<^bold>\<open>Conventions.\<close> A C structure is a record with the same fields, a structure that embeds another one is an extension
  of its record, and \<open>container_of\<close> is the identity. Unsigned integers are words of their width, signed ones are
  integers, reduced where the code relies on their width or shown to stay within it. A fixed array is a function
  of its index. A function that can fail returns an option: \<open>None\<close> stands for a failed \<open>assert\<close>, for
  undefined behaviour, and for a loop that does not end. Function pointers are fields or arguments; code outside the
  repository (OpenGL and the allocator, the record \<open>host\<close>, and the memory system that reads descriptors) is an argument of the definitions.

  \<^bold>\<open>DSP core.\<close> \<open>Dsp_State\<close> has the structures, registers and reset; \<open>Dsp_Arith\<close> and \<open>Dsp_Mul\<close> the 56-bit arithmetic with
  complete specifications; \<open>Dsp_Mem\<close> the memories, with the locale \<open>word_memory\<close> for blocks of words; \<open>Dsp_Stack\<close> the
  hardware stack, with the locale \<open>bounded_lifo\<close> that it implements; \<open>Dsp_Agu\<close> address generation and condition codes;
  \<open>Dsp_Alu\<close> the data ALU with its dispatch table; \<open>Dsp_Pm\<close> the parallel moves; \<open>Dsp_Ctrl\<close>, \<open>Dsp_Flow\<close> and \<open>Dsp_Move\<close> the
  other instructions; \<open>Dsp_Decode\<close> the instruction table; \<open>Dsp_Exec\<close> the instruction cycle, interrupts, \<open>dsp_run\<close> and
  the other entry points of \<open>dsp.c\<close>.
  The lemmas show: ADD, SUB, CMP and MAC compute in 56-bit two's complement and set the condition codes
  and when MAX copies, with exchanged limbs (\<open>Dsp_Alu_Correct\<close>), the conditions after a comparison decide the order, the limiter clamps
  without scaling, which values it misses in the scale-up mode, and
  an arithmetic right shift loses the sign (\<open>Dsp_Cond_Props\<close>),
  modulo and bit-reversed addressing (\<open>Dsp_Agu_Props\<close>), calls, REP and DO loops across instructions
  (\<open>Dsp_Flow_Props\<close>), the interrupt that is taken (\<open>Dsp_Irq_Props\<close>), which instruction words the decoder rejects
  (\<open>Dsp_Decode_Props\<close>), that every state reached without MAX and without BSET or BCHG of an accumulator bit
  above 23 keeps the widths of the registers, of the X and Y memories and of the mixing buffer (24 bits for the address, offset and loop registers, which LUA and REP fill beyond the 16 of the hardware;
  \<open>Dsp_Inv\<close>, \<open>Dsp_Inv_Instr\<close>,
  \<open>Dsp_Inv_Exec\<close>, \<open>Dsp_Run\<close>), and that \<open>dsp_run\<close> ends because every instruction takes cycles (\<open>Dsp_Ticks\<close>, \<open>Dsp_Run\<close>).

  \<^bold>\<open>DMA.\<close> \<open>Dsp_Dma\<close> models the interpreter of block lists and the peripheral registers: what a block transfers in either
  direction, that a list of transfers out of the DSP is processed to its end, by the accessor calls of its blocks in their order and with no
  other effect, and that a block that points to itself hangs. \<open>Apu_Dma\<close> models the accessors that \<open>mcpx_apu.c\<close> gives it; they refine copies in the linear
  address space of a descriptor table, and a FIFO transfer runs around its range. The property at the end of this
  theory joins the two: the bootstrap of the global processor loads its program from guest memory.

  \<^bold>\<open>ADPCM.\<close> \<open>Adpcm\<close> models the decoder; a block yields the samples of the reference sequence, with one sample more than
  asked for, which in the stereo case overwrites the other channel.

  \<^bold>\<open>Textures.\<close> \<open>Swizzle\<close> and \<open>Swizzle_Props\<close> model the conversions: the masks interleave the coordinate bits, texels do not
  overlap, a rectangle survives the round trip, a box keeps only its last slice. \<open>Texture_Upload\<close> models the colour formats,
  the conversion of the data and the upload with all its assertions, and shows for which textures it returns. \<open>Lru\<close> models the intrusive lists of
  the cache; the locale \<open>lru_client\<close> states what the cache needs from its callbacks and refines a list in order of
  use. \<open>Texture_Cache\<close> interprets it on the callbacks of the graphics engine, with reference counts that are exact
  over all sequences of binds, and models the binding of a texture with its sampler parameters.

  \<^bold>\<open>Bounds.\<close> Loops whose end depends on data are \<open>partial_function\<close>s (\<open>dsp_dma_loop\<close>, \<open>dsp_run_loop\<close>, \<open>fill_pattern_loop\<close>,
  \<open>swizzle_mask_loop\<close>, \<open>lru_walk\<close>, \<open>lru_flush_loop\<close>), and that they return is part of the properties. The only fuel is
  that of \<open>bufsize_loop\<close>, 16 doublings of a 16-bit word, which is enough for every modulus up to \<open>2 ^ 15\<close>; beyond it the C loop does
  not end either.

  \<^bold>\<open>Not modelled.\<close> The disassembler (text output); register decoding, voices and mixing of the audio unit, the command
  FIFO, the shader generators and the drawing methods of the graphics unit (OpenGL, threads and guest memory at every step);
  the network, SMBus, USB and bridge devices (register glue of the upstream device model); and the upstream
  emulator.
\<close>

subsection \<open>Bootstrap of the global processor\<close>

lemma item_words_nth:
  "4 * n \<le> length buf \<Longrightarrow> item_words 4 buf n = Some (map (\<lambda>i. the (item_word 4 buf i)) [0..<n])"
  by (induction n) (simp_all add: item_word_def)

lemma length_pram_bytes: "length (pram_bytes s) = 0x2000"
proof -
  have "length (concat (map (\<lambda>i. item_bytes 4 (f i)) xs)) = 4 * length xs" for f and xs :: "nat list"
    by (induction xs) (simp_all add: item_bytes_def)
  then show ?thesis by (simp add: pram_bytes_def)
qed

text \<open>Little-endian words of guest memory.\<close>

definition ram_word :: "MCPXAPUState \<Rightarrow> (nat \<Rightarrow> nat) \<Rightarrow> nat \<Rightarrow> u32" where
  "ram_word d f a = ucast (ram d (f a)) OR shl (ucast (ram d (f (a + 1)))) 8
     OR shl (ucast (ram d (f (a + 2)))) 16 OR shl (ucast (ram d (f (a + 3)))) 24"

text \<open>C37: Bootstrapping the global processor loads its program from guest memory: with the accessor of the audio unit and
  a valid descriptor table, \<open>dsp_bootstrap\<close> returns, the first 0x800 words of program memory are the little-endian
  words at the linear addresses 0, 4, and so on, translated by the table, and the rest of program memory and the
  audio unit are unchanged.\<close>

theorem gp_bootstrap_loads:
  assumes "scratch_rw (dma s) = gp_scratch_rw ldl" and "rw_opaque (dma s) = d"
    and "table_ok ldl d (apu_regs d 0x2040) (apu_regs d 0x20D4) T {0..<0x2000}"
  shows "\<exists>t. dsp_bootstrap s = Some t \<and> rw_opaque (dma t) = d
    \<and> (\<forall>i<0x800. pram t (of_nat i) = ram_word d (translate T) (4 * i))
    \<and> (\<forall>a. 0x800 \<le> unat a \<longrightarrow> pram t a = pram s a)"
proof -
  let ?buf = "map (\<lambda>i. ram d (translate T i)) [0..<0x2000]"
  have "{unat (0::u32)..<unat (0::u32) + 0x2000} \<subseteq> {0..<0x2000}" "0 + 0x2000 \<le> length (pram_bytes s)"
    by (simp_all add: length_pram_bytes)
  from scatter_gather_spec [OF assms(3) this, of False]
  have "scratch_rw (dma s) d (pram_bytes s) 0 0x2000 False = Some (d, ?buf)"
    by (simp add: assms(1) gp_scratch_rw_def transferred_def overlay_def length_pram_bytes comp_def)
  moreover have "item_words 4 ?buf 0x800 = Some (map (\<lambda>i. the (item_word 4 ?buf i)) [0..<0x800])" by (rule item_words_nth) simp
  moreover have "the (item_word 4 ?buf i) = ram_word d (translate T) (4 * i)" if "i < 0x800" for i
    using that by (simp add: item_word_def ram_word_def mult.commute [of i])
  ultimately show ?thesis using assms(2) by (simp add: dsp_bootstrap_def Let_def unat_of_nat_small)
qed

theorem gp_bootstrap_loads_witness:
  "\<exists>t. dsp_bootstrap (dsp_init example_apu (gp_scratch_rw identity_ldl) (gp_fifo_rw identity_ldl)) = Some t
    \<and> rw_opaque (dma t) = example_apu
    \<and> (\<forall>i<0x800. pram t (of_nat i) = ram_word example_apu (translate (\<lambda>k. of_nat (0x1000 * k))) (4 * i))
    \<and> (\<forall>a. 0x800 \<le> unat a \<longrightarrow> pram t a = pram (dsp_init example_apu (gp_scratch_rw identity_ldl) (gp_fifo_rw identity_ldl)) a)"
proof (rule gp_bootstrap_loads)
  show "table_ok identity_ldl example_apu (apu_regs example_apu 0x2040) (apu_regs example_apu 0x20D4) (\<lambda>k. of_nat (0x1000 * k)) {0..<0x2000}"
    using example_table [of "{0..<0x2000}"] by (simp add: example_apu_def)
qed (simp_all add: dsp_init_def dsp_reset_def dsp56k_reset_cpu_def Let_def)

end
